(* ===== verification/RV_Prelude.thy ===== *)
theory RV_Prelude
  imports Main "HOL-Library.Word"
begin

text \<open>
  The vocabulary shared by all component theories: the machine integer types of the C
  sources as words, the casts and shifts the code uses, bounded loops, and the collections of
  rewrite rules the component proofs draw on.

  A C value of type \<^verbatim>\<open>int32_t\<close> is kept as its 32-bit pattern; a signed
  comparison reads it with \<^const>\<open>sint\<close>, an arithmetic right shift is
  \<^const>\<open>signed_drop_bit\<close>.
\<close>

unbundle bit_operations_syntax

type_synonym u8 = "8 word"
type_synonym u16 = "16 word"
type_synonym u32 = "32 word"
type_synonym u64 = "64 word"

named_theorems ir_simps \<open>unfolding of the IR record helpers\<close>
named_theorems decode_defs \<open>definitions of the field decoders\<close>
named_theorems op_defs \<open>definitions of the instruction bodies\<close>
named_theorems mem_defs \<open>definitions of the memory accessors\<close>

section \<open>Casts, shifts and loops\<close>

text \<open>
  \<^verbatim>\<open>(int32_t) x >> n\<close>, the casts through \<^verbatim>\<open>int8_t\<close> and
  \<^verbatim>\<open>int16_t\<close> of \<^verbatim>\<open>sign_extend_b\<close> and
  \<^verbatim>\<open>sign_extend_h\<close>, and a loop that runs its body on
  \<^verbatim>\<open>lo, lo + 1, ..., hi - 1\<close>.
\<close>

abbreviation sar :: "nat \<Rightarrow> 'a::len word \<Rightarrow> 'a word" where
  "sar n x \<equiv> signed_drop_bit n x"

definition sign_extend_h :: "u32 \<Rightarrow> u32" where
  "sign_extend_h x = scast (ucast x :: u16)"

definition sign_extend_b :: "u32 \<Rightarrow> u32" where
  "sign_extend_b x = scast (ucast x :: u8)"

definition for_loop :: "nat \<Rightarrow> nat \<Rightarrow> (nat \<Rightarrow> 's \<Rightarrow> 's) \<Rightarrow> 's \<Rightarrow> 's" where
  "for_loop lo hi body s = fold body [lo..<hi] s"

section \<open>Generic lemmas\<close>

lemma for_loop_done [simp]: "hi \<le> lo \<Longrightarrow> for_loop lo hi body s = s"
  by (simp add: for_loop_def)

lemma for_loop_step: "lo < hi \<Longrightarrow> for_loop lo hi body s = for_loop (Suc lo) hi body (body lo s)"
  by (simp add: for_loop_def upt_conv_Cons)

lemma for_loop_last: "lo \<le> hi \<Longrightarrow> for_loop lo (Suc hi) body s = body hi (for_loop lo hi body s)"
  by (simp add: for_loop_def)

lemma for_loop_invariant:
  assumes "P lo s" "lo \<le> hi"
    and "\<And>i t. lo \<le> i \<Longrightarrow> i < hi \<Longrightarrow> P i t \<Longrightarrow> P (Suc i) (body i t)"
  shows "P hi (for_loop lo hi body s)"
  using assms(2,1,3)
proof (induction "hi - lo" arbitrary: lo s)
  case 0
  then show ?case by simp
next
  case (Suc n)
  then have "lo < hi" by simp
  moreover have "P (Suc lo) (body lo s)" using Suc.prems \<open>lo < hi\<close> by simp
  ultimately show ?case
    using Suc.hyps(1) [of "Suc lo" "body lo s"] Suc.hyps(2) Suc.prems(3)
    by (simp add: for_loop_step)
qed

text \<open>Two words are equal when their bits are, position by position.\<close>

lemma all_less_upt: "(\<forall>n < k. P n) \<longleftrightarrow> list_all P [0..<k]"
  by (auto simp: list_all_iff)

lemma word_eq_bits:
  fixes x y :: "'a::len word"
  assumes "list_all (\<lambda>n. bit x n = bit y n) [0..<LENGTH('a)]"
  shows "x = y"
proof (rule bit_word_eqI)
  fix n assume "n < LENGTH('a)"
  then show "bit x n = bit y n"
    using assms by (simp add: list_all_iff)
qed

text \<open>
  Equality of words by comparing bit after bit: \<^verbatim>\<open>word_eq_bits\<close> reduces it to a
  list of positions, the rules below unfold that list and push \<^const>\<open>bit\<close> inwards.
\<close>

lemma not_bit_length [simp]: "LENGTH('a::len) \<le> n \<Longrightarrow> \<not> bit (w :: 'a word) n"
  by (auto dest: bit_imp_le_length)

lemma upt_8: "[0..<8] = [0, 1, 2, 3, 4, 5, 6, 7]"
  by (simp add: upt_rec)

lemma upt_16: "[0..<16] = [0, 1, 2, 3, 4, 5, 6, 7, 8, 9, 10, 11, 12, 13, 14, 15]"
  by (simp add: upt_rec)

lemma upt_32:
  "[0..<32] = [0, 1, 2, 3, 4, 5, 6, 7, 8, 9, 10, 11, 12, 13, 14, 15,
     16, 17, 18, 19, 20, 21, 22, 23, 24, 25, 26, 27, 28, 29, 30, 31]"
  by (simp add: upt_rec)

lemma Suc_Suc_0: "Suc (Suc 0) = 2"
  by simp

lemmas bitblast = upt_8 upt_16 upt_32 bit_simps Let_def Suc_Suc_0

declare push_bit_Suc [simp del]

lemma map_of_Some_in: "map_of xs k = Some v \<Longrightarrow> v \<in> snd ` set xs"
  by (metis image_eqI map_of_SomeD snd_conv)

lemma map_of_list_all: "map_of xs k = Some v \<Longrightarrow> list_all (\<lambda>(_, v). P v) xs \<Longrightarrow> P v"
  by (auto simp: list_all_iff dest: map_of_SomeD)

end
