(* ===== verification/RV_Insn.thy ===== *)
theory RV_Insn
  imports RV_Prelude
begin

text \<open>
  The instruction identifiers, their attribute table and the intermediate representation (IR)
  of \<^verbatim>\<open>decode.h\<close>, the build configuration \<^verbatim>\<open>RV32_HAS(...)\<close>, and
  the register numbers of \<^verbatim>\<open>riscv.h\<close>.

  The enumeration of \<^verbatim>\<open>RV_INSN_LIST\<close> is split into one datatype per section
  comment of that list; the type \<^verbatim>\<open>opcode\<close> is their disjoint union, together with the
  macro-fused operations of \<^verbatim>\<open>FUSE_INSN_LIST\<close>.
\<close>

section \<open>Instruction identifiers\<close>

datatype (plugins only: code size) rv32i_insn =
  rv_insn_nop | rv_insn_lui | rv_insn_auipc | rv_insn_jal | rv_insn_jalr | rv_insn_beq |
  rv_insn_bne | rv_insn_blt | rv_insn_bge | rv_insn_bltu | rv_insn_bgeu | rv_insn_lb |
  rv_insn_lh | rv_insn_lw | rv_insn_lbu | rv_insn_lhu | rv_insn_sb | rv_insn_sh |
  rv_insn_sw | rv_insn_addi | rv_insn_slti | rv_insn_sltiu | rv_insn_xori | rv_insn_ori |
  rv_insn_andi | rv_insn_slli | rv_insn_srli | rv_insn_srai | rv_insn_add | rv_insn_sub |
  rv_insn_sll | rv_insn_slt | rv_insn_sltu | rv_insn_xor | rv_insn_srl | rv_insn_sra |
  rv_insn_or | rv_insn_and | rv_insn_fence | rv_insn_ecall | rv_insn_ebreak

datatype (plugins only: code size) rvpriv_insn =
  rv_insn_wfi | rv_insn_uret | rv_insn_sret | rv_insn_hret | rv_insn_mret |
  rv_insn_sfencevma

datatype (plugins only: code size) rvzifencei_insn =
  rv_insn_fencei

datatype (plugins only: code size) rvzicsr_insn =
  rv_insn_csrrw | rv_insn_csrrs | rv_insn_csrrc | rv_insn_csrrwi | rv_insn_csrrsi |
  rv_insn_csrrci

datatype (plugins only: code size) rvzba_insn =
  rv_insn_sh1add | rv_insn_sh2add | rv_insn_sh3add

datatype (plugins only: code size) rvzbb_insn =
  rv_insn_andn | rv_insn_orn | rv_insn_xnor | rv_insn_clz | rv_insn_ctz | rv_insn_cpop |
  rv_insn_max | rv_insn_maxu | rv_insn_min | rv_insn_minu | rv_insn_sextb | rv_insn_sexth
  | rv_insn_zexth | rv_insn_rol | rv_insn_ror | rv_insn_rori | rv_insn_orcb | rv_insn_rev8

datatype (plugins only: code size) rvzbc_insn =
  rv_insn_clmul | rv_insn_clmulh | rv_insn_clmulr

datatype (plugins only: code size) rvzbs_insn =
  rv_insn_bclr | rv_insn_bclri | rv_insn_bext | rv_insn_bexti | rv_insn_binv |
  rv_insn_binvi | rv_insn_bset | rv_insn_bseti

datatype (plugins only: code size) rv32m_insn =
  rv_insn_mul | rv_insn_mulh | rv_insn_mulhsu | rv_insn_mulhu | rv_insn_div | rv_insn_divu
  | rv_insn_rem | rv_insn_remu

datatype (plugins only: code size) rv32a_insn =
  rv_insn_lrw | rv_insn_scw | rv_insn_amoswapw | rv_insn_amoaddw | rv_insn_amoxorw |
  rv_insn_amoandw | rv_insn_amoorw | rv_insn_amominw | rv_insn_amomaxw | rv_insn_amominuw
  | rv_insn_amomaxuw

datatype (plugins only: code size) rv32f_insn =
  rv_insn_flw | rv_insn_fsw | rv_insn_fmadds | rv_insn_fmsubs | rv_insn_fnmsubs |
  rv_insn_fnmadds | rv_insn_fadds | rv_insn_fsubs | rv_insn_fmuls | rv_insn_fdivs |
  rv_insn_fsqrts | rv_insn_fsgnjs | rv_insn_fsgnjns | rv_insn_fsgnjxs | rv_insn_fmins |
  rv_insn_fmaxs | rv_insn_fcvtws | rv_insn_fcvtwus | rv_insn_fmvxw | rv_insn_feqs |
  rv_insn_flts | rv_insn_fles | rv_insn_fclasss | rv_insn_fcvtsw | rv_insn_fcvtswu |
  rv_insn_fmvwx

datatype (plugins only: code size) rv32c_insn =
  rv_insn_caddi4spn | rv_insn_clw | rv_insn_csw | rv_insn_cnop | rv_insn_caddi |
  rv_insn_cjal | rv_insn_cli | rv_insn_caddi16sp | rv_insn_clui | rv_insn_csrli |
  rv_insn_csrai | rv_insn_candi | rv_insn_csub | rv_insn_cxor | rv_insn_cor | rv_insn_cand
  | rv_insn_cj | rv_insn_cbeqz | rv_insn_cbnez | rv_insn_cslli | rv_insn_clwsp |
  rv_insn_cjr | rv_insn_cmv | rv_insn_cebreak | rv_insn_cjalr | rv_insn_cadd |
  rv_insn_cswsp

datatype (plugins only: code size) rv32fc_insn =
  rv_insn_cflwsp | rv_insn_cfswsp | rv_insn_cflw | rv_insn_cfsw

datatype (plugins only: code size) fuse_insn =
  rv_insn_fuse1 | rv_insn_fuse2 | rv_insn_fuse3 | rv_insn_fuse4 | rv_insn_fuse5 |
  rv_insn_fuse6 | rv_insn_fuse7 | rv_insn_fuse8 | rv_insn_fuse9 | rv_insn_fuse10 |
  rv_insn_fuse11 | rv_insn_fuse12

datatype (plugins only: code size) opcode =
    RV32I rv32i_insn
  | RVPriv rvpriv_insn
  | RVZifencei rvzifencei_insn
  | RVZicsr rvzicsr_insn
  | RVZba rvzba_insn
  | RVZbb rvzbb_insn
  | RVZbc rvzbc_insn
  | RVZbs rvzbs_insn
  | RV32M rv32m_insn
  | RV32A rv32a_insn
  | RV32F rv32f_insn
  | RV32C rv32c_insn
  | RV32FC rv32fc_insn
  | Fuse fuse_insn

section \<open>The attribute table\<close>

text \<open>
  \<^verbatim>\<open>enum op_field\<close> as a list of the register fields the instruction uses, and the
  columns \<^verbatim>\<open>can-branch\<close>, \<^verbatim>\<open>insn_len\<close>, \<^verbatim>\<open>translatable\<close> and
  \<^verbatim>\<open>reg-mask\<close> of the list.
\<close>

datatype op_field = F_rs1 | F_rs2 | F_rs3 | F_rd

record insn_attr =
  attr_can_branch :: bool
  attr_insn_len :: nat
  attr_translatable :: bool
  attr_reg_mask :: "op_field list"

definition attr :: "bool \<Rightarrow> nat \<Rightarrow> bool \<Rightarrow> op_field list \<Rightarrow> insn_attr" where
  "attr b l t r = \<lparr>attr_can_branch = b, attr_insn_len = l, attr_translatable = t, attr_reg_mask = r\<rparr>"

primrec rv32i_insn_attr :: "rv32i_insn \<Rightarrow> insn_attr" where
  "rv32i_insn_attr rv_insn_nop = attr False 4 True [F_rs1, F_rd]"
| "rv32i_insn_attr rv_insn_lui = attr False 4 True [F_rd]"
| "rv32i_insn_attr rv_insn_auipc = attr False 4 True [F_rd]"
| "rv32i_insn_attr rv_insn_jal = attr True 4 True [F_rd]"
| "rv32i_insn_attr rv_insn_jalr = attr True 4 True [F_rs1, F_rd]"
| "rv32i_insn_attr rv_insn_beq = attr True 4 True [F_rs1, F_rs2]"
| "rv32i_insn_attr rv_insn_bne = attr True 4 True [F_rs1, F_rs2]"
| "rv32i_insn_attr rv_insn_blt = attr True 4 True [F_rs1, F_rs2]"
| "rv32i_insn_attr rv_insn_bge = attr True 4 True [F_rs1, F_rs2]"
| "rv32i_insn_attr rv_insn_bltu = attr True 4 True [F_rs1, F_rs2]"
| "rv32i_insn_attr rv_insn_bgeu = attr True 4 True [F_rs1, F_rs2]"
| "rv32i_insn_attr rv_insn_lb = attr False 4 True [F_rs1, F_rd]"
| "rv32i_insn_attr rv_insn_lh = attr False 4 True [F_rs1, F_rd]"
| "rv32i_insn_attr rv_insn_lw = attr False 4 True [F_rs1, F_rd]"
| "rv32i_insn_attr rv_insn_lbu = attr False 4 True [F_rs1, F_rd]"
| "rv32i_insn_attr rv_insn_lhu = attr False 4 True [F_rs1, F_rd]"
| "rv32i_insn_attr rv_insn_sb = attr False 4 True [F_rs1, F_rs2]"
| "rv32i_insn_attr rv_insn_sh = attr False 4 True [F_rs1, F_rs2]"
| "rv32i_insn_attr rv_insn_sw = attr False 4 True [F_rs1, F_rs2]"
| "rv32i_insn_attr rv_insn_addi = attr False 4 True [F_rs1, F_rd]"
| "rv32i_insn_attr rv_insn_slti = attr False 4 True [F_rs1, F_rd]"
| "rv32i_insn_attr rv_insn_sltiu = attr False 4 True [F_rs1, F_rd]"
| "rv32i_insn_attr rv_insn_xori = attr False 4 True [F_rs1, F_rd]"
| "rv32i_insn_attr rv_insn_ori = attr False 4 True [F_rs1, F_rd]"
| "rv32i_insn_attr rv_insn_andi = attr False 4 True [F_rs1, F_rd]"
| "rv32i_insn_attr rv_insn_slli = attr False 4 True [F_rs1, F_rd]"
| "rv32i_insn_attr rv_insn_srli = attr False 4 True [F_rs1, F_rd]"
| "rv32i_insn_attr rv_insn_srai = attr False 4 True [F_rs1, F_rd]"
| "rv32i_insn_attr rv_insn_add = attr False 4 True [F_rs1, F_rs2, F_rd]"
| "rv32i_insn_attr rv_insn_sub = attr False 4 True [F_rs1, F_rs2, F_rd]"
| "rv32i_insn_attr rv_insn_sll = attr False 4 True [F_rs1, F_rs2, F_rd]"
| "rv32i_insn_attr rv_insn_slt = attr False 4 True [F_rs1, F_rs2, F_rd]"
| "rv32i_insn_attr rv_insn_sltu = attr False 4 True [F_rs1, F_rs2, F_rd]"
| "rv32i_insn_attr rv_insn_xor = attr False 4 True [F_rs1, F_rs2, F_rd]"
| "rv32i_insn_attr rv_insn_srl = attr False 4 True [F_rs1, F_rs2, F_rd]"
| "rv32i_insn_attr rv_insn_sra = attr False 4 True [F_rs1, F_rs2, F_rd]"
| "rv32i_insn_attr rv_insn_or = attr False 4 True [F_rs1, F_rs2, F_rd]"
| "rv32i_insn_attr rv_insn_and = attr False 4 True [F_rs1, F_rs2, F_rd]"
| "rv32i_insn_attr rv_insn_fence = attr True 4 False [F_rs1, F_rd]"
| "rv32i_insn_attr rv_insn_ecall = attr True 4 True [F_rs1, F_rd]"
| "rv32i_insn_attr rv_insn_ebreak = attr True 4 True [F_rs1, F_rd]"

primrec rvpriv_insn_attr :: "rvpriv_insn \<Rightarrow> insn_attr" where
  "rvpriv_insn_attr rv_insn_wfi = attr False 4 False [F_rs1, F_rd]"
| "rvpriv_insn_attr rv_insn_uret = attr False 4 False [F_rs1, F_rd]"
| "rvpriv_insn_attr rv_insn_sret = attr True 4 False [F_rs1, F_rd]"
| "rvpriv_insn_attr rv_insn_hret = attr False 4 False [F_rs1, F_rd]"
| "rvpriv_insn_attr rv_insn_mret = attr True 4 False [F_rs1, F_rd]"
| "rvpriv_insn_attr rv_insn_sfencevma = attr True 4 False [F_rs1, F_rs2, F_rd]"

primrec rvzifencei_insn_attr :: "rvzifencei_insn \<Rightarrow> insn_attr" where
  "rvzifencei_insn_attr rv_insn_fencei = attr True 4 False [F_rs1, F_rd]"

primrec rvzicsr_insn_attr :: "rvzicsr_insn \<Rightarrow> insn_attr" where
  "rvzicsr_insn_attr rv_insn_csrrw = attr True 4 False [F_rs1, F_rd]"
| "rvzicsr_insn_attr rv_insn_csrrs = attr False 4 False [F_rs1, F_rd]"
| "rvzicsr_insn_attr rv_insn_csrrc = attr False 4 False [F_rs1, F_rd]"
| "rvzicsr_insn_attr rv_insn_csrrwi = attr False 4 False [F_rs1, F_rd]"
| "rvzicsr_insn_attr rv_insn_csrrsi = attr False 4 False [F_rs1, F_rd]"
| "rvzicsr_insn_attr rv_insn_csrrci = attr False 4 False [F_rs1, F_rd]"

primrec rvzba_insn_attr :: "rvzba_insn \<Rightarrow> insn_attr" where
  "rvzba_insn_attr rv_insn_sh1add = attr False 4 False [F_rs1, F_rs2, F_rd]"
| "rvzba_insn_attr rv_insn_sh2add = attr False 4 False [F_rs1, F_rs2, F_rd]"
| "rvzba_insn_attr rv_insn_sh3add = attr False 4 False [F_rs1, F_rs2, F_rd]"

primrec rvzbb_insn_attr :: "rvzbb_insn \<Rightarrow> insn_attr" where
  "rvzbb_insn_attr rv_insn_andn = attr False 4 False [F_rs1, F_rs2, F_rd]"
| "rvzbb_insn_attr rv_insn_orn = attr False 4 False [F_rs1, F_rs2, F_rd]"
| "rvzbb_insn_attr rv_insn_xnor = attr False 4 False [F_rs1, F_rs2, F_rd]"
| "rvzbb_insn_attr rv_insn_clz = attr False 4 False [F_rs1, F_rd]"
| "rvzbb_insn_attr rv_insn_ctz = attr False 4 False [F_rs1, F_rd]"
| "rvzbb_insn_attr rv_insn_cpop = attr False 4 False [F_rs1, F_rd]"
| "rvzbb_insn_attr rv_insn_max = attr False 4 False [F_rs1, F_rs2, F_rd]"
| "rvzbb_insn_attr rv_insn_maxu = attr False 4 False [F_rs1, F_rs2, F_rd]"
| "rvzbb_insn_attr rv_insn_min = attr False 4 False [F_rs1, F_rs2, F_rd]"
| "rvzbb_insn_attr rv_insn_minu = attr False 4 False [F_rs1, F_rs2, F_rd]"
| "rvzbb_insn_attr rv_insn_sextb = attr False 4 False [F_rs1, F_rd]"
| "rvzbb_insn_attr rv_insn_sexth = attr False 4 False [F_rs1, F_rd]"
| "rvzbb_insn_attr rv_insn_zexth = attr False 4 False [F_rs1, F_rd]"
| "rvzbb_insn_attr rv_insn_rol = attr False 4 False [F_rs1, F_rs2, F_rd]"
| "rvzbb_insn_attr rv_insn_ror = attr False 4 False [F_rs1, F_rs2, F_rd]"
| "rvzbb_insn_attr rv_insn_rori = attr False 4 False [F_rs1, F_rd]"
| "rvzbb_insn_attr rv_insn_orcb = attr False 4 False [F_rs1, F_rd]"
| "rvzbb_insn_attr rv_insn_rev8 = attr False 4 False [F_rs1, F_rd]"

primrec rvzbc_insn_attr :: "rvzbc_insn \<Rightarrow> insn_attr" where
  "rvzbc_insn_attr rv_insn_clmul = attr False 4 False [F_rs1, F_rs2, F_rd]"
| "rvzbc_insn_attr rv_insn_clmulh = attr False 4 False [F_rs1, F_rs2, F_rd]"
| "rvzbc_insn_attr rv_insn_clmulr = attr False 4 False [F_rs1, F_rs2, F_rd]"

primrec rvzbs_insn_attr :: "rvzbs_insn \<Rightarrow> insn_attr" where
  "rvzbs_insn_attr rv_insn_bclr = attr False 4 False [F_rs1, F_rs2, F_rd]"
| "rvzbs_insn_attr rv_insn_bclri = attr False 4 False [F_rs1, F_rs2, F_rd]"
| "rvzbs_insn_attr rv_insn_bext = attr False 4 False [F_rs1, F_rs2, F_rd]"
| "rvzbs_insn_attr rv_insn_bexti = attr False 4 False [F_rs1, F_rs2, F_rd]"
| "rvzbs_insn_attr rv_insn_binv = attr False 4 False [F_rs1, F_rs2, F_rd]"
| "rvzbs_insn_attr rv_insn_binvi = attr False 4 False [F_rs1, F_rs2, F_rd]"
| "rvzbs_insn_attr rv_insn_bset = attr False 4 False [F_rs1, F_rs2, F_rd]"
| "rvzbs_insn_attr rv_insn_bseti = attr False 4 False [F_rs1, F_rs2, F_rd]"

primrec rv32m_insn_attr :: "rv32m_insn \<Rightarrow> insn_attr" where
  "rv32m_insn_attr rv_insn_mul = attr False 4 True [F_rs1, F_rs2, F_rd]"
| "rv32m_insn_attr rv_insn_mulh = attr False 4 True [F_rs1, F_rs2, F_rd]"
| "rv32m_insn_attr rv_insn_mulhsu = attr False 4 True [F_rs1, F_rs2, F_rd]"
| "rv32m_insn_attr rv_insn_mulhu = attr False 4 True [F_rs1, F_rs2, F_rd]"
| "rv32m_insn_attr rv_insn_div = attr False 4 True [F_rs1, F_rs2, F_rd]"
| "rv32m_insn_attr rv_insn_divu = attr False 4 True [F_rs1, F_rs2, F_rd]"
| "rv32m_insn_attr rv_insn_rem = attr False 4 True [F_rs1, F_rs2, F_rd]"
| "rv32m_insn_attr rv_insn_remu = attr False 4 True [F_rs1, F_rs2, F_rd]"

primrec rv32a_insn_attr :: "rv32a_insn \<Rightarrow> insn_attr" where
  "rv32a_insn_attr rv_insn_lrw = attr False 4 False [F_rs1, F_rs2, F_rd]"
| "rv32a_insn_attr rv_insn_scw = attr False 4 False [F_rs1, F_rs2, F_rd]"
| "rv32a_insn_attr rv_insn_amoswapw = attr False 4 False [F_rs1, F_rs2, F_rd]"
| "rv32a_insn_attr rv_insn_amoaddw = attr False 4 False [F_rs1, F_rs2, F_rd]"
| "rv32a_insn_attr rv_insn_amoxorw = attr False 4 False [F_rs1, F_rs2, F_rd]"
| "rv32a_insn_attr rv_insn_amoandw = attr False 4 False [F_rs1, F_rs2, F_rd]"
| "rv32a_insn_attr rv_insn_amoorw = attr False 4 False [F_rs1, F_rs2, F_rd]"
| "rv32a_insn_attr rv_insn_amominw = attr False 4 False [F_rs1, F_rs2, F_rd]"
| "rv32a_insn_attr rv_insn_amomaxw = attr False 4 False [F_rs1, F_rs2, F_rd]"
| "rv32a_insn_attr rv_insn_amominuw = attr False 4 False [F_rs1, F_rs2, F_rd]"
| "rv32a_insn_attr rv_insn_amomaxuw = attr False 4 False [F_rs1, F_rs2, F_rd]"

primrec rv32f_insn_attr :: "rv32f_insn \<Rightarrow> insn_attr" where
  "rv32f_insn_attr rv_insn_flw = attr False 4 False [F_rs1, F_rd]"
| "rv32f_insn_attr rv_insn_fsw = attr False 4 False [F_rs1, F_rs2]"
| "rv32f_insn_attr rv_insn_fmadds = attr False 4 False [F_rs1, F_rs2, F_rs3, F_rd]"
| "rv32f_insn_attr rv_insn_fmsubs = attr False 4 False [F_rs1, F_rs2, F_rs3, F_rd]"
| "rv32f_insn_attr rv_insn_fnmsubs = attr False 4 False [F_rs1, F_rs2, F_rs3, F_rd]"
| "rv32f_insn_attr rv_insn_fnmadds = attr False 4 False [F_rs1, F_rs2, F_rs3, F_rd]"
| "rv32f_insn_attr rv_insn_fadds = attr False 4 False [F_rs1, F_rs2, F_rd]"
| "rv32f_insn_attr rv_insn_fsubs = attr False 4 False [F_rs1, F_rs2, F_rd]"
| "rv32f_insn_attr rv_insn_fmuls = attr False 4 False [F_rs1, F_rs2, F_rd]"
| "rv32f_insn_attr rv_insn_fdivs = attr False 4 False [F_rs1, F_rs2, F_rd]"
| "rv32f_insn_attr rv_insn_fsqrts = attr False 4 False [F_rs1, F_rs2, F_rd]"
| "rv32f_insn_attr rv_insn_fsgnjs = attr False 4 False [F_rs1, F_rs2, F_rd]"
| "rv32f_insn_attr rv_insn_fsgnjns = attr False 4 False [F_rs1, F_rs2, F_rd]"
| "rv32f_insn_attr rv_insn_fsgnjxs = attr False 4 False [F_rs1, F_rs2, F_rd]"
| "rv32f_insn_attr rv_insn_fmins = attr False 4 False [F_rs1, F_rs2, F_rd]"
| "rv32f_insn_attr rv_insn_fmaxs = attr False 4 False [F_rs1, F_rs2, F_rd]"
| "rv32f_insn_attr rv_insn_fcvtws = attr False 4 False [F_rs1, F_rs2, F_rd]"
| "rv32f_insn_attr rv_insn_fcvtwus = attr False 4 False [F_rs1, F_rs2, F_rd]"
| "rv32f_insn_attr rv_insn_fmvxw = attr False 4 False [F_rs1, F_rs2, F_rd]"
| "rv32f_insn_attr rv_insn_feqs = attr False 4 False [F_rs1, F_rs2, F_rd]"
| "rv32f_insn_attr rv_insn_flts = attr False 4 False [F_rs1, F_rs2, F_rd]"
| "rv32f_insn_attr rv_insn_fles = attr False 4 False [F_rs1, F_rs2, F_rd]"
| "rv32f_insn_attr rv_insn_fclasss = attr False 4 False [F_rs1, F_rs2, F_rd]"
| "rv32f_insn_attr rv_insn_fcvtsw = attr False 4 False [F_rs1, F_rs2, F_rd]"
| "rv32f_insn_attr rv_insn_fcvtswu = attr False 4 False [F_rs1, F_rs2, F_rd]"
| "rv32f_insn_attr rv_insn_fmvwx = attr False 4 False [F_rs1, F_rs2, F_rd]"

primrec rv32c_insn_attr :: "rv32c_insn \<Rightarrow> insn_attr" where
  "rv32c_insn_attr rv_insn_caddi4spn = attr False 2 True [F_rd]"
| "rv32c_insn_attr rv_insn_clw = attr False 2 True [F_rs1, F_rd]"
| "rv32c_insn_attr rv_insn_csw = attr False 2 True [F_rs1, F_rs2]"
| "rv32c_insn_attr rv_insn_cnop = attr False 2 True []"
| "rv32c_insn_attr rv_insn_caddi = attr False 2 True [F_rd]"
| "rv32c_insn_attr rv_insn_cjal = attr True 2 True []"
| "rv32c_insn_attr rv_insn_cli = attr False 2 True [F_rd]"
| "rv32c_insn_attr rv_insn_caddi16sp = attr False 2 True []"
| "rv32c_insn_attr rv_insn_clui = attr False 2 True [F_rd]"
| "rv32c_insn_attr rv_insn_csrli = attr False 2 True [F_rs1]"
| "rv32c_insn_attr rv_insn_csrai = attr False 2 True [F_rs1]"
| "rv32c_insn_attr rv_insn_candi = attr False 2 True [F_rs1]"
| "rv32c_insn_attr rv_insn_csub = attr False 2 True [F_rs1, F_rs2, F_rd]"
| "rv32c_insn_attr rv_insn_cxor = attr False 2 True [F_rs1, F_rs2, F_rd]"
| "rv32c_insn_attr rv_insn_cor = attr False 2 True [F_rs1, F_rs2, F_rd]"
| "rv32c_insn_attr rv_insn_cand = attr False 2 True [F_rs1, F_rs2, F_rd]"
| "rv32c_insn_attr rv_insn_cj = attr True 2 True []"
| "rv32c_insn_attr rv_insn_cbeqz = attr True 2 True [F_rs1]"
| "rv32c_insn_attr rv_insn_cbnez = attr True 2 True [F_rs1]"
| "rv32c_insn_attr rv_insn_cslli = attr False 2 True [F_rd]"
| "rv32c_insn_attr rv_insn_clwsp = attr False 2 True [F_rd]"
| "rv32c_insn_attr rv_insn_cjr = attr True 2 True [F_rs1, F_rs2, F_rd]"
| "rv32c_insn_attr rv_insn_cmv = attr False 2 True [F_rs1, F_rs2, F_rd]"
| "rv32c_insn_attr rv_insn_cebreak = attr True 2 True [F_rs1, F_rs2, F_rd]"
| "rv32c_insn_attr rv_insn_cjalr = attr True 2 True [F_rs1, F_rs2, F_rd]"
| "rv32c_insn_attr rv_insn_cadd = attr False 2 True [F_rs1, F_rs2, F_rd]"
| "rv32c_insn_attr rv_insn_cswsp = attr False 2 True [F_rs2]"

primrec rv32fc_insn_attr :: "rv32fc_insn \<Rightarrow> insn_attr" where
  "rv32fc_insn_attr rv_insn_cflwsp = attr False 2 True [F_rd]"
| "rv32fc_insn_attr rv_insn_cfswsp = attr False 2 True [F_rs2]"
| "rv32fc_insn_attr rv_insn_cflw = attr False 2 True [F_rs1, F_rd]"
| "rv32fc_insn_attr rv_insn_cfsw = attr False 2 True [F_rs1, F_rs2]"

text \<open>
  The lookups generated from the table. A fused operation has no row in
  \<^verbatim>\<open>RV_INSN_LIST\<close>; the switches of \<^verbatim>\<open>insn_is_branch\<close> and
  \<^verbatim>\<open>insn_is_translatable\<close> do not list it, so they answer false.
\<close>

fun insn_attr_of :: "opcode \<Rightarrow> insn_attr option" where
  "insn_attr_of (RV32I i) = Some (rv32i_insn_attr i)"
| "insn_attr_of (RVPriv i) = Some (rvpriv_insn_attr i)"
| "insn_attr_of (RVZifencei i) = Some (rvzifencei_insn_attr i)"
| "insn_attr_of (RVZicsr i) = Some (rvzicsr_insn_attr i)"
| "insn_attr_of (RVZba i) = Some (rvzba_insn_attr i)"
| "insn_attr_of (RVZbb i) = Some (rvzbb_insn_attr i)"
| "insn_attr_of (RVZbc i) = Some (rvzbc_insn_attr i)"
| "insn_attr_of (RVZbs i) = Some (rvzbs_insn_attr i)"
| "insn_attr_of (RV32M i) = Some (rv32m_insn_attr i)"
| "insn_attr_of (RV32A i) = Some (rv32a_insn_attr i)"
| "insn_attr_of (RV32F i) = Some (rv32f_insn_attr i)"
| "insn_attr_of (RV32C i) = Some (rv32c_insn_attr i)"
| "insn_attr_of (RV32FC i) = Some (rv32fc_insn_attr i)"
| "insn_attr_of (Fuse i) = None"

definition insn_is_branch :: "opcode \<Rightarrow> bool" where
  "insn_is_branch op = (case insn_attr_of op of Some a \<Rightarrow> attr_can_branch a | None \<Rightarrow> False)"

definition insn_is_translatable :: "opcode \<Rightarrow> bool" where
  "insn_is_translatable op = (case insn_attr_of op of Some a \<Rightarrow> attr_translatable a | None \<Rightarrow> False)"

definition insn_is_unconditional_branch :: "opcode \<Rightarrow> bool" where
  "insn_is_unconditional_branch op = (case op of
      RV32I i \<Rightarrow> i \<in> {rv_insn_ecall, rv_insn_ebreak, rv_insn_jal, rv_insn_jalr}
    | RVPriv i \<Rightarrow> i \<in> {rv_insn_mret, rv_insn_sret}
    | RVZicsr i \<Rightarrow> i = rv_insn_csrrw
    | RV32C i \<Rightarrow> i \<in> {rv_insn_cj, rv_insn_cjalr, rv_insn_cjal, rv_insn_cjr, rv_insn_cebreak}
    | _ \<Rightarrow> False)"

definition insn_is_direct_branch :: "opcode \<Rightarrow> bool" where
  "insn_is_direct_branch op =
     (op \<in> {RV32I rv_insn_jal, RV32C rv_insn_cjal, RV32C rv_insn_cj})"

definition insn_is_indirect_branch :: "opcode \<Rightarrow> bool" where
  "insn_is_indirect_branch op =
     (op \<in> {RV32I rv_insn_jalr, RV32C rv_insn_cjalr, RV32C rv_insn_cjr})"

section \<open>Build configuration and register numbers\<close>

text \<open>
  The feature macros that select code of the decoder (\<^verbatim>\<open>feature.h\<close>), and the
  configuration the repository builds by default.
\<close>

record features =
  EXT_M :: bool
  EXT_A :: bool
  EXT_F :: bool
  EXT_C :: bool
  Zicsr :: bool
  Zifencei :: bool
  Zba :: bool
  Zbb :: bool
  Zbc :: bool
  Zbs :: bool
  RV32E :: bool
  SYSTEM :: bool

definition default_features :: features where
  "default_features = \<lparr>EXT_M = True, EXT_A = True, EXT_F = True, EXT_C = True, Zicsr = True,
     Zifencei = True, Zba = True, Zbb = True, Zbc = True, Zbs = True, RV32E = False,
     SYSTEM = False\<rparr>"

abbreviation rv_reg_zero :: u8 where "rv_reg_zero \<equiv> 0"
abbreviation rv_reg_ra :: u8 where "rv_reg_ra \<equiv> 1"
abbreviation rv_reg_sp :: u8 where "rv_reg_sp \<equiv> 2"
abbreviation rv_reg_t0 :: u8 where "rv_reg_t0 \<equiv> 5"
abbreviation rv_reg_a0 :: u8 where "rv_reg_a0 \<equiv> 10"
abbreviation rv_reg_a7 :: u8 where "rv_reg_a7 \<equiv> 17"

section \<open>The intermediate representation\<close>

text \<open>
  \<^verbatim>\<open>opcode_fuse_t\<close> and \<^verbatim>\<open>rv_insn_t\<close>. The \<^verbatim>\<open>next\<close> pointers
  of a block are the order of a list; \<^verbatim>\<open>impl\<close> is a function of the opcode. The chaining
  pointers hold the \<^verbatim>\<open>pc\<close> of the IR they point to. The member
  \<^verbatim>\<open>rs3\<close> shares the storage of \<^verbatim>\<open>imm\<close>: it is the low byte.
\<close>

record opcode_fuse =
  fuse_imm :: u32
  fuse_rd :: u8
  fuse_rs1 :: u8
  fuse_rs2 :: u8
  fuse_opcode :: opcode

record rv_insn =
  ir_imm :: u32
  ir_rd :: u8
  ir_rs1 :: u8
  ir_rs2 :: u8
  ir_opcode :: opcode
  ir_shamt :: u8
  ir_rm :: u8
  ir_imm2 :: u32
  ir_fuse :: "opcode_fuse list"
  ir_pc :: u32
  ir_branch_taken :: "u32 option"
  ir_branch_untaken :: "u32 option"

definition ir_rs3 :: "rv_insn \<Rightarrow> u8" where
  "ir_rs3 ir = ucast (ir_imm ir)"

definition set_rs3 :: "u8 \<Rightarrow> rv_insn \<Rightarrow> rv_insn" where
  "set_rs3 r ir = ir\<lparr>ir_imm := (ir_imm ir AND 0xFFFFFF00) OR ucast r\<rparr>"

text \<open>A freshly allocated IR: \<^verbatim>\<open>mpool_calloc\<close> zeroes it, and opcode 0 is
  \<^verbatim>\<open>rv_insn_nop\<close>.\<close>

definition ir_calloc :: rv_insn where
  "ir_calloc = \<lparr>ir_imm = 0, ir_rd = 0, ir_rs1 = 0, ir_rs2 = 0, ir_opcode = RV32I rv_insn_nop,
     ir_shamt = 0, ir_rm = 0, ir_imm2 = 0, ir_fuse = [], ir_pc = 0, ir_branch_taken = None,
     ir_branch_untaken = None\<rparr>"

lemma rs3_of_set_rs3 [simp]: "ir_rs3 (set_rs3 r ir) = r"
  unfolding ir_rs3_def set_rs3_def
  by (rule word_eq_bits) (simp add: upt_rec bit_simps)

end
