(* ===== verification/RV_Decode.thy ===== *)
theory RV_Decode
  imports RV_Insn
begin

text \<open>
  The instruction decoder, \<^verbatim>\<open>decode.c\<close>: the field and immediate decoders, one function
  per major opcode, and the dispatch of \<^verbatim>\<open>rv_decode\<close> through its two jump tables. A decoder
  function receives the IR to fill in and returns it together with its verdict: the C result
  \<^verbatim>\<open>true\<close>, the result \<^verbatim>\<open>false\<close> (illegal instruction), or the failed
  assertion that ends the process.
\<close>

section \<open>Field decoders\<close>

definition FR_RD :: u32 where "FR_RD = 0x00000F80"
definition FR_FUNCT3 :: u32 where "FR_FUNCT3 = 0x00007000"
definition FR_RS1 :: u32 where "FR_RS1 = 0x000F8000"
definition FR_RS2 :: u32 where "FR_RS2 = 0x01F00000"
definition FR_FUNCT7 :: u32 where "FR_FUNCT7 = 0xFE000000"
definition FI_IMM_11_0 :: u32 where "FI_IMM_11_0 = 0xFFF00000"
definition FS_IMM_4_0 :: u32 where "FS_IMM_4_0 = 0x00000F80"
definition FS_IMM_11_5 :: u32 where "FS_IMM_11_5 = 0xFE000000"
definition FB_IMM_11 :: u32 where "FB_IMM_11 = 0x00000080"
definition FB_IMM_4_1 :: u32 where "FB_IMM_4_1 = 0x00000F00"
definition FB_IMM_10_5 :: u32 where "FB_IMM_10_5 = 0x7E000000"
definition FB_IMM_12 :: u32 where "FB_IMM_12 = 0x80000000"
definition FU_IMM_31_12 :: u32 where "FU_IMM_31_12 = 0xFFFFF000"
definition FJ_IMM_19_12 :: u32 where "FJ_IMM_19_12 = 0x000FF000"
definition FJ_IMM_11 :: u32 where "FJ_IMM_11 = 0x00100000"
definition FJ_IMM_10_1 :: u32 where "FJ_IMM_10_1 = 0x7FE00000"
definition FJ_IMM_20 :: u32 where "FJ_IMM_20 = 0x80000000"
definition FR4_RS3 :: u32 where "FR4_RS3 = 0xF8000000"
definition FC_OPCODE :: u32 where "FC_OPCODE = 0x0003"
definition FC_FUNC3 :: u32 where "FC_FUNC3 = 0xE000"
definition FC_RS1C :: u16 where "FC_RS1C = 0x0380"
definition FC_RS2C :: u16 where "FC_RS2C = 0x001C"
definition FC_RS1 :: u16 where "FC_RS1 = 0x0F80"
definition FC_RS2 :: u16 where "FC_RS2 = 0x007C"
definition FC_RDC :: u16 where "FC_RDC = 0x001C"
definition FC_RD :: u16 where "FC_RD = 0x0F80"
definition FC_IMM_12_10 :: u32 where "FC_IMM_12_10 = 0x1C00"
definition FCI_IMM_12 :: u32 where "FCI_IMM_12 = 0x1000"
definition FCI_IMM_6_2 :: u32 where "FCI_IMM_6_2 = 0x007C"
definition INSN_6_2 :: u32 where "INSN_6_2 = 0x0000007C"

lemmas mask_defs [decode_defs] = FR_RD_def FR_FUNCT3_def FR_RS1_def FR_RS2_def FR_FUNCT7_def
  FI_IMM_11_0_def FS_IMM_4_0_def FS_IMM_11_5_def FB_IMM_11_def FB_IMM_4_1_def FB_IMM_10_5_def
  FB_IMM_12_def FU_IMM_31_12_def FJ_IMM_19_12_def FJ_IMM_11_def FJ_IMM_10_1_def FJ_IMM_20_def
  FR4_RS3_def FC_OPCODE_def FC_FUNC3_def FC_RS1C_def FC_RS2C_def FC_RS1_def FC_RS2_def FC_RDC_def
  FC_RD_def FC_IMM_12_10_def FCI_IMM_12_def FCI_IMM_6_2_def INSN_6_2_def

definition decode_rd :: "u32 \<Rightarrow> u32" where
  "decode_rd insn = drop_bit 7 (insn AND FR_RD)"

definition decode_rs1 :: "u32 \<Rightarrow> u32" where
  "decode_rs1 insn = drop_bit 15 (insn AND FR_RS1)"

definition decode_rs2 :: "u32 \<Rightarrow> u32" where
  "decode_rs2 insn = drop_bit 20 (insn AND FR_RS2)"

definition decode_funct3 :: "u32 \<Rightarrow> u32" where
  "decode_funct3 insn = drop_bit 12 (insn AND FR_FUNCT3)"

definition decode_funct7 :: "u32 \<Rightarrow> u32" where
  "decode_funct7 insn = drop_bit 25 (insn AND FR_FUNCT7)"

definition decode_utype_imm :: "u32 \<Rightarrow> u32" where
  "decode_utype_imm insn = insn AND FU_IMM_31_12"

definition decode_jtype_imm :: "u32 \<Rightarrow> u32" where
  "decode_jtype_imm insn =
     (let dst = 0;
          dst = dst OR (insn AND FJ_IMM_20);
          dst = dst OR push_bit 11 (insn AND FJ_IMM_19_12);
          dst = dst OR push_bit 2 (insn AND FJ_IMM_11);
          dst = dst OR drop_bit 9 (insn AND FJ_IMM_10_1)
      in sar 11 dst)"

definition decode_itype_imm :: "u32 \<Rightarrow> u32" where
  "decode_itype_imm insn = sar 20 (insn AND FI_IMM_11_0)"

definition decode_btype_imm :: "u32 \<Rightarrow> u32" where
  "decode_btype_imm insn =
     (let dst = 0;
          dst = dst OR (insn AND FB_IMM_12);
          dst = dst OR push_bit 23 (insn AND FB_IMM_11);
          dst = dst OR drop_bit 1 (insn AND FB_IMM_10_5);
          dst = dst OR push_bit 12 (insn AND FB_IMM_4_1)
      in sar 19 dst)"

definition decode_stype_imm :: "u32 \<Rightarrow> u32" where
  "decode_stype_imm insn =
     (let dst = 0;
          dst = dst OR (insn AND FS_IMM_11_5);
          dst = dst OR push_bit 13 (insn AND FS_IMM_4_0)
      in sar 20 dst)"

definition decode_r4type_rs3 :: "u32 \<Rightarrow> u32" where
  "decode_r4type_rs3 insn = drop_bit 27 (insn AND FR4_RS3)"

subsection \<open>Compressed instructions\<close>

text \<open>
  The arguments are \<^verbatim>\<open>uint16_t\<close>. The C operands are promoted to
  \<^verbatim>\<open>int\<close>; a left shift whose result is stored back into a
  \<^verbatim>\<open>uint16_t\<close> keeps only the low 16 bits, as it does on 16-bit words.
\<close>

definition c_decode_rs1 :: "u16 \<Rightarrow> u16" where
  "c_decode_rs1 insn = drop_bit 7 (insn AND FC_RS1)"

definition c_decode_rs2 :: "u16 \<Rightarrow> u16" where
  "c_decode_rs2 insn = drop_bit 2 (insn AND FC_RS2)"

definition c_decode_rd :: "u16 \<Rightarrow> u16" where
  "c_decode_rd insn = drop_bit 7 (insn AND FC_RD)"

definition c_decode_rs1c :: "u16 \<Rightarrow> u16" where
  "c_decode_rs1c insn = drop_bit 7 (insn AND FC_RS1C)"

definition c_decode_rs2c :: "u16 \<Rightarrow> u16" where
  "c_decode_rs2c insn = drop_bit 2 (insn AND FC_RS2C)"

definition c_decode_rdc :: "u16 \<Rightarrow> u16" where
  "c_decode_rdc insn = drop_bit 2 (insn AND FC_RDC)"

definition c_decode_caddi4spn_nzuimm :: "u16 \<Rightarrow> u16" where
  "c_decode_caddi4spn_nzuimm insn =
     (let tmp = 0;
          tmp = tmp OR drop_bit 7 (insn AND 0x1800);
          tmp = tmp OR drop_bit 1 (insn AND 0x780);
          tmp = tmp OR drop_bit 4 (insn AND 0x40);
          tmp = tmp OR drop_bit 2 (insn AND 0x20)
      in tmp)"

definition c_decode_caddi16sp_nzimm :: "u16 \<Rightarrow> u32" where
  "c_decode_caddi16sp_nzimm insn16 =
     (let insn = ucast insn16 :: u32;
          tmp = drop_bit 3 (insn AND 0x1000);
          tmp = tmp OR drop_bit 2 (insn AND 0x40);
          tmp = tmp OR push_bit 1 (insn AND 0x20);
          tmp = tmp OR push_bit 4 (insn AND 0x18);
          tmp = tmp OR push_bit 3 (insn AND 0x4)
      in if tmp AND 0x200 \<noteq> 0 then 0xFFFFFC00 OR tmp else tmp)"

definition c_decode_clui_nzimm :: "u16 \<Rightarrow> u32" where
  "c_decode_clui_nzimm insn16 =
     (let insn = ucast insn16 :: u32;
          tmp = push_bit 5 (insn AND 0x1000) OR push_bit 10 (insn AND 0x7C)
      in if tmp AND 0x20000 \<noteq> 0 then 0xFFFC0000 OR tmp else tmp)"

definition c_decode_caddi_imm :: "u16 \<Rightarrow> u32" where
  "c_decode_caddi_imm insn =
     (let mask = push_bit 3 (0x1000 AND insn) :: u16;
          tmp = for_loop 0 11 (\<lambda>i tmp. tmp OR drop_bit i (ucast mask :: u32)) 0;
          tmp = tmp OR drop_bit 2 (ucast insn AND 0x007C)
      in sign_extend_h tmp)"

definition c_decode_citype_imm :: "u16 \<Rightarrow> u32" where
  "c_decode_citype_imm insn16 =
     (let insn = ucast insn16 :: u32;
          tmp = drop_bit 7 (insn AND FCI_IMM_12) OR drop_bit 2 (insn AND FCI_IMM_6_2)
      in if tmp AND 0x20 \<noteq> 0 then 0xFFFFFFC0 OR tmp else tmp)"

definition c_decode_cjtype_imm :: "u16 \<Rightarrow> u32" where
  "c_decode_cjtype_imm insn =
     (let tmp = 0 :: u16;
          tmp = tmp OR drop_bit 2 (insn AND 0x0038);
          tmp = tmp OR drop_bit 7 (insn AND 0x0800);
          tmp = tmp OR push_bit 3 (insn AND 0x0004);
          tmp = tmp OR drop_bit 1 (insn AND 0x0080);
          tmp = tmp OR push_bit 1 (insn AND 0x0040);
          tmp = tmp OR drop_bit 1 (insn AND 0x0600);
          tmp = tmp OR push_bit 2 (insn AND 0x0100);
          tmp = tmp OR drop_bit 1 (insn AND 0x1000);
          tmp = for_loop 1 5 (\<lambda>i tmp. tmp OR push_bit i (0x0800 AND tmp)) tmp
      in scast tmp)"

definition c_decode_cbtype_shamt :: "u16 \<Rightarrow> u8" where
  "c_decode_cbtype_shamt insn =
     (let tmp = 0 :: u8;
          tmp = tmp OR ucast (drop_bit 7 (insn AND 0x1000));
          tmp = tmp OR ucast (drop_bit 2 (insn AND 0x007C))
      in tmp)"

definition c_decode_cbtype_imm :: "u16 \<Rightarrow> u16" where
  "c_decode_cbtype_imm insn =
     (let tmp = 0;
          tmp = tmp OR drop_bit 2 (insn AND 0x0018);
          tmp = tmp OR drop_bit 7 (insn AND 0x0C00);
          tmp = tmp OR push_bit 3 (insn AND 0x0004);
          tmp = tmp OR push_bit 1 (insn AND 0x0060);
          tmp = tmp OR drop_bit 4 (insn AND 0x1000)
      in for_loop 1 9 (\<lambda>i tmp. tmp OR push_bit i (0x0100 AND tmp)) tmp)"

lemmas field_defs [decode_defs] = decode_rd_def decode_rs1_def decode_rs2_def decode_funct3_def
  decode_funct7_def decode_utype_imm_def decode_jtype_imm_def decode_itype_imm_def
  decode_btype_imm_def decode_stype_imm_def decode_r4type_rs3_def

lemmas c_field_defs [decode_defs] = c_decode_rs1_def c_decode_rs2_def c_decode_rd_def
  c_decode_rs1c_def c_decode_rs2c_def c_decode_rdc_def c_decode_caddi4spn_nzuimm_def
  c_decode_caddi16sp_nzimm_def c_decode_clui_nzimm_def c_decode_caddi_imm_def
  c_decode_citype_imm_def c_decode_cjtype_imm_def c_decode_cbtype_shamt_def
  c_decode_cbtype_imm_def

section \<open>Instruction formats\<close>

definition decode_itype :: "rv_insn \<Rightarrow> u32 \<Rightarrow> rv_insn" where
  "decode_itype ir insn = ir\<lparr>ir_imm := decode_itype_imm insn,
     ir_rs1 := ucast (decode_rs1 insn), ir_rd := ucast (decode_rd insn)\<rparr>"

definition decode_utype :: "rv_insn \<Rightarrow> u32 \<Rightarrow> rv_insn" where
  "decode_utype ir insn = ir\<lparr>ir_imm := decode_utype_imm insn, ir_rd := ucast (decode_rd insn)\<rparr>"

definition decode_stype :: "rv_insn \<Rightarrow> u32 \<Rightarrow> rv_insn" where
  "decode_stype ir insn = ir\<lparr>ir_imm := decode_stype_imm insn,
     ir_rs2 := ucast (decode_rs2 insn), ir_rs1 := ucast (decode_rs1 insn)\<rparr>"

definition decode_rtype :: "rv_insn \<Rightarrow> u32 \<Rightarrow> rv_insn" where
  "decode_rtype ir insn = ir\<lparr>ir_rs2 := ucast (decode_rs2 insn),
     ir_rs1 := ucast (decode_rs1 insn), ir_rd := ucast (decode_rd insn)\<rparr>"

definition decode_btype :: "rv_insn \<Rightarrow> u32 \<Rightarrow> rv_insn" where
  "decode_btype ir insn = ir\<lparr>ir_imm := decode_btype_imm insn,
     ir_rs2 := ucast (decode_rs2 insn), ir_rs1 := ucast (decode_rs1 insn)\<rparr>"

definition decode_jtype :: "rv_insn \<Rightarrow> u32 \<Rightarrow> rv_insn" where
  "decode_jtype ir insn = ir\<lparr>ir_imm := decode_jtype_imm insn, ir_rd := ucast (decode_rd insn)\<rparr>"

definition decode_r4type :: "rv_insn \<Rightarrow> u32 \<Rightarrow> rv_insn" where
  "decode_r4type ir insn =
     (set_rs3 (ucast (decode_r4type_rs3 insn))
        (ir\<lparr>ir_rd := ucast (decode_rd insn), ir_rs1 := ucast (decode_rs1 insn),
            ir_rs2 := ucast (decode_rs2 insn)\<rparr>))\<lparr>ir_rm := ucast (decode_funct3 insn)\<rparr>"

lemmas format_defs [decode_defs] = decode_itype_def decode_utype_def decode_stype_def
  decode_rtype_def decode_btype_def decode_jtype_def decode_r4type_def

section \<open>Base opcodes\<close>

text \<open>
  The verdict of a decoder function. A \<^verbatim>\<open>switch\<close> whose cases each store an opcode and
  whose default returns false is a table lookup.
\<close>

datatype decode_result = Decoded rv_insn | Illegal rv_insn | Aborted

definition set_opcode :: "opcode \<Rightarrow> rv_insn \<Rightarrow> decode_result" where
  "set_opcode op ir = Decoded (ir\<lparr>ir_opcode := op\<rparr>)"

definition switch_opcode :: "('k \<times> opcode) list \<Rightarrow> 'k \<Rightarrow> rv_insn \<Rightarrow> decode_result" where
  "switch_opcode cases k ir =
     (case map_of cases k of Some op \<Rightarrow> set_opcode op ir | None \<Rightarrow> Illegal ir)"

definition op_load :: "rv_insn \<Rightarrow> u32 \<Rightarrow> decode_result" where
  "op_load ir insn = switch_opcode
     [(0, RV32I rv_insn_lb), (1, RV32I rv_insn_lh), (2, RV32I rv_insn_lw),
      (4, RV32I rv_insn_lbu), (5, RV32I rv_insn_lhu)]
     (decode_funct3 insn) (decode_itype ir insn)"

definition op_op_imm :: "features \<Rightarrow> rv_insn \<Rightarrow> u32 \<Rightarrow> decode_result" where
  "op_op_imm cfg ir0 insn =
    (let ir = decode_itype ir0 insn; imm = ir_imm ir; f3 = decode_funct3 insn in
     if ir_rd ir = rv_reg_zero then set_opcode (RV32I rv_insn_nop) ir
     else if f3 = 0 then set_opcode (RV32I rv_insn_addi) ir
     else if f3 = 1 then
       (if Zbb cfg \<and> imm = 0x600 then set_opcode (RVZbb rv_insn_clz) ir
        else if Zbb cfg \<and> imm = 0x601 then set_opcode (RVZbb rv_insn_ctz) ir
        else if Zbb cfg \<and> imm = 0x602 then set_opcode (RVZbb rv_insn_cpop) ir
        else if Zbb cfg \<and> imm = 0x604 then set_opcode (RVZbb rv_insn_sextb) ir
        else if Zbb cfg \<and> imm = 0x605 then set_opcode (RVZbb rv_insn_sexth) ir
        else if Zbs cfg \<and> sar 5 imm = 0x24 then set_opcode (RVZbs rv_insn_bclri) ir
        else if Zbs cfg \<and> sar 5 imm = 0x34 then set_opcode (RVZbs rv_insn_binvi) ir
        else if Zbs cfg \<and> sar 5 imm = 0x14 then set_opcode (RVZbs rv_insn_bseti) ir
        else if imm AND 0x20 \<noteq> 0 then Illegal (ir\<lparr>ir_opcode := RV32I rv_insn_slli\<rparr>)
        else set_opcode (RV32I rv_insn_slli) ir)
     else if f3 = 2 then set_opcode (RV32I rv_insn_slti) ir
     else if f3 = 3 then set_opcode (RV32I rv_insn_sltiu) ir
     else if f3 = 4 then set_opcode (RV32I rv_insn_xori) ir
     else if f3 = 5 then
       (if Zbb cfg \<and> sar 5 imm = 0x30 then set_opcode (RVZbb rv_insn_rori) ir
        else if Zbb cfg \<and> imm = 0x287 then set_opcode (RVZbb rv_insn_orcb) ir
        else if Zbb cfg \<and> imm = 0x698 then set_opcode (RVZbb rv_insn_rev8) ir
        else if Zbs cfg \<and> sar 5 imm = 0x24 then set_opcode (RVZbs rv_insn_bexti) ir
        else (let op = RV32I (if imm AND NOT 0x1F \<noteq> 0 then rv_insn_srai else rv_insn_srli) in
              if imm AND 0x20 \<noteq> 0 then Illegal (ir\<lparr>ir_opcode := op\<rparr>) else set_opcode op ir))
     else if f3 = 6 then set_opcode (RV32I rv_insn_ori) ir
     else if f3 = 7 then set_opcode (RV32I rv_insn_andi) ir
     else Illegal ir)"

definition op_auipc :: "rv_insn \<Rightarrow> u32 \<Rightarrow> decode_result" where
  "op_auipc ir0 insn =
    (let ir = decode_utype ir0 insn in
     if ir_rd ir = rv_reg_zero then set_opcode (RV32I rv_insn_nop) ir
     else set_opcode (RV32I rv_insn_auipc) ir)"

definition op_store :: "rv_insn \<Rightarrow> u32 \<Rightarrow> decode_result" where
  "op_store ir insn = switch_opcode
     [(0, RV32I rv_insn_sb), (1, RV32I rv_insn_sh), (2, RV32I rv_insn_sw)]
     (decode_funct3 insn) (decode_stype ir insn)"

definition op_op :: "features \<Rightarrow> rv_insn \<Rightarrow> u32 \<Rightarrow> decode_result" where
  "op_op cfg ir0 insn =
    (let ir = decode_rtype ir0 insn; f3 = decode_funct3 insn; f7 = decode_funct7 insn in
     if ir_rd ir = rv_reg_zero then set_opcode (RV32I rv_insn_nop) ir
     else if f7 = 0x00 then switch_opcode
       [(0, RV32I rv_insn_add), (1, RV32I rv_insn_sll), (2, RV32I rv_insn_slt),
        (3, RV32I rv_insn_sltu), (4, RV32I rv_insn_xor), (5, RV32I rv_insn_srl),
        (6, RV32I rv_insn_or), (7, RV32I rv_insn_and)] f3 ir
     else if EXT_M cfg \<and> f7 = 0x01 then switch_opcode
       [(0, RV32M rv_insn_mul), (1, RV32M rv_insn_mulh), (2, RV32M rv_insn_mulhsu),
        (3, RV32M rv_insn_mulhu), (4, RV32M rv_insn_div), (5, RV32M rv_insn_divu),
        (6, RV32M rv_insn_rem), (7, RV32M rv_insn_remu)] f3 ir
     else if Zba cfg \<and> f7 = 0x10 then switch_opcode
       [(2, RVZba rv_insn_sh1add), (4, RVZba rv_insn_sh2add), (6, RVZba rv_insn_sh3add)] f3 ir
     else if (Zbb cfg \<or> Zbc cfg) \<and> f7 = 0x05 then switch_opcode
       ((if Zbb cfg then [(6, RVZbb rv_insn_max), (4, RVZbb rv_insn_min), (7, RVZbb rv_insn_maxu),
                          (5, RVZbb rv_insn_minu)] else []) @
        (if Zbc cfg then [(1, RVZbc rv_insn_clmul), (3, RVZbc rv_insn_clmulh),
                          (2, RVZbc rv_insn_clmulr)] else [])) f3 ir
     else if Zbb cfg \<and> f7 = 0x30 then switch_opcode
       [(1, RVZbb rv_insn_rol), (5, RVZbb rv_insn_ror)] f3 ir
     else if Zbb cfg \<and> f7 = 0x04 then
       (if ir_rs2 ir \<noteq> 0 then Illegal ir else set_opcode (RVZbb rv_insn_zexth) ir)
     else if Zbs cfg \<and> f7 = 0x24 then switch_opcode
       [(1, RVZbs rv_insn_bclr), (5, RVZbs rv_insn_bext)] f3 ir
     else if Zbs cfg \<and> f7 = 0x34 then
       (if f3 \<noteq> 1 then Illegal ir else set_opcode (RVZbs rv_insn_binv) ir)
     else if Zbs cfg \<and> f7 = 0x14 then
       (if f3 \<noteq> 1 then Illegal ir else set_opcode (RVZbs rv_insn_bset) ir)
     else if f7 = 0x20 then switch_opcode
       ([(0, RV32I rv_insn_sub), (5, RV32I rv_insn_sra)] @
        (if Zbb cfg then [(7, RVZbb rv_insn_andn), (6, RVZbb rv_insn_orn),
                          (4, RVZbb rv_insn_xnor)] else [])) f3 ir
     else Illegal ir)"

definition op_lui :: "rv_insn \<Rightarrow> u32 \<Rightarrow> decode_result" where
  "op_lui ir0 insn =
    (let ir = decode_utype ir0 insn in
     if ir_rd ir = rv_reg_zero then set_opcode (RV32I rv_insn_nop) ir
     else set_opcode (RV32I rv_insn_lui) ir)"

definition op_branch :: "rv_insn \<Rightarrow> u32 \<Rightarrow> decode_result" where
  "op_branch ir insn = switch_opcode
     [(0, RV32I rv_insn_beq), (1, RV32I rv_insn_bne), (4, RV32I rv_insn_blt),
      (5, RV32I rv_insn_bge), (6, RV32I rv_insn_bltu), (7, RV32I rv_insn_bgeu)]
     (decode_funct3 insn) (decode_btype ir insn)"

definition op_jalr :: "rv_insn \<Rightarrow> u32 \<Rightarrow> decode_result" where
  "op_jalr ir insn = set_opcode (RV32I rv_insn_jalr) (decode_itype ir insn)"

definition op_jal :: "rv_insn \<Rightarrow> u32 \<Rightarrow> decode_result" where
  "op_jal ir insn = set_opcode (RV32I rv_insn_jal) (decode_jtype ir insn)"

definition csr_is_writable :: "u32 \<Rightarrow> bool" where
  "csr_is_writable csr = (csr < 0xC00)"

text \<open>The last statement of \<^verbatim>\<open>op_system\<close>, reached by every case that breaks out of the
  \<^verbatim>\<open>switch\<close>.\<close>

definition csr_check :: "decode_result \<Rightarrow> decode_result" where
  "csr_check r = (case r of
      Decoded ir \<Rightarrow> if csr_is_writable (ir_imm ir) \<or> ir_rs1 ir = rv_reg_zero
                    then Decoded ir else Illegal ir
    | _ \<Rightarrow> r)"

definition op_system :: "features \<Rightarrow> rv_insn \<Rightarrow> u32 \<Rightarrow> decode_result" where
  "op_system cfg ir0 insn =
    (let ir = decode_itype ir0 insn; f3 = decode_funct3 insn in
     csr_check (if f3 = 0 then
                (if drop_bit 25 insn = 0x09 then set_opcode (RVPriv rv_insn_sfencevma) ir
                 else switch_opcode
                   ([(0, RV32I rv_insn_ecall), (1, RV32I rv_insn_ebreak),
                     (0x105, RVPriv rv_insn_wfi)] @
                    (if SYSTEM cfg then [(0x102, RVPriv rv_insn_sret)] else []) @
                    [(0x302, RVPriv rv_insn_mret)]) (ir_imm ir) ir)
              else if Zicsr cfg then switch_opcode
                [(1, RVZicsr rv_insn_csrrw), (2, RVZicsr rv_insn_csrrs),
                 (3, RVZicsr rv_insn_csrrc), (5, RVZicsr rv_insn_csrrwi),
                 (6, RVZicsr rv_insn_csrrsi), (7, RVZicsr rv_insn_csrrci)] f3 ir
              else Illegal ir))"

definition op_misc_mem :: "features \<Rightarrow> rv_insn \<Rightarrow> u32 \<Rightarrow> decode_result" where
  "op_misc_mem cfg ir insn = switch_opcode
     ([(0, RV32I rv_insn_fence)] @ (if Zifencei cfg then [(1, RVZifencei rv_insn_fencei)] else []))
     (decode_funct3 insn) ir"

definition op_unimp :: "rv_insn \<Rightarrow> u32 \<Rightarrow> decode_result" where
  "op_unimp ir insn = Illegal ir"

section \<open>Atomics and floating point\<close>

definition op_amo :: "rv_insn \<Rightarrow> u32 \<Rightarrow> decode_result" where
  "op_amo ir insn =
    (let funct5 = drop_bit 2 (decode_funct7 insn) AND 0x1F in switch_opcode
     [(0x02, RV32A rv_insn_lrw), (0x03, RV32A rv_insn_scw), (0x01, RV32A rv_insn_amoswapw),
      (0x00, RV32A rv_insn_amoaddw), (0x04, RV32A rv_insn_amoxorw),
      (0x0C, RV32A rv_insn_amoandw), (0x08, RV32A rv_insn_amoorw),
      (0x10, RV32A rv_insn_amominw), (0x14, RV32A rv_insn_amomaxw),
      (0x18, RV32A rv_insn_amominuw), (0x1C, RV32A rv_insn_amomaxuw)]
     funct5 (decode_rtype ir insn))"

definition op_load_fp :: "rv_insn \<Rightarrow> u32 \<Rightarrow> decode_result" where
  "op_load_fp ir insn = set_opcode (RV32F rv_insn_flw) (decode_itype ir insn)"

definition op_store_fp :: "rv_insn \<Rightarrow> u32 \<Rightarrow> decode_result" where
  "op_store_fp ir insn = set_opcode (RV32F rv_insn_fsw) (decode_stype ir insn)"

text \<open>The inner \<^verbatim>\<open>switch\<close> on \<^verbatim>\<open>rs2\<close> for
  \<^verbatim>\<open>FCVT.W[U].S\<close> has no default: any other value leaves the opcode as it was and is
  reported as decoded.\<close>

definition op_op_fp :: "rv_insn \<Rightarrow> u32 \<Rightarrow> decode_result" where
  "op_op_fp ir0 insn =
    (let ir = decode_rtype (ir0\<lparr>ir_rm := ucast (decode_funct3 insn)\<rparr>) insn;
         f7 = decode_funct7 insn in
     if f7 = 0x00 then set_opcode (RV32F rv_insn_fadds) ir
     else if f7 = 0x04 then set_opcode (RV32F rv_insn_fsubs) ir
     else if f7 = 0x08 then set_opcode (RV32F rv_insn_fmuls) ir
     else if f7 = 0x0C then set_opcode (RV32F rv_insn_fdivs) ir
     else if f7 = 0x2C then set_opcode (RV32F rv_insn_fsqrts) ir
     else if f7 = 0x10 then switch_opcode
       [(0, RV32F rv_insn_fsgnjs), (1, RV32F rv_insn_fsgnjns), (2, RV32F rv_insn_fsgnjxs)]
       (ir_rm ir) ir
     else if f7 = 0x60 then
       (if ir_rs2 ir = 0 then set_opcode (RV32F rv_insn_fcvtws) ir
        else if ir_rs2 ir = 1 then set_opcode (RV32F rv_insn_fcvtwus) ir
        else Decoded ir)
     else if f7 = 0x14 then switch_opcode
       [(0, RV32F rv_insn_fmins), (1, RV32F rv_insn_fmaxs)] (ir_rm ir) ir
     else if f7 = 0x70 then switch_opcode
       [(0, RV32F rv_insn_fmvxw), (1, RV32F rv_insn_fclasss)] (ir_rm ir) ir
     else if f7 = 0x50 then switch_opcode
       [(2, RV32F rv_insn_feqs), (1, RV32F rv_insn_flts), (0, RV32F rv_insn_fles)] (ir_rm ir) ir
     else if f7 = 0x68 then switch_opcode
       [(0, RV32F rv_insn_fcvtsw), (1, RV32F rv_insn_fcvtswu)] (ir_rs2 ir) ir
     else if f7 = 0x78 then set_opcode (RV32F rv_insn_fmvwx) ir
     else Illegal ir)"

definition op_madd :: "rv_insn \<Rightarrow> u32 \<Rightarrow> decode_result" where
  "op_madd ir insn = set_opcode (RV32F rv_insn_fmadds) (decode_r4type ir insn)"

definition op_msub :: "rv_insn \<Rightarrow> u32 \<Rightarrow> decode_result" where
  "op_msub ir insn = set_opcode (RV32F rv_insn_fmsubs) (decode_r4type ir insn)"

definition op_nmadd :: "rv_insn \<Rightarrow> u32 \<Rightarrow> decode_result" where
  "op_nmadd ir insn = set_opcode (RV32F rv_insn_fnmadds) (decode_r4type ir insn)"

definition op_nmsub :: "rv_insn \<Rightarrow> u32 \<Rightarrow> decode_result" where
  "op_nmsub ir insn = set_opcode (RV32F rv_insn_fnmsubs) (decode_r4type ir insn)"

section \<open>Compressed opcodes\<close>

definition op_caddi :: "rv_insn \<Rightarrow> u32 \<Rightarrow> decode_result" where
  "op_caddi ir0 insn =
    (let ir = ir0\<lparr>ir_rd := ucast (c_decode_rd (ucast insn))\<rparr> in
     if ir_rd ir = 0 then set_opcode (RV32C rv_insn_cnop) ir
     else set_opcode (RV32C rv_insn_caddi) (ir\<lparr>ir_imm := c_decode_citype_imm (ucast insn)\<rparr>))"

definition op_caddi4spn :: "rv_insn \<Rightarrow> u32 \<Rightarrow> decode_result" where
  "op_caddi4spn ir0 insn =
    (let ir = ir0\<lparr>ir_imm := ucast (c_decode_caddi4spn_nzuimm (ucast insn)),
                  ir_rd := ucast (c_decode_rdc (ucast insn) OR 0x08)\<rparr> in
     if ir_imm ir = 0 then Illegal ir else set_opcode (RV32C rv_insn_caddi4spn) ir)"

definition op_cli :: "rv_insn \<Rightarrow> u32 \<Rightarrow> decode_result" where
  "op_cli ir insn = set_opcode (RV32C rv_insn_cli)
     (ir\<lparr>ir_imm := c_decode_citype_imm (ucast insn), ir_rd := ucast (c_decode_rd (ucast insn))\<rparr>)"

definition op_clui :: "rv_insn \<Rightarrow> u32 \<Rightarrow> decode_result" where
  "op_clui ir0 insn =
    (let ir = ir0\<lparr>ir_rd := ucast (c_decode_rd (ucast insn))\<rparr> in
     if ir_rd ir = 0 then set_opcode (RV32C rv_insn_cnop) ir
     else if ir_rd ir = 2 then
       (let ir = ir\<lparr>ir_imm := c_decode_caddi16sp_nzimm (ucast insn)\<rparr> in
        if ir_imm ir = 0 then Illegal ir else set_opcode (RV32C rv_insn_caddi16sp) ir)
     else
       (let ir = ir\<lparr>ir_imm := c_decode_clui_nzimm (ucast insn)\<rparr> in
        if ir_imm ir = 0 then Illegal ir else set_opcode (RV32C rv_insn_clui) ir))"

text \<open>The fields \<^verbatim>\<open>op_cmisc_alu\<close> and \<^verbatim>\<open>op_ccr\<close> dispatch from.\<close>

definition c_funct2 :: "u32 \<Rightarrow> u32" where
  "c_funct2 insn = drop_bit 10 (insn AND 0x0C00)"

definition c_arith_sel :: "u32 \<Rightarrow> u32" where
  "c_arith_sel insn = drop_bit 10 (insn AND 0x1000) OR drop_bit 5 (insn AND 0x0060)"

definition c_funct4_0 :: "u32 \<Rightarrow> u32" where
  "c_funct4_0 insn = drop_bit 12 (insn AND 0x1000)"

text \<open>The RV64C and the reserved arithmetic encodings run into \<^verbatim>\<open>assert\<close>.\<close>

definition op_cmisc_alu :: "rv_insn \<Rightarrow> u32 \<Rightarrow> decode_result" where
  "op_cmisc_alu ir insn =
    (let funct2 = c_funct2 insn in
     if funct2 = 0 then
       (let ir = ir\<lparr>ir_shamt := c_decode_cbtype_shamt (ucast insn),
                    ir_rs1 := ucast (c_decode_rs1c (ucast insn) OR 0x08)\<rparr> in
        if ir_shamt ir AND 0x20 \<noteq> 0 then Illegal ir
        else if ir_rs1 ir = 0 \<or> ir_shamt ir = 0 then set_opcode (RV32C rv_insn_cnop) ir
        else set_opcode (RV32C rv_insn_csrli) ir)
     else if funct2 = 1 then
       (let ir = ir\<lparr>ir_shamt := c_decode_cbtype_shamt (ucast insn),
                    ir_rs1 := ucast (c_decode_rs1 (ucast insn))\<rparr> in
        if ir_shamt ir AND 0x20 \<noteq> 0 then Illegal ir else set_opcode (RV32C rv_insn_csrai) ir)
     else if funct2 = 2 then
       set_opcode (RV32C rv_insn_candi)
         (ir\<lparr>ir_rs1 := ucast (c_decode_rs1c (ucast insn) OR 0x08),
             ir_imm := c_decode_caddi_imm (ucast insn)\<rparr>)
     else
       (let ir = ir\<lparr>ir_rs1 := ucast (c_decode_rs1c (ucast insn) OR 0x08),
                    ir_rs2 := ucast (c_decode_rs2c (ucast insn) OR 0x08)\<rparr>;
            ir = ir\<lparr>ir_rd := ir_rs1 ir\<rparr>;
            k = c_arith_sel insn in
        if k = 0 then set_opcode (RV32C rv_insn_csub) ir
        else if k = 1 then set_opcode (RV32C rv_insn_cxor) ir
        else if k = 2 then set_opcode (RV32C rv_insn_cor) ir
        else if k = 3 then set_opcode (RV32C rv_insn_cand) ir
        else Aborted))"

definition c_slli_imm :: "u32 \<Rightarrow> u32" where
  "c_slli_imm insn =
    (let tmp = 0;
         tmp = tmp OR drop_bit 7 (insn AND FCI_IMM_12);
         tmp = tmp OR drop_bit 2 (insn AND FCI_IMM_6_2)
     in tmp)"

definition op_cslli :: "rv_insn \<Rightarrow> u32 \<Rightarrow> decode_result" where
  "op_cslli ir0 insn =
    (let ir = ir0\<lparr>ir_imm := c_slli_imm insn, ir_rd := ucast (c_decode_rd (ucast insn))\<rparr> in
     set_opcode (RV32C (if ir_rd ir \<noteq> 0 then rv_insn_cslli else rv_insn_cnop)) ir)"

definition c_lwsp_imm :: "u32 \<Rightarrow> u32" where
  "c_lwsp_imm insn =
    (let tmp = 0 :: u16;
         tmp = tmp OR ucast (drop_bit 2 (insn AND 0x70));
         tmp = tmp OR ucast (push_bit 4 (insn AND 0x0C));
         tmp = tmp OR ucast (drop_bit 7 (insn AND 0x1000))
     in ucast tmp)"

definition c_swsp_imm :: "u32 \<Rightarrow> u32" where
  "c_swsp_imm insn = drop_bit 7 (insn AND 0x1E00) OR drop_bit 1 (insn AND 0x180)"

definition c_lw_imm :: "u32 \<Rightarrow> u32" where
  "c_lw_imm insn =
    (let tmp = 0 :: u16;
         tmp = tmp OR ucast (drop_bit 4 (insn AND 0x0040));
         tmp = tmp OR ucast (drop_bit 7 (insn AND FC_IMM_12_10));
         tmp = tmp OR ucast (push_bit 1 (insn AND 0x0020))
     in ucast tmp)"

definition c_sw_imm :: "u32 \<Rightarrow> u32" where
  "c_sw_imm insn =
    (let tmp = 0;
         tmp = tmp OR drop_bit 4 (insn AND 0x0040);
         tmp = tmp OR drop_bit 7 (insn AND FC_IMM_12_10);
         tmp = tmp OR push_bit 1 (insn AND 0x0020)
     in tmp)"

definition op_clwsp :: "rv_insn \<Rightarrow> u32 \<Rightarrow> decode_result" where
  "op_clwsp ir0 insn =
    (let ir = ir0\<lparr>ir_imm := c_lwsp_imm insn, ir_rd := ucast (c_decode_rd (ucast insn))\<rparr> in
     set_opcode (RV32C (if ir_rd ir \<noteq> 0 then rv_insn_clwsp else rv_insn_cnop)) ir)"

definition op_cswsp :: "rv_insn \<Rightarrow> u32 \<Rightarrow> decode_result" where
  "op_cswsp ir insn = set_opcode (RV32C rv_insn_cswsp)
     (ir\<lparr>ir_imm := c_swsp_imm insn, ir_rs2 := ucast (c_decode_rs2 (ucast insn))\<rparr>)"

definition op_clw :: "rv_insn \<Rightarrow> u32 \<Rightarrow> decode_result" where
  "op_clw ir insn = set_opcode (RV32C rv_insn_clw)
     (ir\<lparr>ir_imm := c_lw_imm insn, ir_rd := ucast (c_decode_rdc (ucast insn) OR 0x08),
         ir_rs1 := ucast (c_decode_rs1c (ucast insn) OR 0x08)\<rparr>)"

definition op_csw :: "rv_insn \<Rightarrow> u32 \<Rightarrow> decode_result" where
  "op_csw ir insn = set_opcode (RV32C rv_insn_csw)
     (ir\<lparr>ir_imm := c_sw_imm insn, ir_rs1 := ucast (c_decode_rs1c (ucast insn) OR 0x08),
         ir_rs2 := ucast (c_decode_rs2c (ucast insn) OR 0x08)\<rparr>)"

definition op_cj :: "rv_insn \<Rightarrow> u32 \<Rightarrow> decode_result" where
  "op_cj ir insn = set_opcode (RV32C rv_insn_cj)
     (ir\<lparr>ir_imm := c_decode_cjtype_imm (ucast insn)\<rparr>)"

definition op_cjal :: "rv_insn \<Rightarrow> u32 \<Rightarrow> decode_result" where
  "op_cjal ir insn = set_opcode (RV32C rv_insn_cjal)
     (ir\<lparr>ir_imm := sign_extend_h (c_decode_cjtype_imm (ucast insn))\<rparr>)"

definition op_ccr :: "rv_insn \<Rightarrow> u32 \<Rightarrow> decode_result" where
  "op_ccr ir0 insn =
    (let ir = ir0\<lparr>ir_rs1 := ucast (c_decode_rs1 (ucast insn)),
                  ir_rs2 := ucast (c_decode_rs2 (ucast insn))\<rparr>;
         ir = ir\<lparr>ir_rd := ir_rs1 ir\<rparr> in
     if c_funct4_0 insn = 0 then
       (if ir_rs2 ir = 0 then
          (if ir_rs1 ir = 0 then Illegal ir else set_opcode (RV32C rv_insn_cjr) ir)
        else set_opcode (RV32C (if ir_rd ir \<noteq> 0 then rv_insn_cmv else rv_insn_cnop)) ir)
     else if ir_rs1 ir = 0 \<and> ir_rs2 ir = 0 then set_opcode (RV32I rv_insn_ebreak) ir
     else if ir_rs1 ir \<noteq> 0 \<and> ir_rs2 ir \<noteq> 0 then
       set_opcode (RV32C (if ir_rd ir \<noteq> 0 then rv_insn_cadd else rv_insn_cnop)) ir
     else if ir_rs1 ir \<noteq> 0 \<and> ir_rs2 ir = 0 then set_opcode (RV32C rv_insn_cjalr) ir
     else set_opcode (RV32C rv_insn_cnop) ir)"

definition op_cbeqz :: "rv_insn \<Rightarrow> u32 \<Rightarrow> decode_result" where
  "op_cbeqz ir insn = set_opcode (RV32C rv_insn_cbeqz)
     (ir\<lparr>ir_imm := sign_extend_h (ucast (c_decode_cbtype_imm (ucast insn))),
         ir_rs1 := ucast (c_decode_rs1c (ucast insn) OR 0x08)\<rparr>)"

definition op_cbnez :: "rv_insn \<Rightarrow> u32 \<Rightarrow> decode_result" where
  "op_cbnez ir insn = set_opcode (RV32C rv_insn_cbnez)
     (ir\<lparr>ir_imm := sign_extend_h (ucast (c_decode_cbtype_imm (ucast insn))),
         ir_rs1 := ucast (c_decode_rs1c (ucast insn) OR 0x08)\<rparr>)"

definition op_cflwsp :: "rv_insn \<Rightarrow> u32 \<Rightarrow> decode_result" where
  "op_cflwsp ir insn = set_opcode (RV32FC rv_insn_cflwsp)
     (ir\<lparr>ir_imm := c_lwsp_imm insn, ir_rd := ucast (c_decode_rd (ucast insn))\<rparr>)"

definition op_cfswsp :: "rv_insn \<Rightarrow> u32 \<Rightarrow> decode_result" where
  "op_cfswsp ir insn = set_opcode (RV32FC rv_insn_cfswsp)
     (ir\<lparr>ir_imm := c_swsp_imm insn, ir_rs2 := ucast (c_decode_rs2 (ucast insn))\<rparr>)"

definition op_cflw :: "rv_insn \<Rightarrow> u32 \<Rightarrow> decode_result" where
  "op_cflw ir insn = set_opcode (RV32FC rv_insn_cflw)
     (ir\<lparr>ir_imm := c_lw_imm insn, ir_rd := ucast (c_decode_rdc (ucast insn) OR 0x08),
         ir_rs1 := ucast (c_decode_rs1c (ucast insn) OR 0x08)\<rparr>)"

definition op_cfsw :: "rv_insn \<Rightarrow> u32 \<Rightarrow> decode_result" where
  "op_cfsw ir insn = set_opcode (RV32FC rv_insn_cfsw)
     (ir\<lparr>ir_imm := c_sw_imm insn, ir_rs1 := ucast (c_decode_rs1c (ucast insn) OR 0x08),
         ir_rs2 := ucast (c_decode_rs2c (ucast insn) OR 0x08)\<rparr>)"

section \<open>Dispatch\<close>

text \<open>
  The jump tables hold names of decoder functions; \<^verbatim>\<open>run_op\<close> calls the one named. A
  name whose extension is configured out is \<^verbatim>\<open>#define\<close>d to \<^verbatim>\<open>OP_UNIMP\<close>.
\<close>

datatype op_name =
    OP_load | OP_load_fp | OP_misc_mem | OP_op_imm | OP_auipc | OP_store | OP_store_fp | OP_amo
  | OP_op | OP_lui | OP_madd | OP_msub | OP_nmsub | OP_nmadd | OP_op_fp | OP_branch | OP_jalr
  | OP_jal | OP_system | OP_unimp

datatype c_op_name =
    OP_caddi4spn | OP_caddi | OP_cslli | OP_cjal | OP_clw | OP_cli | OP_clwsp | OP_cflw | OP_clui
  | OP_cflwsp | OP_cmisc_alu | OP_ccr | OP_cj | OP_csw | OP_cbeqz | OP_cswsp | OP_cfsw | OP_cbnez
  | OP_cfswsp | OP_c_unimp

definition rv_jump_table :: "op_name list" where
  "rv_jump_table = [
     OP_load,   OP_load_fp,  OP_unimp, OP_misc_mem, OP_op_imm, OP_auipc, OP_unimp, OP_unimp,
     OP_store,  OP_store_fp, OP_unimp, OP_amo,      OP_op,     OP_lui,   OP_unimp, OP_unimp,
     OP_madd,   OP_msub,     OP_nmsub, OP_nmadd,    OP_op_fp,  OP_unimp, OP_unimp, OP_unimp,
     OP_branch, OP_jalr,     OP_unimp, OP_jal,      OP_system, OP_unimp, OP_unimp, OP_unimp]"

definition rvc_jump_table :: "c_op_name list" where
  "rvc_jump_table = [
     OP_caddi4spn, OP_caddi,     OP_cslli,   OP_c_unimp,
     OP_c_unimp,   OP_cjal,      OP_c_unimp, OP_c_unimp,
     OP_clw,       OP_cli,       OP_clwsp,   OP_c_unimp,
     OP_cflw,      OP_clui,      OP_cflwsp,  OP_c_unimp,
     OP_c_unimp,   OP_cmisc_alu, OP_ccr,     OP_c_unimp,
     OP_c_unimp,   OP_cj,        OP_c_unimp, OP_c_unimp,
     OP_csw,       OP_cbeqz,     OP_cswsp,   OP_c_unimp,
     OP_cfsw,      OP_cbnez,     OP_cfswsp,  OP_c_unimp]"

fun run_op :: "features \<Rightarrow> op_name \<Rightarrow> rv_insn \<Rightarrow> u32 \<Rightarrow> decode_result" where
  "run_op cfg OP_load ir insn = op_load ir insn"
| "run_op cfg OP_load_fp ir insn = (if EXT_F cfg then op_load_fp ir insn else op_unimp ir insn)"
| "run_op cfg OP_misc_mem ir insn = op_misc_mem cfg ir insn"
| "run_op cfg OP_op_imm ir insn = op_op_imm cfg ir insn"
| "run_op cfg OP_auipc ir insn = op_auipc ir insn"
| "run_op cfg OP_store ir insn = op_store ir insn"
| "run_op cfg OP_store_fp ir insn = (if EXT_F cfg then op_store_fp ir insn else op_unimp ir insn)"
| "run_op cfg OP_amo ir insn = (if EXT_A cfg then op_amo ir insn else op_unimp ir insn)"
| "run_op cfg OP_op ir insn = op_op cfg ir insn"
| "run_op cfg OP_lui ir insn = op_lui ir insn"
| "run_op cfg OP_madd ir insn = (if EXT_F cfg then op_madd ir insn else op_unimp ir insn)"
| "run_op cfg OP_msub ir insn = (if EXT_F cfg then op_msub ir insn else op_unimp ir insn)"
| "run_op cfg OP_nmsub ir insn = (if EXT_F cfg then op_nmsub ir insn else op_unimp ir insn)"
| "run_op cfg OP_nmadd ir insn = (if EXT_F cfg then op_nmadd ir insn else op_unimp ir insn)"
| "run_op cfg OP_op_fp ir insn = (if EXT_F cfg then op_op_fp ir insn else op_unimp ir insn)"
| "run_op cfg OP_branch ir insn = op_branch ir insn"
| "run_op cfg OP_jalr ir insn = op_jalr ir insn"
| "run_op cfg OP_jal ir insn = op_jal ir insn"
| "run_op cfg OP_system ir insn = op_system cfg ir insn"
| "run_op cfg OP_unimp ir insn = op_unimp ir insn"

fun run_c_op :: "features \<Rightarrow> c_op_name \<Rightarrow> rv_insn \<Rightarrow> u32 \<Rightarrow> decode_result" where
  "run_c_op cfg OP_caddi4spn ir insn = op_caddi4spn ir insn"
| "run_c_op cfg OP_caddi ir insn = op_caddi ir insn"
| "run_c_op cfg OP_cslli ir insn = op_cslli ir insn"
| "run_c_op cfg OP_cjal ir insn = op_cjal ir insn"
| "run_c_op cfg OP_clw ir insn = op_clw ir insn"
| "run_c_op cfg OP_cli ir insn = op_cli ir insn"
| "run_c_op cfg OP_clwsp ir insn = op_clwsp ir insn"
| "run_c_op cfg OP_cflw ir insn = (if EXT_F cfg then op_cflw ir insn else op_unimp ir insn)"
| "run_c_op cfg OP_clui ir insn = op_clui ir insn"
| "run_c_op cfg OP_cflwsp ir insn = (if EXT_F cfg then op_cflwsp ir insn else op_unimp ir insn)"
| "run_c_op cfg OP_cmisc_alu ir insn = op_cmisc_alu ir insn"
| "run_c_op cfg OP_ccr ir insn = op_ccr ir insn"
| "run_c_op cfg OP_cj ir insn = op_cj ir insn"
| "run_c_op cfg OP_csw ir insn = op_csw ir insn"
| "run_c_op cfg OP_cbeqz ir insn = op_cbeqz ir insn"
| "run_c_op cfg OP_cswsp ir insn = op_cswsp ir insn"
| "run_c_op cfg OP_cfsw ir insn = (if EXT_F cfg then op_cfsw ir insn else op_unimp ir insn)"
| "run_c_op cfg OP_cbnez ir insn = op_cbnez ir insn"
| "run_c_op cfg OP_cfswsp ir insn = (if EXT_F cfg then op_cfswsp ir insn else op_unimp ir insn)"
| "run_c_op cfg OP_c_unimp ir insn = op_unimp ir insn"

definition is_compressed :: "u32 \<Rightarrow> bool" where
  "is_compressed insn = (insn AND FC_OPCODE \<noteq> 3)"

text \<open>The index expressions into the two tables, and the RV32E register check.\<close>

definition c_index :: "u32 \<Rightarrow> u32" where
  "c_index insn = drop_bit 11 (insn AND FC_FUNC3) OR (insn AND FC_OPCODE)"

definition op_index :: "u32 \<Rightarrow> u32" where
  "op_index insn = drop_bit 2 (insn AND INSN_6_2)"

definition rv32e_check :: "features \<Rightarrow> bool \<Rightarrow> decode_result \<Rightarrow> decode_result" where
  "rv32e_check cfg is_fp r = (case r of
      Decoded ir \<Rightarrow>
        if RV32E cfg \<and> \<not> is_fp \<and> (ir_rd ir > 15 \<or> ir_rs1 ir > 15 \<or> ir_rs2 ir > 15)
        then Illegal ir else Decoded ir
    | _ \<Rightarrow> r)"

definition rv_decode :: "features \<Rightarrow> rv_insn \<Rightarrow> u32 \<Rightarrow> decode_result" where
  "rv_decode cfg ir insn =
    (if EXT_C cfg \<and> is_compressed insn then
       (let insn = insn AND 0x0000FFFF; op = rvc_jump_table ! unat (c_index insn) in
        rv32e_check cfg False (run_c_op cfg op ir insn))
     else
       (let op = rv_jump_table ! unat (op_index insn) in
        rv32e_check cfg (EXT_F cfg \<and> op \<in> {OP_store_fp, OP_load_fp, OP_op_fp})
          (run_op cfg op ir insn)))"

lemmas base_op_defs [decode_defs] = op_load_def op_op_imm_def op_auipc_def op_store_def op_op_def
  op_lui_def op_branch_def op_jalr_def op_jal_def op_system_def op_misc_mem_def op_unimp_def
  op_amo_def op_load_fp_def op_store_fp_def op_op_fp_def op_madd_def op_msub_def op_nmadd_def
  op_nmsub_def

lemmas c_op_defs [decode_defs] = op_caddi_def op_caddi4spn_def op_cli_def op_clui_def
  op_cmisc_alu_def op_cslli_def op_clwsp_def op_cswsp_def op_clw_def op_csw_def op_cj_def
  op_cjal_def op_ccr_def op_cbeqz_def op_cbnez_def op_cflwsp_def op_cfswsp_def op_cflw_def
  op_cfsw_def

end
