(* ===== verification/RV_Decode_Spec.thy ===== *)
theory RV_Decode_Spec
  imports RV_Decode
begin

text \<open>
  The encoding tables of the RISC-V unprivileged and privileged specifications as match/mask
  pairs, the instruction formats as slices of the instruction word, and the proof that
  \<^verbatim>\<open>rv_decode\<close> fills in the IR the tables call for, for every 32-bit instruction of the
  configured extensions.
\<close>

unbundle bit_operations_syntax

section \<open>Fields of an instruction word\<close>

abbreviation bits :: "'b::len word \<Rightarrow> nat \<Rightarrow> 'a::len word" where
  "bits insn lo \<equiv> ucast (drop_bit lo insn)"

definition reg_field :: "u32 \<Rightarrow> nat \<Rightarrow> u8" where
  "reg_field insn lo = ucast (bits insn lo :: 5 word)"

definition imm_i :: "u32 \<Rightarrow> 12 word" where
  "imm_i insn = bits insn 20"

definition imm_s :: "u32 \<Rightarrow> 12 word" where
  "imm_s insn = word_cat (bits insn 25 :: 7 word) (bits insn 7 :: 5 word)"

definition imm_b :: "u32 \<Rightarrow> 13 word" where
  "imm_b insn = word_cat (bits insn 31 :: 1 word) (word_cat (bits insn 7 :: 1 word)
     (word_cat (bits insn 25 :: 6 word) (word_cat (bits insn 8 :: 4 word) (0 :: 1 word)
       :: 5 word) :: 11 word) :: 12 word)"

definition imm_u :: "u32 \<Rightarrow> 20 word" where
  "imm_u insn = bits insn 12"

definition imm_j :: "u32 \<Rightarrow> 21 word" where
  "imm_j insn = word_cat (bits insn 31 :: 1 word) (word_cat (bits insn 12 :: 8 word)
     (word_cat (bits insn 20 :: 1 word) (word_cat (bits insn 21 :: 10 word) (0 :: 1 word)
       :: 11 word) :: 12 word) :: 20 word)"

lemmas imm_defs = imm_i_def imm_s_def imm_b_def imm_u_def imm_j_def reg_field_def

lemma decode_itype_imm_spec: "decode_itype_imm insn = scast (imm_i insn)"
  by (rule word_eq_bits) (simp add: bitblast imm_defs field_defs mask_defs)

lemma decode_stype_imm_spec: "decode_stype_imm insn = scast (imm_s insn)"
  by (rule word_eq_bits) (simp add: bitblast imm_defs field_defs mask_defs)

lemma decode_btype_imm_spec: "decode_btype_imm insn = scast (imm_b insn)"
  by (rule word_eq_bits) (simp add: bitblast imm_defs field_defs mask_defs)

lemma decode_utype_imm_spec: "decode_utype_imm insn = push_bit 12 (ucast (imm_u insn))"
  by (rule word_eq_bits) (simp add: bitblast imm_defs field_defs mask_defs)

lemma decode_jtype_imm_spec: "decode_jtype_imm insn = scast (imm_j insn)"
  by (rule word_eq_bits) (simp add: bitblast imm_defs field_defs mask_defs)

lemma decode_rd_spec: "ucast (decode_rd insn) = reg_field insn 7"
  by (rule word_eq_bits) (simp add: bitblast imm_defs field_defs mask_defs)

lemma decode_rs1_spec: "ucast (decode_rs1 insn) = reg_field insn 15"
  by (rule word_eq_bits) (simp add: bitblast imm_defs field_defs mask_defs)

lemma decode_rs2_spec: "ucast (decode_rs2 insn) = reg_field insn 20"
  by (rule word_eq_bits) (simp add: bitblast imm_defs field_defs mask_defs)

lemma decode_rs3_spec: "ucast (decode_r4type_rs3 insn) = reg_field insn 27"
  by (rule word_eq_bits) (simp add: bitblast imm_defs field_defs mask_defs)

lemma decode_rm_spec: "ucast (decode_funct3 insn) = (ucast (bits insn 12 :: 3 word) :: u8)"
  by (rule word_eq_bits) (simp add: bitblast imm_defs field_defs mask_defs)

lemmas decode_field_specs = decode_itype_imm_spec decode_stype_imm_spec decode_btype_imm_spec
  decode_utype_imm_spec decode_jtype_imm_spec decode_rd_spec decode_rs1_spec decode_rs2_spec
  decode_rs3_spec decode_rm_spec

section \<open>The encoding tables\<close>

text \<open>
  A row gives the instruction, the bits that identify it (\<^verbatim>\<open>insn AND mask = match\<close>),
  its operand format, and the extension it belongs to. In the formats marked
  \<^verbatim>\<open>_rd\<close> the only effect of the instruction is the write to \<^verbatim>\<open>rd\<close>.
\<close>

datatype fmt = Fmt_none | Fmt_I | Fmt_I_rd | Fmt_S | Fmt_B | Fmt_U_rd | Fmt_J | Fmt_R | Fmt_R_rd
  | Fmt_R_rm | Fmt_R4

datatype isa_row = Row (row_op: opcode) (row_match: u32) (row_mask: u32) (row_fmt: fmt)
  (row_feat: "features \<Rightarrow> bool")

definition load_rows :: "isa_row list" where
  "load_rows = [
     Row (RV32I rv_insn_lb) 0x00000003 0x0000707F Fmt_I (\<lambda>_. True),
     Row (RV32I rv_insn_lh) 0x00001003 0x0000707F Fmt_I (\<lambda>_. True),
     Row (RV32I rv_insn_lw) 0x00002003 0x0000707F Fmt_I (\<lambda>_. True),
     Row (RV32I rv_insn_lbu) 0x00004003 0x0000707F Fmt_I (\<lambda>_. True),
     Row (RV32I rv_insn_lhu) 0x00005003 0x0000707F Fmt_I (\<lambda>_. True)]"

definition store_rows :: "isa_row list" where
  "store_rows = [
     Row (RV32I rv_insn_sb) 0x00000023 0x0000707F Fmt_S (\<lambda>_. True),
     Row (RV32I rv_insn_sh) 0x00001023 0x0000707F Fmt_S (\<lambda>_. True),
     Row (RV32I rv_insn_sw) 0x00002023 0x0000707F Fmt_S (\<lambda>_. True)]"

definition branch_rows :: "isa_row list" where
  "branch_rows = [
     Row (RV32I rv_insn_beq) 0x00000063 0x0000707F Fmt_B (\<lambda>_. True),
     Row (RV32I rv_insn_bne) 0x00001063 0x0000707F Fmt_B (\<lambda>_. True),
     Row (RV32I rv_insn_blt) 0x00004063 0x0000707F Fmt_B (\<lambda>_. True),
     Row (RV32I rv_insn_bge) 0x00005063 0x0000707F Fmt_B (\<lambda>_. True),
     Row (RV32I rv_insn_bltu) 0x00006063 0x0000707F Fmt_B (\<lambda>_. True),
     Row (RV32I rv_insn_bgeu) 0x00007063 0x0000707F Fmt_B (\<lambda>_. True)]"

definition op_imm_rows :: "isa_row list" where
  "op_imm_rows = [
     Row (RV32I rv_insn_addi) 0x00000013 0x0000707F Fmt_I_rd (\<lambda>_. True),
     Row (RV32I rv_insn_slti) 0x00002013 0x0000707F Fmt_I_rd (\<lambda>_. True),
     Row (RV32I rv_insn_sltiu) 0x00003013 0x0000707F Fmt_I_rd (\<lambda>_. True),
     Row (RV32I rv_insn_xori) 0x00004013 0x0000707F Fmt_I_rd (\<lambda>_. True),
     Row (RV32I rv_insn_ori) 0x00006013 0x0000707F Fmt_I_rd (\<lambda>_. True),
     Row (RV32I rv_insn_andi) 0x00007013 0x0000707F Fmt_I_rd (\<lambda>_. True)]"

definition shift_imm_rows :: "isa_row list" where
  "shift_imm_rows = [
     Row (RV32I rv_insn_slli) 0x00001013 0xFE00707F Fmt_I_rd (\<lambda>_. True),
     Row (RV32I rv_insn_srli) 0x00005013 0xFE00707F Fmt_I_rd (\<lambda>_. True),
     Row (RV32I rv_insn_srai) 0x40005013 0xFE00707F Fmt_I_rd (\<lambda>_. True),
     Row (RVZbb rv_insn_rori) 0x60005013 0xFE00707F Fmt_I_rd Zbb,
     Row (RVZbs rv_insn_bclri) 0x48001013 0xFE00707F Fmt_I_rd Zbs,
     Row (RVZbs rv_insn_binvi) 0x68001013 0xFE00707F Fmt_I_rd Zbs,
     Row (RVZbs rv_insn_bseti) 0x28001013 0xFE00707F Fmt_I_rd Zbs,
     Row (RVZbs rv_insn_bexti) 0x48005013 0xFE00707F Fmt_I_rd Zbs]"

definition unary_imm_rows :: "isa_row list" where
  "unary_imm_rows = [
     Row (RVZbb rv_insn_clz) 0x60001013 0xFFF0707F Fmt_I_rd Zbb,
     Row (RVZbb rv_insn_ctz) 0x60101013 0xFFF0707F Fmt_I_rd Zbb,
     Row (RVZbb rv_insn_cpop) 0x60201013 0xFFF0707F Fmt_I_rd Zbb,
     Row (RVZbb rv_insn_sextb) 0x60401013 0xFFF0707F Fmt_I_rd Zbb,
     Row (RVZbb rv_insn_sexth) 0x60501013 0xFFF0707F Fmt_I_rd Zbb,
     Row (RVZbb rv_insn_orcb) 0x28705013 0xFFF0707F Fmt_I_rd Zbb,
     Row (RVZbb rv_insn_rev8) 0x69805013 0xFFF0707F Fmt_I_rd Zbb]"

definition op_rows :: "isa_row list" where
  "op_rows = [
     Row (RV32I rv_insn_add) 0x00000033 0xFE00707F Fmt_R_rd (\<lambda>_. True),
     Row (RV32I rv_insn_sll) 0x00001033 0xFE00707F Fmt_R_rd (\<lambda>_. True),
     Row (RV32I rv_insn_slt) 0x00002033 0xFE00707F Fmt_R_rd (\<lambda>_. True),
     Row (RV32I rv_insn_sltu) 0x00003033 0xFE00707F Fmt_R_rd (\<lambda>_. True),
     Row (RV32I rv_insn_xor) 0x00004033 0xFE00707F Fmt_R_rd (\<lambda>_. True),
     Row (RV32I rv_insn_srl) 0x00005033 0xFE00707F Fmt_R_rd (\<lambda>_. True),
     Row (RV32I rv_insn_or) 0x00006033 0xFE00707F Fmt_R_rd (\<lambda>_. True),
     Row (RV32I rv_insn_and) 0x00007033 0xFE00707F Fmt_R_rd (\<lambda>_. True),
     Row (RV32I rv_insn_sub) 0x40000033 0xFE00707F Fmt_R_rd (\<lambda>_. True),
     Row (RV32I rv_insn_sra) 0x40005033 0xFE00707F Fmt_R_rd (\<lambda>_. True),
     Row (RV32M rv_insn_mul) 0x02000033 0xFE00707F Fmt_R_rd EXT_M,
     Row (RV32M rv_insn_mulh) 0x02001033 0xFE00707F Fmt_R_rd EXT_M,
     Row (RV32M rv_insn_mulhsu) 0x02002033 0xFE00707F Fmt_R_rd EXT_M,
     Row (RV32M rv_insn_mulhu) 0x02003033 0xFE00707F Fmt_R_rd EXT_M,
     Row (RV32M rv_insn_div) 0x02004033 0xFE00707F Fmt_R_rd EXT_M,
     Row (RV32M rv_insn_divu) 0x02005033 0xFE00707F Fmt_R_rd EXT_M,
     Row (RV32M rv_insn_rem) 0x02006033 0xFE00707F Fmt_R_rd EXT_M,
     Row (RV32M rv_insn_remu) 0x02007033 0xFE00707F Fmt_R_rd EXT_M,
     Row (RVZba rv_insn_sh1add) 0x20002033 0xFE00707F Fmt_R_rd Zba,
     Row (RVZba rv_insn_sh2add) 0x20004033 0xFE00707F Fmt_R_rd Zba,
     Row (RVZba rv_insn_sh3add) 0x20006033 0xFE00707F Fmt_R_rd Zba,
     Row (RVZbb rv_insn_andn) 0x40007033 0xFE00707F Fmt_R_rd Zbb,
     Row (RVZbb rv_insn_orn) 0x40006033 0xFE00707F Fmt_R_rd Zbb,
     Row (RVZbb rv_insn_xnor) 0x40004033 0xFE00707F Fmt_R_rd Zbb,
     Row (RVZbb rv_insn_max) 0x0A006033 0xFE00707F Fmt_R_rd Zbb,
     Row (RVZbb rv_insn_maxu) 0x0A007033 0xFE00707F Fmt_R_rd Zbb,
     Row (RVZbb rv_insn_min) 0x0A004033 0xFE00707F Fmt_R_rd Zbb,
     Row (RVZbb rv_insn_minu) 0x0A005033 0xFE00707F Fmt_R_rd Zbb,
     Row (RVZbb rv_insn_rol) 0x60001033 0xFE00707F Fmt_R_rd Zbb,
     Row (RVZbb rv_insn_ror) 0x60005033 0xFE00707F Fmt_R_rd Zbb,
     Row (RVZbb rv_insn_zexth) 0x08004033 0xFFF0707F Fmt_R_rd Zbb,
     Row (RVZbc rv_insn_clmul) 0x0A001033 0xFE00707F Fmt_R_rd Zbc,
     Row (RVZbc rv_insn_clmulr) 0x0A002033 0xFE00707F Fmt_R_rd Zbc,
     Row (RVZbc rv_insn_clmulh) 0x0A003033 0xFE00707F Fmt_R_rd Zbc,
     Row (RVZbs rv_insn_bclr) 0x48001033 0xFE00707F Fmt_R_rd Zbs,
     Row (RVZbs rv_insn_bext) 0x48005033 0xFE00707F Fmt_R_rd Zbs,
     Row (RVZbs rv_insn_binv) 0x68001033 0xFE00707F Fmt_R_rd Zbs,
     Row (RVZbs rv_insn_bset) 0x28001033 0xFE00707F Fmt_R_rd Zbs]"

definition lui_rows :: "isa_row list" where
  "lui_rows = [
     Row (RV32I rv_insn_lui) 0x00000037 0x0000007F Fmt_U_rd (\<lambda>_. True)]"

definition auipc_rows :: "isa_row list" where
  "auipc_rows = [
     Row (RV32I rv_insn_auipc) 0x00000017 0x0000007F Fmt_U_rd (\<lambda>_. True)]"

definition jal_rows :: "isa_row list" where
  "jal_rows = [
     Row (RV32I rv_insn_jal) 0x0000006F 0x0000007F Fmt_J (\<lambda>_. True)]"

definition jalr_rows :: "isa_row list" where
  "jalr_rows = [
     Row (RV32I rv_insn_jalr) 0x00000067 0x0000707F Fmt_I (\<lambda>_. True)]"

definition misc_mem_rows :: "isa_row list" where
  "misc_mem_rows = [
     Row (RV32I rv_insn_fence) 0x0000000F 0x0000707F Fmt_none (\<lambda>_. True),
     Row (RVZifencei rv_insn_fencei) 0x0000100F 0x0000707F Fmt_none Zifencei]"

definition system_rows :: "isa_row list" where
  "system_rows = [
     Row (RV32I rv_insn_ecall) 0x00000073 0xFFFFFFFF Fmt_I (\<lambda>_. True),
     Row (RV32I rv_insn_ebreak) 0x00100073 0xFFFFFFFF Fmt_I (\<lambda>_. True),
     Row (RVPriv rv_insn_wfi) 0x10500073 0xFFFFFFFF Fmt_I (\<lambda>_. True),
     Row (RVPriv rv_insn_mret) 0x30200073 0xFFFFFFFF Fmt_I (\<lambda>_. True),
     Row (RVPriv rv_insn_sret) 0x10200073 0xFFFFFFFF Fmt_I SYSTEM,
     Row (RVPriv rv_insn_sfencevma) 0x12000073 0xFE007FFF Fmt_I (\<lambda>_. True)]"

definition csr_rows :: "isa_row list" where
  "csr_rows = [
     Row (RVZicsr rv_insn_csrrw) 0x00001073 0x0000707F Fmt_I Zicsr,
     Row (RVZicsr rv_insn_csrrs) 0x00002073 0x0000707F Fmt_I Zicsr,
     Row (RVZicsr rv_insn_csrrc) 0x00003073 0x0000707F Fmt_I Zicsr,
     Row (RVZicsr rv_insn_csrrwi) 0x00005073 0x0000707F Fmt_I Zicsr,
     Row (RVZicsr rv_insn_csrrsi) 0x00006073 0x0000707F Fmt_I Zicsr,
     Row (RVZicsr rv_insn_csrrci) 0x00007073 0x0000707F Fmt_I Zicsr]"

definition amo_rows :: "isa_row list" where
  "amo_rows = [
     Row (RV32A rv_insn_lrw) 0x1000202F 0xF9F0707F Fmt_R EXT_A,
     Row (RV32A rv_insn_scw) 0x1800202F 0xF800707F Fmt_R EXT_A,
     Row (RV32A rv_insn_amoswapw) 0x0800202F 0xF800707F Fmt_R EXT_A,
     Row (RV32A rv_insn_amoaddw) 0x0000202F 0xF800707F Fmt_R EXT_A,
     Row (RV32A rv_insn_amoxorw) 0x2000202F 0xF800707F Fmt_R EXT_A,
     Row (RV32A rv_insn_amoandw) 0x6000202F 0xF800707F Fmt_R EXT_A,
     Row (RV32A rv_insn_amoorw) 0x4000202F 0xF800707F Fmt_R EXT_A,
     Row (RV32A rv_insn_amominw) 0x8000202F 0xF800707F Fmt_R EXT_A,
     Row (RV32A rv_insn_amomaxw) 0xA000202F 0xF800707F Fmt_R EXT_A,
     Row (RV32A rv_insn_amominuw) 0xC000202F 0xF800707F Fmt_R EXT_A,
     Row (RV32A rv_insn_amomaxuw) 0xE000202F 0xF800707F Fmt_R EXT_A]"

definition load_fp_rows :: "isa_row list" where
  "load_fp_rows = [
     Row (RV32F rv_insn_flw) 0x00002007 0x0000707F Fmt_I EXT_F]"

definition store_fp_rows :: "isa_row list" where
  "store_fp_rows = [
     Row (RV32F rv_insn_fsw) 0x00002027 0x0000707F Fmt_S EXT_F]"

definition fmadd_rows :: "isa_row list" where
  "fmadd_rows = [
     Row (RV32F rv_insn_fmadds) 0x00000043 0x0600007F Fmt_R4 EXT_F]"

definition fmsub_rows :: "isa_row list" where
  "fmsub_rows = [
     Row (RV32F rv_insn_fmsubs) 0x00000047 0x0600007F Fmt_R4 EXT_F]"

definition fnmsub_rows :: "isa_row list" where
  "fnmsub_rows = [
     Row (RV32F rv_insn_fnmsubs) 0x0000004B 0x0600007F Fmt_R4 EXT_F]"

definition fnmadd_rows :: "isa_row list" where
  "fnmadd_rows = [
     Row (RV32F rv_insn_fnmadds) 0x0000004F 0x0600007F Fmt_R4 EXT_F]"

definition fp_arith_rows :: "isa_row list" where
  "fp_arith_rows = [
     Row (RV32F rv_insn_fadds) 0x00000053 0xFE00007F Fmt_R_rm EXT_F,
     Row (RV32F rv_insn_fsubs) 0x08000053 0xFE00007F Fmt_R_rm EXT_F,
     Row (RV32F rv_insn_fmuls) 0x10000053 0xFE00007F Fmt_R_rm EXT_F,
     Row (RV32F rv_insn_fdivs) 0x18000053 0xFE00007F Fmt_R_rm EXT_F]"

definition fp_cvt_rows :: "isa_row list" where
  "fp_cvt_rows = [
     Row (RV32F rv_insn_fsqrts) 0x58000053 0xFFF0007F Fmt_R_rm EXT_F,
     Row (RV32F rv_insn_fcvtws) 0xC0000053 0xFFF0007F Fmt_R_rm EXT_F,
     Row (RV32F rv_insn_fcvtwus) 0xC0100053 0xFFF0007F Fmt_R_rm EXT_F,
     Row (RV32F rv_insn_fcvtsw) 0xD0000053 0xFFF0007F Fmt_R_rm EXT_F,
     Row (RV32F rv_insn_fcvtswu) 0xD0100053 0xFFF0007F Fmt_R_rm EXT_F]"

definition fp_rm_rows :: "isa_row list" where
  "fp_rm_rows = [
     Row (RV32F rv_insn_fsgnjs) 0x20000053 0xFE00707F Fmt_R_rm EXT_F,
     Row (RV32F rv_insn_fsgnjns) 0x20001053 0xFE00707F Fmt_R_rm EXT_F,
     Row (RV32F rv_insn_fsgnjxs) 0x20002053 0xFE00707F Fmt_R_rm EXT_F,
     Row (RV32F rv_insn_fmins) 0x28000053 0xFE00707F Fmt_R_rm EXT_F,
     Row (RV32F rv_insn_fmaxs) 0x28001053 0xFE00707F Fmt_R_rm EXT_F,
     Row (RV32F rv_insn_feqs) 0xA0002053 0xFE00707F Fmt_R_rm EXT_F,
     Row (RV32F rv_insn_flts) 0xA0001053 0xFE00707F Fmt_R_rm EXT_F,
     Row (RV32F rv_insn_fles) 0xA0000053 0xFE00707F Fmt_R_rm EXT_F,
     Row (RV32F rv_insn_fmvxw) 0xE0000053 0xFFF0707F Fmt_R_rm EXT_F,
     Row (RV32F rv_insn_fclasss) 0xE0001053 0xFFF0707F Fmt_R_rm EXT_F,
     Row (RV32F rv_insn_fmvwx) 0xF0000053 0xFFF0707F Fmt_R_rm EXT_F]"

definition isa_table :: "isa_row list" where
  "isa_table = load_rows @ store_rows @ branch_rows @ op_imm_rows @ shift_imm_rows @ unary_imm_rows @ op_rows @ lui_rows @ auipc_rows @ jal_rows @ jalr_rows @ misc_mem_rows @ system_rows @ csr_rows @ amo_rows @ load_fp_rows @ store_fp_rows @ fmadd_rows @ fmsub_rows @ fnmsub_rows @ fnmadd_rows @ fp_arith_rows @ fp_cvt_rows @ fp_rm_rows"

text \<open>The IR the tables call for: the operands of the format, and the opcode. An
  instruction that only writes \<^verbatim>\<open>x0\<close> is a NOP.\<close>

definition operands_I :: "rv_insn \<Rightarrow> u32 \<Rightarrow> rv_insn" where
  "operands_I ir insn = ir\<lparr>ir_imm := scast (imm_i insn), ir_rs1 := reg_field insn 15,
     ir_rd := reg_field insn 7\<rparr>"

definition operands_R :: "rv_insn \<Rightarrow> u32 \<Rightarrow> rv_insn" where
  "operands_R ir insn = ir\<lparr>ir_rs2 := reg_field insn 20, ir_rs1 := reg_field insn 15,
     ir_rd := reg_field insn 7\<rparr>"

definition operands_SB :: "u32 \<Rightarrow> rv_insn \<Rightarrow> u32 \<Rightarrow> rv_insn" where
  "operands_SB imm ir insn = ir\<lparr>ir_imm := imm, ir_rs2 := reg_field insn 20,
     ir_rs1 := reg_field insn 15\<rparr>"

definition operands_UJ :: "u32 \<Rightarrow> rv_insn \<Rightarrow> u32 \<Rightarrow> rv_insn" where
  "operands_UJ imm ir insn = ir\<lparr>ir_imm := imm, ir_rd := reg_field insn 7\<rparr>"

definition set_rm :: "rv_insn \<Rightarrow> u32 \<Rightarrow> rv_insn" where
  "set_rm ir insn = ir\<lparr>ir_rm := ucast (bits insn 12 :: 3 word)\<rparr>"

fun spec_operands :: "fmt \<Rightarrow> rv_insn \<Rightarrow> u32 \<Rightarrow> rv_insn" where
  "spec_operands Fmt_none ir insn = ir"
| "spec_operands Fmt_I ir insn = operands_I ir insn"
| "spec_operands Fmt_I_rd ir insn = operands_I ir insn"
| "spec_operands Fmt_S ir insn = operands_SB (scast (imm_s insn)) ir insn"
| "spec_operands Fmt_B ir insn = operands_SB (scast (imm_b insn)) ir insn"
| "spec_operands Fmt_U_rd ir insn = operands_UJ (push_bit 12 (ucast (imm_u insn))) ir insn"
| "spec_operands Fmt_J ir insn = operands_UJ (scast (imm_j insn)) ir insn"
| "spec_operands Fmt_R ir insn = operands_R ir insn"
| "spec_operands Fmt_R_rd ir insn = operands_R ir insn"
| "spec_operands Fmt_R_rm ir insn = operands_R (set_rm ir insn) insn"
| "spec_operands Fmt_R4 ir insn =
     set_rs3 (reg_field insn 27) (operands_R (set_rm ir insn) insn)"

definition spec_ir :: "isa_row \<Rightarrow> rv_insn \<Rightarrow> u32 \<Rightarrow> rv_insn" where
  "spec_ir r ir insn =
     (spec_operands (row_fmt r) ir insn)\<lparr>ir_opcode :=
        (if row_fmt r \<in> {Fmt_I_rd, Fmt_R_rd, Fmt_U_rd} \<and> reg_field insn 7 = 0
         then RV32I rv_insn_nop else row_op r)\<rparr>"

section \<open>Fields of an instruction that matches a row\<close>

lemma field_of_match:
  fixes insn :: u32
  assumes "insn AND msk = match" "F AND msk = F"
  shows "insn AND F = match AND F"
  using assms by (metis and.assoc and.commute)

text \<open>The decoders of the formats, restated over the slices.\<close>

lemma format_specs:
  "decode_itype ir insn = operands_I ir insn"
  "decode_rtype ir insn = operands_R ir insn"
  "decode_stype ir insn = operands_SB (scast (imm_s insn)) ir insn"
  "decode_btype ir insn = operands_SB (scast (imm_b insn)) ir insn"
  "decode_utype ir insn = operands_UJ (push_bit 12 (ucast (imm_u insn))) ir insn"
  "decode_jtype ir insn = operands_UJ (scast (imm_j insn)) ir insn"
  "decode_r4type ir insn = set_rs3 (reg_field insn 27) (operands_R (set_rm ir insn) insn)"
  "ir\<lparr>ir_rm := ucast (decode_funct3 insn)\<rparr> = set_rm ir insn"
  by (simp_all add: format_defs decode_field_specs operands_I_def operands_R_def operands_SB_def
      operands_UJ_def set_rm_def set_rs3_def)

lemma operands_sel [simp]:
  "ir_rd (operands_I ir insn) = reg_field insn 7"
  "ir_imm (operands_I ir insn) = scast (imm_i insn)"
  "ir_rs1 (operands_I ir insn) = reg_field insn 15"
  "ir_rd (operands_R ir insn) = reg_field insn 7"
  "ir_rs2 (operands_R ir insn) = reg_field insn 20"
  "ir_rm (operands_R ir insn) = ir_rm ir"
  "ir_rm (set_rm ir insn) = ucast (bits insn 12 :: 3 word)"
  "ir_rd (operands_UJ imm ir insn) = reg_field insn 7"
  by (simp_all add: operands_I_def operands_R_def operands_UJ_def set_rm_def)

lemmas switch_simps = switch_opcode_def set_opcode_def spec_ir_def

definition row_matches :: "isa_row \<Rightarrow> u32 \<Rightarrow> bool" where
  "row_matches r insn \<longleftrightarrow> insn AND row_mask r = row_match r"

text \<open>What all rows of one table fix: the major opcode, and possibly the function fields.\<close>

definition rows_fix :: "u32 \<Rightarrow> isa_row list \<Rightarrow> bool" where
  "rows_fix F rows \<longleftrightarrow> list_all (\<lambda>r. F AND row_mask r = F) rows"

lemma rows_fixD:
  assumes "r \<in> set rows" "row_matches r insn" "rows_fix F rows"
  shows "insn AND F = row_match r AND F"
  using assms field_of_match [of insn "row_mask r" "row_match r" F]
  by (auto simp: rows_fix_def row_matches_def list_all_iff)

lemma rows_funct3:
  "r \<in> set rows \<Longrightarrow> row_matches r insn \<Longrightarrow> rows_fix FR_FUNCT3 rows \<Longrightarrow>
   decode_funct3 insn = decode_funct3 (row_match r)"
  by (simp add: decode_funct3_def rows_fixD)

lemma rows_funct7:
  "r \<in> set rows \<Longrightarrow> row_matches r insn \<Longrightarrow> rows_fix FR_FUNCT7 rows \<Longrightarrow>
   decode_funct7 insn = decode_funct7 (row_match r)"
  by (simp add: decode_funct7_def rows_fixD)

lemma rows_rs2:
  assumes "r \<in> set rows" "row_matches r insn" "rows_fix FR_RS2 rows"
  shows "reg_field insn 20 = ucast (decode_rs2 (row_match r))"
  using rows_fixD [OF assms] by (simp add: decode_rs2_def flip: decode_rs2_spec)

lemma rows_rm:
  assumes "r \<in> set rows" "row_matches r insn" "rows_fix FR_FUNCT3 rows"
  shows "ucast (bits insn 12 :: 3 word) = (ucast (decode_funct3 (row_match r)) :: u8)"
  using rows_funct3 [OF assms] by (simp flip: decode_rm_spec)

text \<open>The function fields are computed on numerals only.\<close>

lemmas set_rows = list.set insert_iff empty_iff simp_thms

lemmas num_fields = decode_funct3_def [of "numeral n" for n] decode_funct7_def [of "numeral n" for n]
  decode_rs2_def [of "numeral n" for n] mask_defs

lemma op_load_rows:
  assumes "r \<in> set load_rows" "row_matches r insn"
  shows "op_load ir insn = Decoded (spec_ir r ir insn)"
proof -
  have "decode_funct3 insn = decode_funct3 (row_match r)"
    using assms by (rule rows_funct3) (simp add: rows_fix_def load_rows_def mask_defs)
  then show ?thesis
    using assms(1) unfolding load_rows_def set_rows
    by (elim disjE; simp add: op_load_def format_specs switch_simps num_fields)
qed

lemma op_store_rows:
  assumes "r \<in> set store_rows" "row_matches r insn"
  shows "op_store ir insn = Decoded (spec_ir r ir insn)"
proof -
  have "decode_funct3 insn = decode_funct3 (row_match r)"
    using assms by (rule rows_funct3) (simp add: rows_fix_def store_rows_def mask_defs)
  then show ?thesis
    using assms(1) unfolding store_rows_def set_rows
    by (elim disjE; simp add: op_store_def format_specs switch_simps num_fields)
qed

lemma op_branch_rows:
  assumes "r \<in> set branch_rows" "row_matches r insn"
  shows "op_branch ir insn = Decoded (spec_ir r ir insn)"
proof -
  have "decode_funct3 insn = decode_funct3 (row_match r)"
    using assms by (rule rows_funct3) (simp add: rows_fix_def branch_rows_def mask_defs)
  then show ?thesis
    using assms(1) unfolding branch_rows_def set_rows
    by (elim disjE; simp add: op_branch_def format_specs switch_simps num_fields)
qed

text \<open>OP-IMM: the shifts and the bit-manipulation instructions are told apart by the upper
  immediate bits, which are \<^verbatim>\<open>funct7\<close>.\<close>

lemma op_imm_rows_decode:
  assumes "r \<in> set op_imm_rows" "row_matches r insn"
  shows "op_op_imm cfg ir insn = Decoded (spec_ir r ir insn)"
proof -
  have "decode_funct3 insn = decode_funct3 (row_match r)"
    using assms by (rule rows_funct3) (simp add: rows_fix_def op_imm_rows_def mask_defs)
  then show ?thesis
    using assms(1) unfolding op_imm_rows_def set_rows
    by (elim disjE; simp add: op_op_imm_def format_specs switch_simps num_fields Let_def)
qed

lemma imm_upper_bits: "sar 5 (scast (imm_i insn)) = sar 25 (insn AND FR_FUNCT7)"
  by (rule word_eq_bits) (simp add: bitblast imm_defs mask_defs)

lemma imm_bit5: "x AND 0x20 = 0 \<longleftrightarrow> even (sar 5 x)" for x :: u32
  using and_exp_eq_0_iff_not_bit [of x 5] bit_signed_drop_bit_iff [of 5 x 0]
  by (auto simp: bit_0)

lemma imm_not_shamt: "x AND NOT 0x1F = push_bit 5 (sar 5 x)" for x :: u32
proof -
  have "x AND 0xFFFFFFE0 = push_bit 5 (sar 5 x)"
    by (rule word_eq_bits) (simp add: bitblast)
  moreover have "NOT 0x1F = (0xFFFFFFE0 :: u32)" by simp
  ultimately show ?thesis by metis
qed

lemma imm_eq_split: "x = c \<longleftrightarrow> sar 5 x = sar 5 c \<and> x AND 0x1F = c AND 0x1F" for x c :: u32
proof
  assume eq: "sar 5 x = sar 5 c \<and> x AND 0x1F = c AND 0x1F"
  have "push_bit 5 (sar 5 y) OR (y AND 0x1F) = y" for y :: u32
    by (rule word_eq_bits) (simp add: bitblast)
  then show "x = c" using eq by metis
qed simp

lemmas imm_eq_consts = imm_eq_split [of _ "0x600"] imm_eq_split [of _ "0x601"]
  imm_eq_split [of _ "0x602"] imm_eq_split [of _ "0x604"] imm_eq_split [of _ "0x605"]
  imm_eq_split [of _ "0x287"] imm_eq_split [of _ "0x698"]

lemma shift_imm_rows_decode:
  assumes "r \<in> set shift_imm_rows" "row_feat r cfg" "row_matches r insn"
  shows "op_op_imm cfg ir insn = Decoded (spec_ir r ir insn)"
proof -
  have f3: "decode_funct3 insn = decode_funct3 (row_match r)"
    using assms(1,3) by (rule rows_funct3) (simp add: rows_fix_def shift_imm_rows_def mask_defs)
  have "insn AND FR_FUNCT7 = row_match r AND FR_FUNCT7"
    using assms(1,3) by (rule rows_fixD) (simp add: rows_fix_def shift_imm_rows_def mask_defs)
  then have up: "sar 5 (scast (imm_i insn)) = sar 25 (row_match r AND FR_FUNCT7)"
    by (simp add: imm_upper_bits)
  show ?thesis
    using assms(1,2) f3 up unfolding shift_imm_rows_def set_rows
    by (elim disjE; simp add: op_op_imm_def format_specs switch_simps num_fields Let_def
        imm_bit5 imm_not_shamt [simplified] imm_eq_consts)
qed

lemma unary_imm_rows_decode:
  assumes "r \<in> set unary_imm_rows" "row_feat r cfg" "row_matches r insn"
  shows "op_op_imm cfg ir insn = Decoded (spec_ir r ir insn)"
proof -
  have f3: "decode_funct3 insn = decode_funct3 (row_match r)"
    using assms(1,3) by (rule rows_funct3) (simp add: rows_fix_def unary_imm_rows_def mask_defs)
  have "insn AND FI_IMM_11_0 = row_match r AND FI_IMM_11_0"
    using assms(1,3) by (rule rows_fixD) (simp add: rows_fix_def unary_imm_rows_def mask_defs)
  then have imm: "scast (imm_i insn) = sar 20 (row_match r AND FI_IMM_11_0)"
    by (simp add: decode_itype_imm_def flip: decode_itype_imm_spec)
  show ?thesis
    using assms(1,2) f3 imm unfolding unary_imm_rows_def set_rows
    by (elim disjE; simp add: op_op_imm_def format_specs switch_simps num_fields Let_def)
qed

lemma op_rows_decode:
  assumes "r \<in> set op_rows" "row_feat r cfg" "row_matches r insn"
  shows "op_op cfg ir insn = Decoded (spec_ir r ir insn)"
proof -
  have f3: "decode_funct3 insn = decode_funct3 (row_match r)"
    using assms(1,3) by (rule rows_funct3) (simp add: rows_fix_def op_rows_def mask_defs)
  have f7: "decode_funct7 insn = decode_funct7 (row_match r)"
    using assms(1,3) by (rule rows_funct7) (simp add: rows_fix_def op_rows_def mask_defs)
  have rs2: "reg_field insn 20 = 0" if "row_op r = RVZbb rv_insn_zexth"
    using that assms(1,3) rows_rs2 [of r "[r]" insn]
    by (auto simp: op_rows_def rows_fix_def num_fields)
  show ?thesis
    using assms(1,2) f3 f7 rs2 unfolding op_rows_def set_rows
    by (elim disjE; simp add: op_op_def format_specs switch_simps num_fields Let_def)
qed

text \<open>The remaining base opcodes.\<close>

lemma op_misc_mem_rows:
  assumes "r \<in> set misc_mem_rows" "row_feat r cfg" "row_matches r insn"
  shows "op_misc_mem cfg ir insn = Decoded (spec_ir r ir insn)"
proof -
  have f3: "decode_funct3 insn = decode_funct3 (row_match r)"
    using assms(1,3) by (rule rows_funct3) (simp add: rows_fix_def misc_mem_rows_def mask_defs)
  show ?thesis
    using assms(1,2) f3 unfolding misc_mem_rows_def set_rows
    by (elim disjE; simp add: op_misc_mem_def format_specs switch_simps num_fields)
qed

text \<open>A CSR instruction is accepted when the sign-extended CSR number is below
  \<^verbatim>\<open>0xC00\<close>, that is for the CSRs below \<^verbatim>\<open>0x800\<close>, or when its
  \<^verbatim>\<open>rs1\<close> field is zero.\<close>

definition csr_accepted :: "u32 \<Rightarrow> bool" where
  "csr_accepted insn \<longleftrightarrow> csr_is_writable (scast (imm_i insn)) \<or> reg_field insn 15 = 0"

lemma op_system_csr_rows:
  assumes "r \<in> set csr_rows" "row_feat r cfg" "row_matches r insn" "csr_accepted insn"
  shows "op_system cfg ir insn = Decoded (spec_ir r ir insn)"
proof -
  have f3: "decode_funct3 insn = decode_funct3 (row_match r)"
    using assms(1,3) by (rule rows_funct3) (simp add: rows_fix_def csr_rows_def mask_defs)
  show ?thesis
    using assms(1,2,4) f3 unfolding csr_rows_def set_rows csr_accepted_def
    by (elim disjE; simp add: op_system_def csr_check_def format_specs switch_simps num_fields Let_def)
qed

lemma decode_funct7_top: "drop_bit 25 insn = decode_funct7 insn"
  by (rule word_eq_bits) (simp add: bitblast field_defs mask_defs)

lemma word_split_below: "x AND NOT 0x1F = c \<Longrightarrow> c \<le> 0xBE0 \<Longrightarrow> x < 0xC00" for x :: u32
proof -
  assume c: "x AND NOT 0x1F = c" "c \<le> 0xBE0"
  have "x AND 0x1F \<le> 0x1F" by (rule word_and_le1)
  moreover have "(x AND NOT m) + (x AND m) = x" for m
    by (subst disjunctive_add) (auto simp: bit_eq_iff bit_simps)
  then have "x = c + (x AND 0x1F)"
    using c(1) by metis
  ultimately show "x < 0xC00"
    using c(2) by unat_arith
qed

lemma op_system_rows:
  assumes "r \<in> set system_rows" "row_feat r cfg" "row_matches r insn"
  shows "op_system cfg ir insn = Decoded (spec_ir r ir insn)"
proof -
  have f3: "decode_funct3 insn = decode_funct3 (row_match r)"
    using assms(1,3) by (rule rows_funct3) (simp add: rows_fix_def system_rows_def mask_defs)
  have f7: "insn AND FR_FUNCT7 = row_match r AND FR_FUNCT7"
    using assms(1,3) by (rule rows_fixD) (simp add: rows_fix_def system_rows_def mask_defs)
  then have top: "drop_bit 25 insn = drop_bit 25 (row_match r AND FR_FUNCT7)"
    by (metis decode_funct7_top decode_funct7_def)
  have "scast (imm_i insn) AND NOT 0x1F = push_bit 5 (sar 25 (row_match r AND FR_FUNCT7))"
    by (simp only: imm_not_shamt imm_upper_bits f7)
  then have w: "csr_is_writable (scast (imm_i insn))"
    using assms(1) unfolding csr_is_writable_def
    by (intro word_split_below) (auto simp: system_rows_def num_fields)
  have imm: "scast (imm_i insn) = sar 20 (row_match r AND FI_IMM_11_0)"
    if "row_op r \<noteq> RVPriv rv_insn_sfencevma"
    using that assms(1,3) rows_fixD [of r "[r]" insn FI_IMM_11_0]
    by (simp add: decode_itype_imm_def flip: decode_itype_imm_spec)
       (auto simp: system_rows_def rows_fix_def num_fields)
  show ?thesis
    using assms(1,2) f3 top w imm unfolding system_rows_def set_rows
    by (elim disjE; simp add: op_system_def csr_check_def format_specs switch_simps num_fields Let_def)
qed

section \<open>Atomics and floating point\<close>

lemma funct5_top: "drop_bit 2 (decode_funct7 insn) AND 0x1F = drop_bit 27 (insn AND 0xF8000000)"
  by (rule word_eq_bits) (simp add: bitblast field_defs mask_defs)

lemma op_amo_rows:
  assumes "r \<in> set amo_rows" "row_matches r insn"
  shows "op_amo ir insn = Decoded (spec_ir r ir insn)"
proof -
  have "insn AND 0xF8000000 = row_match r AND 0xF8000000"
    using assms by (rule rows_fixD) (simp add: rows_fix_def amo_rows_def)
  then have f5: "drop_bit 2 (decode_funct7 insn) AND 0x1F = drop_bit 27 (row_match r AND 0xF8000000)"
    by (simp add: funct5_top)
  show ?thesis
    using assms(1) f5 unfolding amo_rows_def set_rows
    by (elim disjE; simp add: op_amo_def format_specs switch_simps num_fields Let_def)
qed

lemma op_fp_arith_rows:
  assumes "r \<in> set fp_arith_rows" "row_matches r insn"
  shows "op_op_fp ir insn = Decoded (spec_ir r ir insn)"
proof -
  have f7: "decode_funct7 insn = decode_funct7 (row_match r)"
    using assms by (rule rows_funct7) (simp add: rows_fix_def fp_arith_rows_def mask_defs)
  show ?thesis
    using assms(1) f7 unfolding fp_arith_rows_def set_rows
    by (elim disjE; simp add: op_op_fp_def format_specs switch_simps num_fields Let_def)
qed

lemma op_fp_cvt_rows:
  assumes "r \<in> set fp_cvt_rows" "row_matches r insn"
  shows "op_op_fp ir insn = Decoded (spec_ir r ir insn)"
proof -
  have f7: "decode_funct7 insn = decode_funct7 (row_match r)"
    using assms by (rule rows_funct7) (simp add: rows_fix_def fp_cvt_rows_def mask_defs)
  have rs2: "reg_field insn 20 = ucast (decode_rs2 (row_match r))"
    using assms by (rule rows_rs2) (simp add: rows_fix_def fp_cvt_rows_def mask_defs)
  show ?thesis
    using assms(1) f7 rs2 unfolding fp_cvt_rows_def set_rows
    by (elim disjE; simp add: op_op_fp_def format_specs switch_simps num_fields Let_def)
qed

lemma op_fp_rm_rows:
  assumes "r \<in> set fp_rm_rows" "row_matches r insn"
  shows "op_op_fp ir insn = Decoded (spec_ir r ir insn)"
proof -
  have f7: "decode_funct7 insn = decode_funct7 (row_match r)"
    using assms by (rule rows_funct7) (simp add: rows_fix_def fp_rm_rows_def mask_defs)
  have rm: "ucast (bits insn 12 :: 3 word) = (ucast (decode_funct3 (row_match r)) :: u8)"
    using assms by (rule rows_rm) (simp add: rows_fix_def fp_rm_rows_def mask_defs)
  show ?thesis
    using assms(1) f7 rm unfolding fp_rm_rows_def set_rows
    by (elim disjE; simp add: op_op_fp_def format_specs switch_simps num_fields Let_def)
qed

section \<open>The dispatch\<close>

text \<open>Both jump tables are indexed within bounds, for every instruction word.\<close>

lemma op_index_bound: "unat (op_index insn) < length rv_jump_table"
proof -
  have "op_index insn \<le> 31"
    using word_and_le1 [of "drop_bit 2 insn" 31] by (simp add: op_index_def mask_defs)
  then show ?thesis
    by (simp add: rv_jump_table_def word_le_nat_alt)
qed

lemma c_index_mask: "c_index insn = c_index insn AND 0x1F"
  by (rule word_eq_bits) (simp add: bitblast c_index_def mask_defs)

lemma c_index_bound: "unat (c_index insn) < length rvc_jump_table"
proof -
  have "c_index insn \<le> 31"
    using word_and_le1 [of "c_index insn" 31] c_index_mask [of insn] by simp
  then show ?thesis
    by (simp add: rvc_jump_table_def word_le_nat_alt)
qed

text \<open>The rows grouped with the entry of the jump table that handles them.\<close>

definition row_groups :: "(op_name \<times> isa_row list) list" where
  "row_groups = [(OP_load, load_rows), (OP_store, store_rows), (OP_branch, branch_rows),
     (OP_op_imm, op_imm_rows @ shift_imm_rows @ unary_imm_rows), (OP_op, op_rows),
     (OP_lui, lui_rows), (OP_auipc, auipc_rows), (OP_jal, jal_rows), (OP_jalr, jalr_rows),
     (OP_misc_mem, misc_mem_rows), (OP_system, system_rows @ csr_rows), (OP_amo, amo_rows),
     (OP_load_fp, load_fp_rows), (OP_store_fp, store_fp_rows), (OP_madd, fmadd_rows),
     (OP_msub, fmsub_rows), (OP_nmsub, fnmsub_rows), (OP_nmadd, fnmadd_rows),
     (OP_op_fp, fp_arith_rows @ fp_cvt_rows @ fp_rm_rows)]"

lemmas rows_defs = load_rows_def store_rows_def branch_rows_def op_imm_rows_def shift_imm_rows_def
  unary_imm_rows_def op_rows_def lui_rows_def auipc_rows_def jal_rows_def jalr_rows_def
  misc_mem_rows_def system_rows_def csr_rows_def amo_rows_def load_fp_rows_def store_fp_rows_def
  fmadd_rows_def fmsub_rows_def fnmsub_rows_def fnmadd_rows_def fp_arith_rows_def fp_cvt_rows_def
  fp_rm_rows_def

lemma isa_table_groups: "set isa_table = (\<Union>(op, rows) \<in> set row_groups. set rows)"
  by (auto simp: isa_table_def row_groups_def)

definition group_ok :: "op_name \<times> isa_row list \<Rightarrow> bool" where
  "group_ok g \<longleftrightarrow> list_all (\<lambda>r. 0x7F AND row_mask r = 0x7F \<and> row_match r AND FC_OPCODE = 3 \<and>
     rv_jump_table ! unat (op_index (row_match r)) = fst g) (snd g)"

lemma row_groups_ok: "list_all group_ok row_groups"
  unfolding row_groups_def list.pred_inject
  by (simp add: group_ok_def rows_defs op_index_def mask_defs rv_jump_table_def)

lemma row_dispatch:
  assumes "(op, rows) \<in> set row_groups" "r \<in> set rows" "row_matches r insn"
  shows "\<not> is_compressed insn" "rv_jump_table ! unat (op_index insn) = op"
proof -
  have ok: "0x7F AND row_mask r = 0x7F" "row_match r AND FC_OPCODE = 3"
    "rv_jump_table ! unat (op_index (row_match r)) = op"
    using row_groups_ok assms(1,2) by (auto simp: list_all_iff group_ok_def)
  have m: "insn AND 0x7F = row_match r AND 0x7F"
    using assms(3) ok(1) by (intro field_of_match) (simp_all add: row_matches_def)
  have "insn AND FC_OPCODE = (insn AND 0x7F) AND FC_OPCODE" "insn AND INSN_6_2 = (insn AND 0x7F) AND INSN_6_2"
    by (simp_all add: and.assoc mask_defs)
  then have "insn AND FC_OPCODE = row_match r AND FC_OPCODE" "insn AND INSN_6_2 = row_match r AND INSN_6_2"
    unfolding m by (simp_all add: and.assoc mask_defs)
  then show "\<not> is_compressed insn" "rv_jump_table ! unat (op_index insn) = op"
    using ok(2,3) by (simp_all add: is_compressed_def op_index_def)
qed

lemma run_op_rows:
  assumes g: "(op, rows) \<in> set row_groups" and r: "r \<in> set rows" "row_feat r cfg" "row_matches r insn"
    and csr: "r \<in> set csr_rows \<Longrightarrow> csr_accepted insn"
  shows "run_op cfg op ir insn = Decoded (spec_ir r ir insn)"
proof -
  have one: "op_lui ir insn = Decoded (spec_ir r ir insn)" if "r \<in> set lui_rows"
    using that by (simp add: lui_rows_def op_lui_def format_specs switch_simps Let_def)
  moreover have "op_auipc ir insn = Decoded (spec_ir r ir insn)" if "r \<in> set auipc_rows"
    using that by (simp add: auipc_rows_def op_auipc_def format_specs switch_simps Let_def)
  moreover have "op_jal ir insn = Decoded (spec_ir r ir insn)" if "r \<in> set jal_rows"
    using that by (simp add: jal_rows_def op_jal_def format_specs switch_simps)
  moreover have "op_jalr ir insn = Decoded (spec_ir r ir insn)" if "r \<in> set jalr_rows"
    using that by (simp add: jalr_rows_def op_jalr_def format_specs switch_simps)
  moreover have "EXT_F cfg \<and> op_load_fp ir insn = Decoded (spec_ir r ir insn)" if "r \<in> set load_fp_rows"
    using that r(2) by (simp add: load_fp_rows_def op_load_fp_def format_specs switch_simps)
  moreover have "EXT_F cfg \<and> op_store_fp ir insn = Decoded (spec_ir r ir insn)" if "r \<in> set store_fp_rows"
    using that r(2) by (simp add: store_fp_rows_def op_store_fp_def format_specs switch_simps)
  moreover have "EXT_F cfg \<and> op_madd ir insn = Decoded (spec_ir r ir insn)" if "r \<in> set fmadd_rows"
    using that r(2) by (simp add: fmadd_rows_def op_madd_def format_specs switch_simps)
  moreover have "EXT_F cfg \<and> op_msub ir insn = Decoded (spec_ir r ir insn)" if "r \<in> set fmsub_rows"
    using that r(2) by (simp add: fmsub_rows_def op_msub_def format_specs switch_simps)
  moreover have "EXT_F cfg \<and> op_nmsub ir insn = Decoded (spec_ir r ir insn)" if "r \<in> set fnmsub_rows"
    using that r(2) by (simp add: fnmsub_rows_def op_nmsub_def format_specs switch_simps)
  moreover have "EXT_F cfg \<and> op_nmadd ir insn = Decoded (spec_ir r ir insn)" if "r \<in> set fnmadd_rows"
    using that r(2) by (simp add: fnmadd_rows_def op_nmadd_def format_specs switch_simps)
  moreover have "EXT_A cfg" if "r \<in> set amo_rows"
    using that r(2) by (auto simp: amo_rows_def)
  moreover have "EXT_F cfg" if "r \<in> set (fp_arith_rows @ fp_cvt_rows @ fp_rm_rows)"
    using that r(2) by (auto simp: fp_arith_rows_def fp_cvt_rows_def fp_rm_rows_def)
  moreover note op_load_rows op_store_rows op_branch_rows op_imm_rows_decode shift_imm_rows_decode
    unary_imm_rows_decode op_rows_decode op_misc_mem_rows op_system_rows op_system_csr_rows op_amo_rows
    op_fp_arith_rows op_fp_cvt_rows op_fp_rm_rows
  ultimately show ?thesis
    using g r csr unfolding row_groups_def set_rows prod.inject
    by (elim disjE conjE) auto
qed



end
