(* ===== verification/RV_Decode_C.thy ===== *)
theory RV_Decode_C
  imports RV_Decode_Spec
begin

text \<open>
  The 16-bit encodings of the C extension: the scattered immediates written as in the
  specification, the encoding table, and the proof that \<^verbatim>\<open>rv_decode\<close> follows it.
\<close>

unbundle bit_operations_syntax

section \<open>Scattered immediates\<close>

text \<open>
  The specification writes an immediate as the list of the positions its bits go to, read
  from an instruction bit downwards: \<^verbatim>\<open>imm[11|4|9:8|10|6|7|3:1|5]\<close> at
  \<^verbatim>\<open>inst[12:2]\<close>.
\<close>

primrec place :: "u32 \<Rightarrow> nat \<Rightarrow> nat list \<Rightarrow> u32" where
  "place insn hi [] = 0"
| "place insn hi (p # ps) = push_bit p (of_bool (bit insn hi)) OR place insn (hi - 1) ps"

definition sext :: "nat \<Rightarrow> u32 \<Rightarrow> u32" where
  "sext k w = sar (32 - k) (push_bit (32 - k) w)"

definition c_imm6 :: "u32 \<Rightarrow> u32" where
  "c_imm6 insn = place insn 12 [5] OR place insn 6 [4, 3, 2, 1, 0]"

definition c_imm_addi4spn :: "u32 \<Rightarrow> u32" where
  "c_imm_addi4spn insn = place insn 12 [5, 4, 9, 8, 7, 6, 2, 3]"

definition c_imm_addi16sp :: "u32 \<Rightarrow> u32" where
  "c_imm_addi16sp insn = place insn 12 [9] OR place insn 6 [4, 6, 8, 7, 5]"

definition c_imm_lui :: "u32 \<Rightarrow> u32" where
  "c_imm_lui insn = place insn 12 [17] OR place insn 6 [16, 15, 14, 13, 12]"

definition c_imm_j :: "u32 \<Rightarrow> u32" where
  "c_imm_j insn = place insn 12 [11, 4, 9, 8, 10, 6, 7, 3, 2, 1, 5]"

definition c_imm_b :: "u32 \<Rightarrow> u32" where
  "c_imm_b insn = place insn 12 [8, 4, 3] OR place insn 6 [7, 6, 2, 1, 5]"

definition c_imm_lwsp :: "u32 \<Rightarrow> u32" where
  "c_imm_lwsp insn = place insn 12 [5] OR place insn 6 [4, 3, 2, 7, 6]"

definition c_imm_swsp :: "u32 \<Rightarrow> u32" where
  "c_imm_swsp insn = place insn 12 [5, 4, 3, 2, 7, 6]"

definition c_imm_lw :: "u32 \<Rightarrow> u32" where
  "c_imm_lw insn = place insn 12 [5, 4, 3] OR place insn 6 [2, 6]"

text \<open>The register fields: five bits, or three bits that name x8 to x15.\<close>

definition c_reg :: "u32 \<Rightarrow> nat \<Rightarrow> u8" where
  "c_reg insn lo = ucast (bits insn lo :: 5 word)"

definition c_reg' :: "u32 \<Rightarrow> nat \<Rightarrow> u8" where
  "c_reg' insn lo = ucast (word_cat (1 :: 2 word) (bits insn lo :: 3 word) :: 5 word)"

lemmas c_imm_defs = c_imm6_def c_imm_addi4spn_def c_imm_addi16sp_def c_imm_lui_def c_imm_j_def
  c_imm_b_def c_imm_lwsp_def c_imm_swsp_def c_imm_lw_def c_reg_def c_reg'_def sext_def

abbreviation low16 :: "u32 \<Rightarrow> u16" where
  "low16 insn \<equiv> ucast (insn AND 0xFFFF)"

section \<open>The decoders compute these fields\<close>

lemma c_regs_spec:
  "ucast (c_decode_rd (low16 insn)) = c_reg insn 7" "ucast (c_decode_rs1 (low16 insn)) = c_reg insn 7"
  "ucast (c_decode_rs2 (low16 insn)) = c_reg insn 2"
  "ucast (c_decode_rs1c (low16 insn) OR 8) = c_reg' insn 7"
  "ucast (c_decode_rs2c (low16 insn) OR 8) = c_reg' insn 2"
  "ucast (c_decode_rdc (low16 insn) OR 8) = c_reg' insn 2"
  by (rule word_eq_bits, simp add: bitblast c_field_defs mask_defs c_imm_defs)+

lemma c_unsigned_imm_spec:
  "ucast (c_decode_caddi4spn_nzuimm (low16 insn)) = c_imm_addi4spn insn"
  "c_lwsp_imm (insn AND 0xFFFF) = c_imm_lwsp insn" "c_swsp_imm (insn AND 0xFFFF) = c_imm_swsp insn"
  "c_lw_imm (insn AND 0xFFFF) = c_imm_lw insn" "c_sw_imm (insn AND 0xFFFF) = c_imm_lw insn"
  by (rule word_eq_bits, simp add: bitblast c_field_defs mask_defs c_imm_defs c_lwsp_imm_def
      c_swsp_imm_def c_lw_imm_def c_sw_imm_def)+

lemma c_shamt_spec: "c_decode_cbtype_shamt (low16 insn) = ucast (c_imm6 insn)"
  by (rule word_eq_bits) (simp add: bitblast c_field_defs mask_defs c_imm_defs)

text \<open>The loop of \<^verbatim>\<open>c_decode_caddi_imm\<close>, the loops that extend the sign of the
  jump and branch offsets, and the conditional sign extensions all compute the sign-extended
  immediate.\<close>

lemma c_caddi_imm_spec: "c_decode_caddi_imm (low16 insn) = sext 6 (c_imm6 insn)"
  by (rule word_eq_bits)
     (simp add: bitblast c_decode_caddi_imm_def c_imm_defs for_loop_step sign_extend_h_def)

lemma test_bits:
  "w AND 0x20 = 0 \<longleftrightarrow> \<not> bit w 5" "w AND 0x200 = 0 \<longleftrightarrow> \<not> bit w 9" "w AND 0x20000 = 0 \<longleftrightarrow> \<not> bit w 17"
  for w :: u32
  using and_exp_eq_0_iff_not_bit [of w 5] and_exp_eq_0_iff_not_bit [of w 9]
    and_exp_eq_0_iff_not_bit [of w 17] by simp_all

lemma c_citype_imm_spec: "c_decode_citype_imm (low16 insn) = sext 6 (c_imm6 insn)"
  by (rule word_eq_bits)
     (simp add: bitblast c_decode_citype_imm_def mask_defs c_imm_defs test_bits)

lemma c_caddi16sp_imm_spec: "c_decode_caddi16sp_nzimm (low16 insn) = sext 10 (c_imm_addi16sp insn)"
  by (rule word_eq_bits)
     (simp add: bitblast c_decode_caddi16sp_nzimm_def mask_defs c_imm_defs test_bits)

lemma c_clui_imm_spec: "c_decode_clui_nzimm (low16 insn) = sext 18 (c_imm_lui insn)"
  by (rule word_eq_bits)
     (simp add: bitblast c_decode_clui_nzimm_def mask_defs c_imm_defs test_bits)

text \<open>The loop that copies bit \<^verbatim>\<open>b\<close> into the positions above it.\<close>

lemma bit_push_single: "bit (push_bit i (2 ^ b AND t)) n \<longleftrightarrow> n = b + i \<and> n < LENGTH('a) \<and> bit t b"
  for t :: "'a::len word"
proof (cases "n < LENGTH('a) \<and> i \<le> n")
  case True
  then have "bit (push_bit i (2 ^ b AND t)) n \<longleftrightarrow> n - i = b \<and> bit t b"
    by (auto simp: bit_push_bit_iff bit_and_iff bit_exp_iff)
  with True show ?thesis by auto
next
  case False
  then show ?thesis by (auto simp: bit_simps)
qed

lemma copy_loop_bits:
  fixes t0 :: "'a::len word"
  assumes "1 \<le> k"
  shows "bit (for_loop 1 k (\<lambda>i t. t OR push_bit i (2 ^ b AND t)) t0) m \<longleftrightarrow>
    bit t0 m \<or> (b < m \<and> m < b + k \<and> m < LENGTH('a) \<and> bit t0 b)"
proof -
  define Q where "Q i t \<longleftrightarrow> (\<forall>n. bit t n \<longleftrightarrow>
          bit t0 n \<or> (b < n \<and> n < b + i \<and> n < LENGTH('a) \<and> bit t0 b))" for i and t :: "'a word"
  have "Q k (for_loop 1 k (\<lambda>i t. t OR push_bit i (2 ^ b AND t)) t0)"
  proof (rule for_loop_invariant)
    show "Q 1 t0" by (auto simp: Q_def)
    show "Q (Suc i) (t OR push_bit i (2 ^ b AND t))" if "1 \<le> i" "Q i t" for i t
    proof -
      have "bit t b \<longleftrightarrow> bit t0 b" using that(2) by (simp add: Q_def)
      then show ?thesis
        using that unfolding Q_def bit_or_iff bit_push_single 
        by (metis add_Suc_right less_Suc_eq less_add_same_cancel1 less_le_trans zero_less_one)
    qed
  qed (use assms in simp)
  then show ?thesis by (simp add: Q_def)
qed
lemmas copy_loop_11 = copy_loop_bits [where b = 11, simplified]
lemmas copy_loop_8 = copy_loop_bits [where b = 8, simplified]

lemma c_cj_imm_spec: "c_decode_cjtype_imm (low16 insn) = sext 12 (c_imm_j insn)"
  by (rule word_eq_bits)
     (simp add: bitblast c_decode_cjtype_imm_def c_imm_defs copy_loop_11)

lemma c_cjal_imm_spec: "sign_extend_h (sext 12 (c_imm_j insn)) = sext 12 (c_imm_j insn)"
  by (rule word_eq_bits) (simp add: bitblast sign_extend_h_def c_imm_defs)

lemma c_cb_imm_spec: "sign_extend_h (ucast (c_decode_cbtype_imm (low16 insn))) = sext 9 (c_imm_b insn)"
  by (rule word_eq_bits)
     (simp add: bitblast c_decode_cbtype_imm_def c_imm_defs copy_loop_8 sign_extend_h_def)

lemma c_slli_imm_spec: "c_slli_imm (insn AND 0xFFFF) = c_imm6 insn"
  by (rule word_eq_bits) (simp add: bitblast mask_defs c_imm_defs c_slli_imm_def)

lemmas c_field_specs = c_regs_spec c_unsigned_imm_spec c_citype_imm_spec
  c_caddi16sp_imm_spec c_clui_imm_spec c_cj_imm_spec c_cjal_imm_spec c_cb_imm_spec
  c_caddi_imm_spec c_slli_imm_spec c_shamt_spec

section \<open>The encoding table of the C extension\<close>

text \<open>
  A row has the instruction, its match and mask, the side condition of the specification
  (register fields or immediates that must not be zero), the operands, and the extension it needs
  besides C. The compressed breakpoint is represented by the opcode of EBREAK.
\<close>

datatype c_row = CRow (c_op: opcode) (c_match: u32) (c_mask: u32) (c_cond: "u32 \<Rightarrow> bool")
  (c_operands: "rv_insn \<Rightarrow> u32 \<Rightarrow> rv_insn") (c_feat: "features \<Rightarrow> bool")

definition ops_none :: "rv_insn \<Rightarrow> u32 \<Rightarrow> rv_insn" where
  "ops_none ir insn = ir\<lparr>ir_rd := 0\<rparr>"

definition ops_iw :: "rv_insn \<Rightarrow> u32 \<Rightarrow> rv_insn" where
  "ops_iw ir insn = ir\<lparr>ir_imm := c_imm_addi4spn insn, ir_rd := c_reg' insn 2\<rparr>"

definition ops_l :: "rv_insn \<Rightarrow> u32 \<Rightarrow> rv_insn" where
  "ops_l ir insn = ir\<lparr>ir_imm := c_imm_lw insn, ir_rd := c_reg' insn 2, ir_rs1 := c_reg' insn 7\<rparr>"

definition ops_s :: "rv_insn \<Rightarrow> u32 \<Rightarrow> rv_insn" where
  "ops_s ir insn = ir\<lparr>ir_imm := c_imm_lw insn, ir_rs1 := c_reg' insn 7, ir_rs2 := c_reg' insn 2\<rparr>"

definition ops_i :: "(u32 \<Rightarrow> u32) \<Rightarrow> rv_insn \<Rightarrow> u32 \<Rightarrow> rv_insn" where
  "ops_i imm ir insn = ir\<lparr>ir_rd := c_reg insn 7, ir_imm := imm insn\<rparr>"

definition ops_j :: "rv_insn \<Rightarrow> u32 \<Rightarrow> rv_insn" where
  "ops_j ir insn = ir\<lparr>ir_imm := sext 12 (c_imm_j insn)\<rparr>"

definition ops_b :: "rv_insn \<Rightarrow> u32 \<Rightarrow> rv_insn" where
  "ops_b ir insn = ir\<lparr>ir_imm := sext 9 (c_imm_b insn), ir_rs1 := c_reg' insn 7\<rparr>"

definition ops_shift :: "rv_insn \<Rightarrow> u32 \<Rightarrow> rv_insn" where
  "ops_shift ir insn = ir\<lparr>ir_shamt := ucast (c_imm6 insn), ir_rs1 := c_reg' insn 7\<rparr>"

definition ops_andi :: "rv_insn \<Rightarrow> u32 \<Rightarrow> rv_insn" where
  "ops_andi ir insn = ir\<lparr>ir_rs1 := c_reg' insn 7, ir_imm := sext 6 (c_imm6 insn)\<rparr>"

definition ops_a :: "rv_insn \<Rightarrow> u32 \<Rightarrow> rv_insn" where
  "ops_a ir insn = ir\<lparr>ir_rs1 := c_reg' insn 7, ir_rs2 := c_reg' insn 2, ir_rd := c_reg' insn 7\<rparr>"

definition ops_r :: "rv_insn \<Rightarrow> u32 \<Rightarrow> rv_insn" where
  "ops_r ir insn = ir\<lparr>ir_rs1 := c_reg insn 7, ir_rs2 := c_reg insn 2, ir_rd := c_reg insn 7\<rparr>"

definition ops_ss :: "rv_insn \<Rightarrow> u32 \<Rightarrow> rv_insn" where
  "ops_ss ir insn = ir\<lparr>ir_imm := c_imm_swsp insn, ir_rs2 := c_reg insn 2\<rparr>"

lemmas ops_defs = ops_none_def ops_iw_def ops_l_def ops_s_def ops_i_def ops_j_def ops_b_def
  ops_shift_def ops_andi_def ops_a_def ops_r_def ops_ss_def

definition c_caddi_rows :: "c_row list" where
  "c_caddi_rows = [CRow (RV32C rv_insn_cnop) 0x0001 0xEF83 (\<lambda>_. True) ops_none (\<lambda>_. True),
       CRow (RV32C rv_insn_caddi) 0x0001 0xE003 (\<lambda>i. c_reg i 7 \<noteq> 0) (ops_i (\<lambda>i. sext 6 (c_imm6 i))) (\<lambda>_. True)]"

definition c_clui_rows :: "c_row list" where
  "c_clui_rows = [CRow (RV32C rv_insn_caddi16sp) 0x6101 0xEF83 (\<lambda>i. sext 10 (c_imm_addi16sp i) \<noteq> 0)
         (ops_i (\<lambda>i. sext 10 (c_imm_addi16sp i))) (\<lambda>_. True),
       CRow (RV32C rv_insn_clui) 0x6001 0xE003
         (\<lambda>i. c_reg i 7 \<noteq> 0 \<and> c_reg i 7 \<noteq> 2 \<and> sext 18 (c_imm_lui i) \<noteq> 0)
         (ops_i (\<lambda>i. sext 18 (c_imm_lui i))) (\<lambda>_. True)]"

definition c_cmisc_alu_rows :: "c_row list" where
  "c_cmisc_alu_rows = [CRow (RV32C rv_insn_csrli) 0x8001 0xFC03 (\<lambda>i. c_imm6 i \<noteq> 0) ops_shift (\<lambda>_. True),
       CRow (RV32C rv_insn_csrai) 0x8401 0xFC03 (\<lambda>_. True) ops_shift (\<lambda>_. True),
       CRow (RV32C rv_insn_candi) 0x8801 0xEC03 (\<lambda>_. True) ops_andi (\<lambda>_. True),
       CRow (RV32C rv_insn_csub) 0x8C01 0xFC63 (\<lambda>_. True) ops_a (\<lambda>_. True),
       CRow (RV32C rv_insn_cxor) 0x8C21 0xFC63 (\<lambda>_. True) ops_a (\<lambda>_. True),
       CRow (RV32C rv_insn_cor) 0x8C41 0xFC63 (\<lambda>_. True) ops_a (\<lambda>_. True),
       CRow (RV32C rv_insn_cand) 0x8C61 0xFC63 (\<lambda>_. True) ops_a (\<lambda>_. True)]"

definition c_ccr_rows :: "c_row list" where
  "c_ccr_rows = [CRow (RV32C rv_insn_cjr) 0x8002 0xF07F (\<lambda>i. c_reg i 7 \<noteq> 0) ops_r (\<lambda>_. True),
       CRow (RV32C rv_insn_cmv) 0x8002 0xF003 (\<lambda>i. c_reg i 7 \<noteq> 0 \<and> c_reg i 2 \<noteq> 0) ops_r (\<lambda>_. True),
       CRow (RV32I rv_insn_ebreak) 0x9002 0xFFFF (\<lambda>_. True) ops_r (\<lambda>_. True),
       CRow (RV32C rv_insn_cjalr) 0x9002 0xF07F (\<lambda>i. c_reg i 7 \<noteq> 0) ops_r (\<lambda>_. True),
       CRow (RV32C rv_insn_cadd) 0x9002 0xF003 (\<lambda>i. c_reg i 7 \<noteq> 0 \<and> c_reg i 2 \<noteq> 0) ops_r (\<lambda>_. True)]"

definition c_table :: "(c_op_name \<times> c_row list) list" where
  "c_table = [
    (OP_caddi4spn, [CRow (RV32C rv_insn_caddi4spn) 0x0000 0xE003 (\<lambda>i. c_imm_addi4spn i \<noteq> 0) ops_iw (\<lambda>_. True)]),
    (OP_clw, [CRow (RV32C rv_insn_clw) 0x4000 0xE003 (\<lambda>_. True) ops_l (\<lambda>_. True)]),
    (OP_csw, [CRow (RV32C rv_insn_csw) 0xC000 0xE003 (\<lambda>_. True) ops_s (\<lambda>_. True)]),
    (OP_cflw, [CRow (RV32FC rv_insn_cflw) 0x6000 0xE003 (\<lambda>_. True) ops_l EXT_F]),
    (OP_cfsw, [CRow (RV32FC rv_insn_cfsw) 0xE000 0xE003 (\<lambda>_. True) ops_s EXT_F]),
    (OP_caddi, c_caddi_rows),
    (OP_cjal, [CRow (RV32C rv_insn_cjal) 0x2001 0xE003 (\<lambda>_. True) ops_j (\<lambda>_. True)]),
    (OP_cli, [CRow (RV32C rv_insn_cli) 0x4001 0xE003 (\<lambda>_. True) (ops_i (\<lambda>i. sext 6 (c_imm6 i))) (\<lambda>_. True)]),
    (OP_clui, c_clui_rows),
    (OP_cmisc_alu, c_cmisc_alu_rows),
    (OP_cj, [CRow (RV32C rv_insn_cj) 0xA001 0xE003 (\<lambda>_. True) ops_j (\<lambda>_. True)]),
    (OP_cbeqz, [CRow (RV32C rv_insn_cbeqz) 0xC001 0xE003 (\<lambda>_. True) ops_b (\<lambda>_. True)]),
    (OP_cbnez, [CRow (RV32C rv_insn_cbnez) 0xE001 0xE003 (\<lambda>_. True) ops_b (\<lambda>_. True)]),
    (OP_cslli, [CRow (RV32C rv_insn_cslli) 0x0002 0xF003 (\<lambda>i. c_reg i 7 \<noteq> 0) (ops_i c_imm6) (\<lambda>_. True)]),
    (OP_clwsp, [CRow (RV32C rv_insn_clwsp) 0x4002 0xE003 (\<lambda>i. c_reg i 7 \<noteq> 0) (ops_i c_imm_lwsp) (\<lambda>_. True)]),
    (OP_cflwsp, [CRow (RV32FC rv_insn_cflwsp) 0x6002 0xE003 (\<lambda>_. True) (ops_i c_imm_lwsp) EXT_F]),
    (OP_ccr, c_ccr_rows),
    (OP_cswsp, [CRow (RV32C rv_insn_cswsp) 0xC002 0xE003 (\<lambda>_. True) ops_ss (\<lambda>_. True)]),
    (OP_cfswsp, [CRow (RV32FC rv_insn_cfswsp) 0xE002 0xE003 (\<lambda>_. True) ops_ss EXT_F])]"

definition c_row_matches :: "c_row \<Rightarrow> u32 \<Rightarrow> bool" where
  "c_row_matches r insn \<longleftrightarrow> insn AND c_mask r = c_match r \<and> c_cond r insn"

definition c_spec_ir :: "c_row \<Rightarrow> rv_insn \<Rightarrow> u32 \<Rightarrow> rv_insn" where
  "c_spec_ir r ir insn = (c_operands r ir insn)\<lparr>ir_opcode := c_op r\<rparr>"

section \<open>Rows and the decoder functions\<close>

lemma bit_of_match:
  fixes insn :: u32
  shows "insn AND k = m \<Longrightarrow> bit k n \<Longrightarrow> bit insn n = bit m n"
  by (auto simp: bit_and_iff)

lemma c_reg_of_match:
  "insn AND k = m \<Longrightarrow> 0xF80 AND k = 0xF80 \<Longrightarrow> c_reg insn 7 = c_reg m 7"
  "insn AND k = m \<Longrightarrow> 0x7C AND k = 0x7C \<Longrightarrow> c_reg insn 2 = c_reg m 2"
proof -
  have "c_reg w 7 = ucast (drop_bit 7 (w AND 0xF80))" "c_reg w 2 = ucast (drop_bit 2 (w AND 0x7C))" for w
    by (rule word_eq_bits, simp add: bitblast c_reg_def)+
  then show "insn AND k = m \<Longrightarrow> 0xF80 AND k = 0xF80 \<Longrightarrow> c_reg insn 7 = c_reg m 7"
    "insn AND k = m \<Longrightarrow> 0x7C AND k = 0x7C \<Longrightarrow> c_reg insn 2 = c_reg m 2"
    by (metis field_of_match)+
qed

lemma low_field_of_match:
  "insn AND k = m \<Longrightarrow> F AND k = F \<Longrightarrow> 0xFFFF AND F = F \<Longrightarrow> (insn AND 0xFFFF) AND F = m AND F"
  for insn :: u32
  by (metis and.assoc field_of_match)

text \<open>C.SRAI takes its register from the five-bit field; since the two upper bits of that field
  are the \<^verbatim>\<open>funct2\<close> code 01 the result is the register x8..x15 of the three-bit
  field.\<close>

lemma csrai_reg: "insn AND 0xFC03 = 0x8401 \<Longrightarrow> c_reg insn 7 = c_reg' insn 7"
  using bit_of_match [of insn "0xFC03" "0x8401" 10] bit_of_match [of insn "0xFC03" "0x8401" 11]
  by (intro word_eq_bits) (simp add: bitblast c_imm_defs)

lemma c_shamt_bit5: "insn AND 0xFC03 = m \<Longrightarrow> \<not> bit m 12 \<Longrightarrow> (ucast (c_imm6 insn) :: u8) AND 0x20 = 0"
  using bit_of_match [of insn "0xFC03" m 12]
  by (intro word_eq_bits) (simp add: bitblast c_imm_defs)

lemma c_shamt_nonzero: "(ucast (c_imm6 insn) :: u8) = 0 \<longleftrightarrow> c_imm6 insn = 0"
proof -
  have "ucast (ucast (c_imm6 insn) :: u8) = c_imm6 insn"
    by (rule word_eq_bits) (simp add: bitblast c_imm_defs)
  then show ?thesis by (metis unsigned_0)
qed

lemma c_reg'_nonzero: "c_reg' insn k \<noteq> 0"
proof
  assume "c_reg' insn k = 0"
  moreover have "bit (c_reg' insn k) 3" by (simp add: c_reg'_def bit_simps)
  ultimately show False by simp
qed

lemma funct2_of_match:
  "insn AND k = m \<Longrightarrow> 0xC00 AND k = 0xC00 \<Longrightarrow>
   c_funct2 (insn AND 0xFFFF) = drop_bit 10 (m AND 0xC00)"
  unfolding c_funct2_def by (subst low_field_of_match) simp_all

lemma cmisc_shift_rows:
  assumes "insn AND 0xFC03 = m"
  shows "m = 0x8001 \<Longrightarrow> c_imm6 insn \<noteq> 0 \<Longrightarrow>
      op_cmisc_alu ir (insn AND 0xFFFF) = set_opcode (RV32C rv_insn_csrli) (ops_shift ir insn)"
    and "m = 0x8401 \<Longrightarrow>
      op_cmisc_alu ir (insn AND 0xFFFF) = set_opcode (RV32C rv_insn_csrai) (ops_shift ir insn)"
  using funct2_of_match [OF assms] c_shamt_bit5 [OF assms] csrai_reg [of insn] assms
  by (simp_all only: op_cmisc_alu_def c_field_specs Let_def ops_shift_def)
     (simp_all add: c_shamt_nonzero c_reg'_nonzero set_opcode_def)

lemma cmisc_andi_rows:
  assumes "insn AND 0xEC03 = 0x8801"
  shows "op_cmisc_alu ir (insn AND 0xFFFF) = set_opcode (RV32C rv_insn_candi) (ops_andi ir insn)"
  using funct2_of_match [OF assms]
  by (simp only: op_cmisc_alu_def c_field_specs Let_def ops_andi_def) simp

lemma cmisc_arith_rows:
  assumes "insn AND 0xFC63 = m" "(m, op) \<in> {(0x8C01, rv_insn_csub), (0x8C21, rv_insn_cxor),
      (0x8C41, rv_insn_cor), (0x8C61, rv_insn_cand)}"
  shows "op_cmisc_alu ir (insn AND 0xFFFF) = set_opcode (RV32C op) (ops_a ir insn)"
proof -
  have k: "c_arith_sel (insn AND 0xFFFF) = drop_bit 10 (m AND 0x1000) OR drop_bit 5 (m AND 0x60)"
    unfolding c_arith_sel_def
    by (subst low_field_of_match [OF assms(1)], simp, simp,
        subst low_field_of_match [OF assms(1)]) simp_all
  show ?thesis
    using assms(2) funct2_of_match [OF assms(1)]
    by (simp only: op_cmisc_alu_def c_field_specs Let_def ops_a_def k insert_iff empty_iff prod.inject)
       (elim disjE conjE; simp add: set_opcode_def)
qed

lemma c_rows_cmisc_alu:
  assumes "r \<in> set c_cmisc_alu_rows" "c_row_matches r insn"
  shows "op_cmisc_alu ir (insn AND 0xFFFF) = Decoded (c_spec_ir r ir insn)"
  using assms unfolding c_cmisc_alu_rows_def set_rows c_row_matches_def
  by (elim disjE conjE; simp add: cmisc_shift_rows cmisc_andi_rows cmisc_arith_rows c_spec_ir_def set_opcode_def)

lemma c_rows_caddi:
  assumes "r \<in> set c_caddi_rows" "c_row_matches r insn"
  shows "op_caddi ir (insn AND 0xFFFF) = Decoded (c_spec_ir r ir insn)"
proof -
  have "insn AND 0xEF83 = 0x0001 \<Longrightarrow> c_reg insn 7 = 0"
    using c_reg_of_match(1) [of insn "0xEF83" 1] by (simp add: c_reg_def)
  then show ?thesis
    using assms unfolding c_caddi_rows_def set_rows c_row_matches_def
    by (elim disjE conjE; simp add: op_caddi_def c_field_specs Let_def c_spec_ir_def ops_defs set_opcode_def)
qed

lemma c_rows_clui:
  assumes "r \<in> set c_clui_rows" "c_row_matches r insn"
  shows "op_clui ir (insn AND 0xFFFF) = Decoded (c_spec_ir r ir insn)"
proof -
  have "insn AND 0xEF83 = 0x6101 \<Longrightarrow> c_reg insn 7 = 2"
    using c_reg_of_match(1) [of insn "0xEF83" "0x6101"] by (simp add: c_reg_def)
  then show ?thesis
    using assms unfolding c_clui_rows_def set_rows c_row_matches_def
    by (elim disjE conjE; simp add: op_clui_def c_field_specs Let_def c_spec_ir_def ops_defs set_opcode_def)
qed

lemma funct4_of_match:
  "insn AND k = m \<Longrightarrow> 0x1000 AND k = 0x1000 \<Longrightarrow>
   c_funct4_0 (insn AND 0xFFFF) = drop_bit 12 (m AND 0x1000)"
  unfolding c_funct4_0_def by (subst low_field_of_match) simp_all

lemma c_rows_ccr:
  assumes "r \<in> set c_ccr_rows" "c_row_matches r insn"
  shows "op_ccr ir (insn AND 0xFFFF) = Decoded (c_spec_ir r ir insn)"
proof -
  have "insn AND 0xF07F = m \<Longrightarrow> c_reg insn 2 = c_reg m 2" for m
    using c_reg_of_match(2) [of insn "0xF07F" m] by simp
  note r2 = this [of "0x8002"] this [of "0x9002"]
  have eb: "insn AND 0xFFFF = 0x9002 \<Longrightarrow> c_reg insn 2 = 0 \<and> c_reg insn 7 = 0"
    using c_reg_of_match [of insn "0xFFFF" "0x9002"] by (simp add: c_reg_def)
  have "c_mask r \<in> {0xF07F, 0xF003, 0xFFFF}"
    using assms(1) by (auto simp: c_ccr_rows_def)
  then have "c_funct4_0 (insn AND 0xFFFF) = drop_bit 12 (c_match r AND 0x1000)"
    using assms(2) by (intro funct4_of_match) (auto simp: c_row_matches_def)
  then show ?thesis
    using assms r2 eb unfolding c_ccr_rows_def set_rows c_row_matches_def
    by (elim disjE conjE; simp add: op_ccr_def c_regs_spec Let_def c_spec_ir_def ops_defs set_opcode_def
        c_reg_def [of "numeral n" for n] c_decode_rs1_def [of "numeral n" for n]
        c_decode_rs2_def [of "numeral n" for n] mask_defs)
qed

section \<open>The dispatch\<close>

definition c_group_ok :: "c_op_name \<times> c_row list \<Rightarrow> bool" where
  "c_group_ok g \<longleftrightarrow> list_all (\<lambda>r. 0xE003 AND c_mask r = 0xE003 \<and> c_match r AND 3 \<noteq> 3 \<and>
     rvc_jump_table ! unat (c_index (c_match r)) = fst g) (snd g)"

lemma c_table_ok: "list_all c_group_ok c_table"
  unfolding c_table_def list.pred_inject
  by (simp add: c_group_ok_def c_caddi_rows_def c_clui_rows_def c_cmisc_alu_rows_def c_ccr_rows_def
      c_index_def mask_defs rvc_jump_table_def)

lemma c_index_split: "c_index insn = drop_bit 11 (insn AND 0xE003) OR (insn AND 0xE003 AND 3)"
  by (rule word_eq_bits) (simp add: bitblast c_index_def mask_defs)

lemma c_row_dispatch:
  assumes "(op, rows) \<in> set c_table" "r \<in> set rows" "c_row_matches r insn"
  shows "is_compressed insn" "rvc_jump_table ! unat (c_index (insn AND 0xFFFF)) = op"
proof -
  have ok: "0xE003 AND c_mask r = 0xE003" "c_match r AND 3 \<noteq> 3"
    "rvc_jump_table ! unat (c_index (c_match r)) = op"
    using c_table_ok assms(1,2) by (auto simp: list_all_iff c_group_ok_def)
  have m: "insn AND c_mask r = c_match r"
    using assms(3) by (simp add: c_row_matches_def)
  have e: "insn AND 0xE003 = c_match r AND 0xE003"
    using m ok(1) by (rule field_of_match)
  have "insn AND 3 = (insn AND 0xE003) AND 3" "c_match r AND 3 = (c_match r AND 0xE003) AND 3"
    by (simp_all add: and.assoc)
  then show "is_compressed insn"
    using e ok(2) by (simp add: is_compressed_def mask_defs)
  have "(insn AND 0xFFFF) AND 0xE003 = c_match r AND 0xE003"
    using m ok(1) by (rule low_field_of_match) simp
  then have "c_index (insn AND 0xFFFF) = c_index (c_match r)"
    unfolding c_index_split by (simp only: and.assoc [symmetric])
  then show "rvc_jump_table ! unat (c_index (insn AND 0xFFFF)) = op"
    using ok(3) by simp
qed

lemmas c_single_op_defs = op_caddi4spn_def op_cli_def op_cslli_def op_clwsp_def op_cswsp_def op_clw_def
  op_csw_def op_cj_def op_cjal_def op_cbeqz_def op_cbnez_def op_cflwsp_def op_cfswsp_def op_cflw_def
  op_cfsw_def

lemma run_c_op_rows:
  assumes "(op, rows) \<in> set c_table" "r \<in> set rows" "c_row_matches r insn" "c_feat r cfg"
  shows "run_c_op cfg op ir (insn AND 0xFFFF) = Decoded (c_spec_ir r ir insn)"
  using assms unfolding c_table_def set_rows prod.inject
  by (elim disjE conjE; simp add: c_single_op_defs c_field_specs Let_def c_spec_ir_def ops_defs
        set_opcode_def c_row_matches_def;
      simp add: c_rows_cmisc_alu c_rows_caddi c_rows_clui c_rows_ccr c_row_matches_def c_spec_ir_def)

text \<open>C9. Every 16-bit instruction of the encoding table of the C extension (with its side
  condition) is decoded into the IR the specification calls for; the upper half of the fetched
  word does not matter.\<close>

theorem rv_decode_rvc:
  assumes "(op, rows) \<in> set c_table" "r \<in> set rows" "c_row_matches r insn" "c_feat r cfg"
    and "EXT_C cfg" "\<not> RV32E cfg"
  shows "rv_decode cfg ir insn = Decoded (c_spec_ir r ir insn)"
  using run_c_op_rows [OF assms(1-4)] c_row_dispatch [OF assms(1-3)] assms(5,6)
  by (simp add: rv_decode_def Let_def rv32e_check_def)

text \<open>The hypotheses hold for \<^verbatim>\<open>c.srai a2, 3\<close>, whatever follows it in memory.\<close>

theorem rv_decode_rvc_witness:
  "rv_decode default_features ir_calloc 0xABCD860D =
   Decoded (ir_calloc\<lparr>ir_shamt := 3, ir_rs1 := 12, ir_opcode := RV32C rv_insn_csrai\<rparr>)"
proof -
  have "rv_decode default_features ir_calloc 0xABCD860D =
    Decoded (c_spec_ir (CRow (RV32C rv_insn_csrai) 0x8401 0xFC03 (\<lambda>_. True) ops_shift (\<lambda>_. True))
      ir_calloc 0xABCD860D)"
    by (rule rv_decode_rvc [of OP_cmisc_alu c_cmisc_alu_rows])
       (simp_all add: c_table_def c_cmisc_alu_rows_def c_row_matches_def default_features_def)
  moreover have "(ucast (c_imm6 0xABCD860D) :: u8) = 3" "c_reg' 0xABCD860D 7 = 12"
    by (rule word_eq_bits, simp add: bitblast c_imm_defs)+
  ultimately show ?thesis
    by (simp add: c_spec_ir_def ops_shift_def)
qed

end
