(* ===== verification/RV_Mem.thy ===== *)
theory RV_Mem
  imports RV_Prelude
begin

text \<open>
  Guest memory: \<^verbatim>\<open>memory_t\<close> and its accessors (\<^verbatim>\<open>io.h\<close>,
  \<^verbatim>\<open>io.c\<close>) and the fast path \<^verbatim>\<open>ram_read_*\<close> /
  \<^verbatim>\<open>ram_write_*\<close> of \<^verbatim>\<open>riscv_private.h\<close>.

  The fast accessors do no bounds checking: an access that reaches beyond
  \<^verbatim>\<open>mem_size\<close> is undefined behaviour in C and is the value
  \<^const>\<open>None\<close> here. The host is little endian. A locale states what an
  accessor pair promises; it is interpreted for the byte, half-word and word accessors.
\<close>

unbundle bit_operations_syntax

section \<open>Bytes of a word\<close>

definition byte_of :: "'a::len word \<Rightarrow> nat \<Rightarrow> u8" where
  "byte_of v i = ucast (drop_bit (8 * i) v)"

primrec bytes_to_word :: "u8 list \<Rightarrow> 'a::len word" where
  "bytes_to_word [] = 0"
| "bytes_to_word (b # bs) = ucast b OR push_bit 8 (bytes_to_word bs)"

definition word_to_bytes :: "nat \<Rightarrow> 'a::len word \<Rightarrow> u8 list" where
  "word_to_bytes n v = map (byte_of v) [0..<n]"

lemma bit_bytes_to_word:
  "bit (bytes_to_word bs :: 'a::len word) k \<longleftrightarrow>
   k < LENGTH('a) \<and> k div 8 < length bs \<and> bit (bs ! (k div 8)) (k mod 8)"
proof (induction bs arbitrary: k)
  case (Cons b bs)
  show ?case
  proof (cases "k < 8")
    case True
    then show ?thesis by (simp add: bit_simps)
  next
    case False
    then have "k div 8 = Suc ((k - 8) div 8)" "k mod 8 = (k - 8) mod 8"
      by (simp_all add: le_div_geq le_mod_geq)
    with False show ?thesis by (auto simp: bit_simps Cons.IH)
  qed
qed simp

lemma bytes_to_word_to_bytes:
  assumes "LENGTH('a::len) = 8 * n"
  shows "bytes_to_word (word_to_bytes n v) = (v :: 'a word)"
proof (rule bit_word_eqI)
  fix k assume "k < LENGTH('a)"
  with assms show "bit (bytes_to_word (word_to_bytes n v) :: 'a word) k = bit v k"
    by (auto simp: bit_bytes_to_word word_to_bytes_def byte_of_def bit_simps)
qed

lemma length_word_to_bytes [simp]: "length (word_to_bytes n v) = n"
  by (simp add: word_to_bytes_def)

section \<open>The memory instance\<close>

record memory =
  mem_base :: "nat \<Rightarrow> u8"
  mem_size :: nat

text \<open>\<^verbatim>\<open>memcpy\<close> out of and into guest memory.\<close>

definition load_bytes :: "memory \<Rightarrow> nat \<Rightarrow> nat \<Rightarrow> u8 list option" where
  "load_bytes m a n =
     (if a + n \<le> mem_size m then Some (map (\<lambda>i. mem_base m (a + i)) [0..<n]) else None)"

definition put_bytes :: "memory \<Rightarrow> nat \<Rightarrow> u8 list \<Rightarrow> memory" where
  "put_bytes m a bs =
     m\<lparr>mem_base := (\<lambda>k. if a \<le> k \<and> k < a + length bs then bs ! (k - a) else mem_base m k)\<rparr>"

definition store_bytes :: "memory \<Rightarrow> nat \<Rightarrow> u8 list \<Rightarrow> memory option" where
  "store_bytes m a bs = (if a + length bs \<le> mem_size m then Some (put_bytes m a bs) else None)"

definition guest_ram_contains :: "memory \<Rightarrow> u32 \<Rightarrow> nat \<Rightarrow> bool" where
  "guest_ram_contains m addr n \<longleftrightarrow> unat addr < mem_size m \<and> n \<le> mem_size m - unat addr"

definition ram_read_w :: "memory \<Rightarrow> u32 \<Rightarrow> u32 option" where
  "ram_read_w m addr = map_option bytes_to_word (load_bytes m (unat addr) 4)"

definition ram_read_s :: "memory \<Rightarrow> u32 \<Rightarrow> u16 option" where
  "ram_read_s m addr = map_option bytes_to_word (load_bytes m (unat addr) 2)"

definition ram_read_b :: "memory \<Rightarrow> u32 \<Rightarrow> u8 option" where
  "ram_read_b m addr = map_option bytes_to_word (load_bytes m (unat addr) 1)"

definition ram_write_w :: "memory \<Rightarrow> u32 \<Rightarrow> u32 \<Rightarrow> memory option" where
  "ram_write_w m addr val = store_bytes m (unat addr) (word_to_bytes 4 val)"

definition ram_write_s :: "memory \<Rightarrow> u32 \<Rightarrow> u16 \<Rightarrow> memory option" where
  "ram_write_s m addr val = store_bytes m (unat addr) (word_to_bytes 2 val)"

definition ram_write_b :: "memory \<Rightarrow> u32 \<Rightarrow> u8 \<Rightarrow> memory option" where
  "ram_write_b m addr val = store_bytes m (unat addr) (word_to_bytes 1 val)"

text \<open>The accessors behind the \<^verbatim>\<open>io\<close> callbacks copy the same bytes.\<close>

definition memory_ifetch :: "memory \<Rightarrow> u32 \<Rightarrow> u32 option" where
  "memory_ifetch m addr = map_option bytes_to_word (load_bytes m (unat addr) 4)"

definition memory_read_s :: "memory \<Rightarrow> u32 \<Rightarrow> u16 option" where
  "memory_read_s m addr = map_option bytes_to_word (load_bytes m (unat addr) 2)"

definition memory_read_b :: "memory \<Rightarrow> u32 \<Rightarrow> u8 option" where
  "memory_read_b m addr = map_option bytes_to_word (load_bytes m (unat addr) 1)"

definition memory_write_s :: "memory \<Rightarrow> u32 \<Rightarrow> u16 \<Rightarrow> memory option" where
  "memory_write_s m addr val = store_bytes m (unat addr) (word_to_bytes 2 val)"

definition memory_write_b :: "memory \<Rightarrow> u32 \<Rightarrow> u8 \<Rightarrow> memory option" where
  "memory_write_b m addr val = store_bytes m (unat addr) (word_to_bytes 1 val)"

text \<open>The bounds-checked bulk operations: the C result and the memory after the call.\<close>

definition memory_write :: "memory \<Rightarrow> u32 \<Rightarrow> u8 list \<Rightarrow> bool \<times> memory" where
  "memory_write m addr src =
     (if unat addr \<ge> mem_size m \<or> length src > mem_size m - unat addr then (False, m)
      else (True, put_bytes m (unat addr) src))"

definition memory_fill :: "memory \<Rightarrow> u32 \<Rightarrow> nat \<Rightarrow> u8 \<Rightarrow> bool \<times> memory" where
  "memory_fill m addr n val =
     (if unat addr \<ge> mem_size m \<or> n > mem_size m - unat addr then (False, m)
      else (True, put_bytes m (unat addr) (replicate n val)))"

lemmas memory_defs [mem_defs] = load_bytes_def store_bytes_def put_bytes_def ram_read_w_def ram_read_s_def
  ram_read_b_def ram_write_w_def ram_write_s_def ram_write_b_def memory_ifetch_def
  memory_read_s_def memory_read_b_def memory_write_s_def memory_write_b_def

section \<open>What an accessor pair promises\<close>

locale ram_access =
  fixes rd :: "memory \<Rightarrow> u32 \<Rightarrow> 'v option" and wr :: "memory \<Rightarrow> u32 \<Rightarrow> 'v \<Rightarrow> memory option"
    and width :: nat
  assumes rd_defined: "rd m a = None \<longleftrightarrow> mem_size m < unat a + width"
    and wr_defined: "wr m a v = None \<longleftrightarrow> mem_size m < unat a + width"
    and wr_size: "wr m a v = Some m' \<Longrightarrow> mem_size m' = mem_size m"
    and rd_wr_same: "wr m a v = Some m' \<Longrightarrow> rd m' a = Some v"
    and rd_wr_other: "wr m a v = Some m' \<Longrightarrow>
      unat a + width \<le> unat b \<or> unat b + width \<le> unat a \<Longrightarrow> rd m' b = rd m b"
    and wr_rd: "rd m a = Some v \<Longrightarrow> wr m a v = Some m"
    and wr_wr: "wr m a v = Some m' \<Longrightarrow> wr m' a w = wr m a w"
begin

text \<open>A sequence of stores, as a fused multi-store performs them.\<close>

primrec wr_all :: "memory \<Rightarrow> (u32 \<times> 'v) list \<Rightarrow> memory option" where
  "wr_all m [] = Some m"
| "wr_all m (aw # aws) = (case wr m (fst aw) (snd aw) of None \<Rightarrow> None | Some m' \<Rightarrow> wr_all m' aws)"

lemma wr_all_append: "wr_all m (xs @ ys) = (case wr_all m xs of None \<Rightarrow> None | Some m' \<Rightarrow> wr_all m' ys)"
  by (induction xs arbitrary: m) (auto split: option.split)

lemma wr_all_size: "wr_all m aws = Some m' \<Longrightarrow> mem_size m' = mem_size m"
  by (induction aws arbitrary: m) (auto split: option.splits dest: wr_size)

lemma wr_all_defined:
  "wr_all m aws \<noteq> None \<longleftrightarrow> (\<forall>(a, v) \<in> set aws. unat a + width \<le> mem_size m)"
proof (induction aws arbitrary: m)
  case (Cons aw aws)
  show ?case
  proof (cases "wr m (fst aw) (snd aw)")
    case None
    then have "mem_size m < unat (fst aw) + width"
      using wr_defined by blast
    with None show ?thesis by (auto split: prod.splits)
  next
    case (Some m')
    then have "unat (fst aw) + width \<le> mem_size m"
      using wr_defined [of m "fst aw" "snd aw"] by auto
    with Some Cons.IH [of m'] wr_size [OF Some] show ?thesis by (auto split: prod.splits)
  qed
qed simp

lemma wr_all_frame:
  assumes "wr_all m aws = Some m'"
    and "\<forall>(a, v) \<in> set aws. unat a + width \<le> unat b \<or> unat b + width \<le> unat a"
  shows "rd m' b = rd m b"
  using assms
proof (induction aws arbitrary: m)
  case (Cons aw aws)
  then obtain m1 where m1: "wr m (fst aw) (snd aw) = Some m1" "wr_all m1 aws = Some m'"
    by (auto split: option.splits)
  have "rd m1 b = rd m b"
    using rd_wr_other [OF m1(1), of b] Cons.prems(2) by (auto split: prod.splits)
  with Cons.IH [OF m1(2)] Cons.prems(2) show ?case by simp
qed simp

lemma wr_all_last:
  assumes "wr_all m (xs @ (a, v) # ys) = Some m'"
    and "\<forall>(b, w) \<in> set ys. unat b + width \<le> unat a \<or> unat a + width \<le> unat b"
  shows "rd m' a = Some v"
proof -
  obtain m1 m2 where "wr m1 a v = Some m2" "wr_all m2 ys = Some m'"
    using assms(1) by (auto simp: wr_all_append split: option.splits)
  then show ?thesis
    using wr_all_frame [of m2 ys m' a] assms(2) rd_wr_same by auto
qed

end

lemma load_store_same:
  "store_bytes m a bs = Some m' \<Longrightarrow> load_bytes m' a (length bs) = Some bs"
  by (auto simp: memory_defs intro!: nth_equalityI split: if_splits)

lemma load_store_other:
  "store_bytes m a bs = Some m' \<Longrightarrow> a + length bs \<le> b \<or> b + n \<le> a \<Longrightarrow>
   load_bytes m' b n = load_bytes m b n"
  by (auto simp: memory_defs split: if_splits)

lemma put_get_same: "put_bytes m a (map (\<lambda>i. mem_base m (a + i)) [0..<n]) = m"
proof -
  have "(\<lambda>k. if a \<le> k \<and> k < a + n then map (\<lambda>i. mem_base m (a + i)) [0..<n] ! (k - a)
    else mem_base m k) = mem_base m"
    by (rule ext) auto
  then show ?thesis by (simp add: put_bytes_def)
qed

lemma put_put_same: "length cs = length bs \<Longrightarrow> put_bytes (put_bytes m a bs) a cs = put_bytes m a cs"
  by (auto simp: put_bytes_def intro!: memory.equality ext)

lemma store_load_same: "load_bytes m a n = Some bs \<Longrightarrow> store_bytes m a bs = Some m"
  by (auto simp: load_bytes_def store_bytes_def put_get_same split: if_splits)

lemma store_store_same:
  "store_bytes m a bs = Some m' \<Longrightarrow> length cs = length bs \<Longrightarrow> store_bytes m' a cs = store_bytes m a cs"
  by (auto simp: store_bytes_def put_put_same split: if_splits) (simp_all add: put_bytes_def)

lemma ram_access_bytes:
  fixes rd :: "memory \<Rightarrow> u32 \<Rightarrow> 'a::len word option"
  assumes "\<And>m a. rd m a = map_option bytes_to_word (load_bytes m (unat a) n)"
    and "\<And>m a v. wr m a v = store_bytes m (unat a) (word_to_bytes n v)"
    and "LENGTH('a) = 8 * n"
  shows "ram_access rd wr n"
proof
  have inv: "word_to_bytes n (bytes_to_word bs :: 'a word) = bs" if "length bs = n" for bs
  proof (rule nth_equalityI)
    fix i assume i: "i < length (word_to_bytes n (bytes_to_word bs :: 'a word))"
    show "word_to_bytes n (bytes_to_word bs :: 'a word) ! i = bs ! i"
    proof (rule bit_word_eqI)
      fix k assume "k < LENGTH(8)"
      then have "(8 * i + k) div 8 = i" "(8 * i + k) mod 8 = k" "k < 8" by simp_all
      with i that assms(3) show "bit (word_to_bytes n (bytes_to_word bs :: 'a word) ! i) k = bit (bs ! i) k"
        by (simp add: word_to_bytes_def byte_of_def bit_simps bit_bytes_to_word)
    qed
  qed (use that in simp)
  fix m m' :: memory and a b :: u32 and v w :: "'a word"
  show "rd m a = None \<longleftrightarrow> mem_size m < unat a + n" "wr m a v = None \<longleftrightarrow> mem_size m < unat a + n"
    by (auto simp: assms load_bytes_def store_bytes_def)
  show "rd m a = Some v \<Longrightarrow> wr m a v = Some m"
    using inv by (auto simp: assms load_bytes_def intro!: store_load_same split: if_splits)
  assume wr: "wr m a v = Some m'"
  then show "mem_size m' = mem_size m"
    by (auto simp: assms memory_defs split: if_splits)
  show "rd m' a = Some v"
    using load_store_same [of m "unat a" "word_to_bytes n v" m'] wr
    by (simp add: assms bytes_to_word_to_bytes)
  show "unat a + n \<le> unat b \<or> unat b + n \<le> unat a \<Longrightarrow> rd m' b = rd m b"
    using load_store_other [of m "unat a" "word_to_bytes n v" m' "unat b" n] wr by (simp add: assms)
  show "wr m' a w = wr m a w"
    using store_store_same [of m "unat a" "word_to_bytes n v" m' "word_to_bytes n w"] wr
    by (simp add: assms)
qed

interpretation word_ram: ram_access ram_read_w ram_write_w 4
  by (rule ram_access_bytes) (simp_all add: ram_read_w_def ram_write_w_def)

interpretation half_ram: ram_access ram_read_s ram_write_s 2
  by (rule ram_access_bytes) (simp_all add: ram_read_s_def ram_write_s_def)

interpretation byte_ram: ram_access ram_read_b ram_write_b 1
  by (rule ram_access_bytes) (simp_all add: ram_read_b_def ram_write_b_def)

end
