(* ===== verification/RV_Prof.thy ===== *)
theory RV_Prof
  imports RV_Prelude
begin

text \<open>
  The call-stack profiler, \<^verbatim>\<open>prof_callstack.c\<close>: a symbol table searched by
  bisection, a shadow stack of function indices driven by the jump instructions, and a table
  that accumulates the instruction count of every distinct stack.
\<close>

section \<open>State\<close>

record sym =
  sym_addr :: u32
  sym_idx :: u16
  sym_name :: string

record prof =
  syms :: "sym list"
  stk :: "u16 list"
  stk_cnt :: u64
  pmap :: "(u16 list \<times> u64) list"

section \<open>Operations\<close>

text \<open>The stack grows at the end of the array \<^verbatim>\<open>stk.v\<close>.\<close>

definition stack_push :: "u16 \<Rightarrow> prof \<Rightarrow> prof" where
  "stack_push x p = p\<lparr>stk := stk p @ [x]\<rparr>"

definition stack_pop :: "prof \<Rightarrow> prof" where
  "stack_pop p = (if stk p \<noteq> [] then p\<lparr>stk := butlast (stk p)\<rparr> else p)"

text \<open>The loop of \<^verbatim>\<open>sym_of\<close> on the bounds \<^verbatim>\<open>l\<close> and
  \<^verbatim>\<open>r\<close>.\<close>

function sym_search :: "sym list \<Rightarrow> u32 \<Rightarrow> nat \<Rightarrow> nat \<Rightarrow> nat" where
  "sym_search ss pc l r =
     (if l + 1 < r
      then (let m = (l + r) div 2 in
            if sym_addr (ss ! m) \<le> pc then sym_search ss pc m r else sym_search ss pc l m)
      else l)"
  by pat_completeness auto

termination
  by (relation "measure (\<lambda>(ss, pc, l, r). r - l)") auto

declare sym_search.simps [simp del]

definition sym_of :: "prof \<Rightarrow> u32 \<Rightarrow> u16" where
  "sym_of p pc = (if syms p = [] then 0 else sym_idx (syms p ! sym_search (syms p) pc 0 (length (syms p))))"

text \<open>The linear search of \<^verbatim>\<open>save_current\<close> for an entry with the current stack; a
  missing entry is appended.\<close>

fun add_count :: "u16 list \<Rightarrow> u64 \<Rightarrow> (u16 list \<times> u64) list \<Rightarrow> (u16 list \<times> u64) list" where
  "add_count v c [] = [(v, c)]"
| "add_count v c ((w, d) # es) = (if v = w then (w, d + c) # es else (w, d) # add_count v c es)"

definition save_current :: "prof \<Rightarrow> prof" where
  "save_current p =
     (if stk p = [] then p else p\<lparr>pmap := add_count (stk p) (stk_cnt p) (pmap p), stk_cnt := 0\<rparr>)"

definition prof_on_jal :: "u32 \<Rightarrow> bool \<Rightarrow> prof \<Rightarrow> prof" where
  "prof_on_jal target_pc tail_call p0 =
     (let p = save_current p0;
          p = (if tail_call \<and> stk p \<noteq> [] then stack_pop p else p);
          idx = sym_of p target_pc
      in if idx \<noteq> 0 then stack_push idx p else p)"

definition prof_on_jalr :: "u32 \<Rightarrow> bool \<Rightarrow> bool \<Rightarrow> prof \<Rightarrow> prof" where
  "prof_on_jalr target_pc is_ret tail_call p0 =
     (let p = save_current p0 in
      if is_ret \<and> stk p \<noteq> [] then stack_pop p
      else (let p = (if tail_call \<and> stk p \<noteq> [] then stack_pop p else p);
                idx = sym_of p target_pc
            in if idx \<noteq> 0 then stack_push idx p else p))"

definition prof_on_inst :: "prof \<Rightarrow> prof" where
  "prof_on_inst p = p\<lparr>stk_cnt := stk_cnt p + 1\<rparr>"

text \<open>\<^verbatim>\<open>prof_init\<close> on the lines that \<^verbatim>\<open>sscanf\<close> parsed, as address,
  type letter and name. The index of a symbol is its position in the file, counted from 1.\<close>

definition is_func_type :: "char \<Rightarrow> bool" where
  "is_func_type c = (c \<in> {CHR ''T'', CHR ''t'', CHR ''W'', CHR ''w''})"

definition load_syms :: "(u32 \<times> char \<times> string) list \<Rightarrow> sym list" where
  "load_syms ls = map (\<lambda>(i, (a, _, nm)). \<lparr>sym_addr = a, sym_idx = of_nat (i + 1), sym_name = take 63 nm\<rparr>)
     (enumerate 0 (filter (\<lambda>(_, c, _). is_func_type c) ls))"

definition prof_init :: "(u32 \<times> char \<times> string) list \<Rightarrow> u32 \<Rightarrow> prof" where
  "prof_init ls entry_pc =
     (let p = \<lparr>syms = sort_key sym_addr (load_syms ls), stk = [], stk_cnt = 0, pmap = []\<rparr>;
          entry_idx = sym_of p entry_pc
      in (if entry_idx \<noteq> 0 then stack_push entry_idx p else p)\<lparr>stk_cnt := 0\<rparr>)"

section \<open>The bisection\<close>

definition syms_sorted :: "sym list \<Rightarrow> bool" where
  "syms_sorted ss = sorted (map sym_addr ss)"

lemma sym_search_bounds:
  "l < r \<Longrightarrow> l \<le> sym_search ss pc l r \<and> sym_search ss pc l r < r"
proof (induction ss pc l r rule: sym_search.induct)
  case (1 ss pc l r)
  show ?case
  proof (cases "l + 1 < r")
    case True
    then have "l < (l + r) div 2" "(l + r) div 2 < r" by auto
    with 1 True show ?thesis
      by (subst (1 2) sym_search.simps) (auto simp: Let_def intro: less_imp_le order_trans)
  next
    case False
    with 1(3) show ?thesis by (simp add: sym_search.simps)
  qed
qed

lemma sym_search_inv:
  assumes "l < r" "sym_addr (ss ! l) \<le> pc" "r < length ss \<Longrightarrow> pc < sym_addr (ss ! r)"
  shows "sym_addr (ss ! sym_search ss pc l r) \<le> pc \<and>
    (sym_search ss pc l r + 1 < length ss \<longrightarrow> pc < sym_addr (ss ! (sym_search ss pc l r + 1)))"
  using assms
proof (induction ss pc l r rule: sym_search.induct)
  case (1 ss pc l r)
  show ?case
  proof (cases "l + 1 < r")
    case True
    define m where "m = (l + r) div 2"
    have m: "l < m" "m < r" using True by (auto simp: m_def)
    show ?thesis
    proof (cases "sym_addr (ss ! m) \<le> pc")
      case le: True
      then have "sym_search ss pc l r = sym_search ss pc m r"
        using True by (subst sym_search.simps) (simp add: m_def Let_def)
      with 1(1) [OF True refl] le m 1(5) show ?thesis by (simp add: m_def)
    next
      case nle: False
      then have "sym_search ss pc l r = sym_search ss pc l m"
        using True by (subst sym_search.simps) (simp add: m_def Let_def)
      with 1(2) [OF True refl] nle m 1(4) show ?thesis by (auto simp: m_def)
    qed
  next
    case False
    with 1(3) have "r = l + 1" by simp
    with 1(4,5) show ?thesis by (simp add: sym_search.simps)
  qed
qed

text \<open>C10. On a non-empty symbol table and a program counter not below the first symbol, the
  bisection of \<^verbatim>\<open>sym_of\<close> ends with the symbol whose range contains the program
  counter: its address is not above it, and the next symbol, if there is one, starts above it.\<close>

theorem sym_of_range:
  assumes "syms p \<noteq> []" "sym_addr (syms p ! 0) \<le> pc"
  shows "\<exists>i < length (syms p). sym_of p pc = sym_idx (syms p ! i) \<and> sym_addr (syms p ! i) \<le> pc \<and>
    (i + 1 < length (syms p) \<longrightarrow> pc < sym_addr (syms p ! (i + 1)))"
proof -
  have "0 < length (syms p)" using assms(1) by simp
  then show ?thesis
    using sym_search_bounds [of 0 "length (syms p)" "syms p" pc]
      sym_search_inv [of 0 "length (syms p)" "syms p" pc] assms
    by (intro exI [of _ "sym_search (syms p) pc 0 (length (syms p))"]) (simp add: sym_of_def)
qed

theorem sym_of_range_witness:
  "sym_of (prof_init [(0x200, CHR ''T'', ''g''), (0x100, CHR ''t'', ''f'')] 0x100) 0x1FF = 2"
proof -
  let ?p = "prof_init [(0x200, CHR ''T'', ''g''), (0x100, CHR ''t'', ''f'')] 0x100"
  have "syms ?p = [\<lparr>sym_addr = 0x100, sym_idx = 2, sym_name = ''f''\<rparr>,
      \<lparr>sym_addr = 0x200, sym_idx = 1, sym_name = ''g''\<rparr>]"
    by (simp add: prof_init_def Let_def stack_push_def load_syms_def is_func_type_def
        enumerate_eq_zip)
  then show ?thesis
    using sym_of_range [of ?p "0x1FF"] by (auto simp: less_Suc_eq)
qed

section \<open>The stack\<close>

lemma save_current_frame [simp]: "stk (save_current p) = stk p" "syms (save_current p) = syms p"
  by (simp_all add: save_current_def)

lemma stack_op_frame [simp]:
  "stk_cnt (stack_push x p) = stk_cnt p" "pmap (stack_push x p) = pmap p" "syms (stack_push x p) = syms p"
  "stk_cnt (stack_pop p) = stk_cnt p" "pmap (stack_pop p) = pmap p" "syms (stack_pop p) = syms p"
  "stk (stack_push x p) = stk p @ [x]" "stk (stack_pop p) = butlast (stk p)"
  by (simp_all add: stack_push_def stack_pop_def)

lemma sym_of_cong: "syms p = syms q \<Longrightarrow> sym_of p pc = sym_of q pc"
  by (simp add: sym_of_def)

text \<open>C11. A call to a known function followed by a return leaves the shadow stack as it was, and
  a tail call replaces its top.\<close>

theorem prof_call_return:
  assumes "sym_of p target \<noteq> 0"
  shows "stk (prof_on_jalr ret True True (prof_on_jal target False p)) = stk p \<and>
    (stk p \<noteq> [] \<longrightarrow> stk (prof_on_jal target True p) = butlast (stk p) @ [sym_of p target])"
proof -
  have "sym_of (save_current p) target = sym_of p target"
    "sym_of (stack_pop (save_current p)) target = sym_of p target"
    by (simp_all add: sym_of_def)
  with assms show ?thesis
    by (auto simp: prof_on_jal_def prof_on_jalr_def Let_def)
qed

theorem prof_call_return_witness:
  "stk (prof_on_jalr 0x104 True True (prof_on_jal 0x200 False
     \<lparr>syms = [\<lparr>sym_addr = 0x100, sym_idx = 1, sym_name = ''f''\<rparr>], stk = [1], stk_cnt = 5, pmap = []\<rparr>)) = [1]"
  using prof_call_return [of "\<lparr>syms = [\<lparr>sym_addr = 0x100, sym_idx = 1, sym_name = ''f''\<rparr>], stk = [1],
      stk_cnt = 5, pmap = []\<rparr>" "0x200" "0x104"]
  by (simp add: sym_of_def sym_search.simps)

section \<open>The counts\<close>

datatype prof_event = Jal u32 bool | Jalr u32 bool bool | Inst

fun prof_step :: "prof_event \<Rightarrow> prof \<Rightarrow> prof" where
  "prof_step (Jal t tail) p = prof_on_jal t tail p"
| "prof_step (Jalr t ret tail) p = prof_on_jalr t ret tail p"
| "prof_step Inst p = prof_on_inst p"

definition prof_total :: "prof \<Rightarrow> u64" where
  "prof_total p = sum_list (map snd (pmap p)) + stk_cnt p"

definition prof_keys_ok :: "prof \<Rightarrow> bool" where
  "prof_keys_ok p \<longleftrightarrow> distinct (map fst (pmap p)) \<and> [] \<notin> fst ` set (pmap p)"

lemma sum_add_count: "sum_list (map snd (add_count v c es)) = sum_list (map snd es) + c"
  by (induction v c es rule: add_count.induct) (simp_all add: algebra_simps)

lemma keys_add_count: "fst ` set (add_count v c es) = insert v (fst ` set es)"
  by (induction v c es rule: add_count.induct) auto

lemma distinct_add_count: "distinct (map fst es) \<Longrightarrow> distinct (map fst (add_count v c es))"
  by (induction v c es rule: add_count.induct) (auto simp: keys_add_count)

lemma save_current_total [simp]: "prof_total (save_current p) = prof_total p"
  by (simp add: save_current_def prof_total_def sum_add_count)

lemma save_current_keys [simp]: "prof_keys_ok p \<Longrightarrow> prof_keys_ok (save_current p)"
  by (auto simp: save_current_def prof_keys_ok_def distinct_add_count keys_add_count)

lemma stack_ops_total [simp]:
  "prof_total (stack_push x p) = prof_total p" "prof_total (stack_pop p) = prof_total p"
  "prof_keys_ok (stack_push x p) = prof_keys_ok p" "prof_keys_ok (stack_pop p) = prof_keys_ok p"
  by (simp_all add: prof_total_def prof_keys_ok_def)

lemma prof_step_total: "prof_total (prof_step e p) = prof_total p + (if e = Inst then 1 else 0)"
  by (cases e) (simp_all add: prof_on_jal_def prof_on_jalr_def Let_def,
      simp add: prof_on_inst_def prof_total_def)

lemma prof_step_keys: "prof_keys_ok p \<Longrightarrow> prof_keys_ok (prof_step e p)"
  by (cases e) (simp_all add: prof_on_jal_def prof_on_jalr_def Let_def,
      simp add: prof_on_inst_def prof_keys_ok_def)

text \<open>C12. No instruction count is lost or counted twice: after any sequence of profiler events the
  counts in the table plus the pending count have grown by the number of instruction events, and
  the table keeps one entry per distinct non-empty stack.\<close>

theorem prof_conservation:
  assumes "prof_keys_ok p"
  shows "prof_total (fold prof_step es p) = prof_total p + of_nat (count_list es Inst) \<and>
    prof_keys_ok (fold prof_step es p)"
  using assms
  by (induction es arbitrary: p) (simp_all add: prof_step_total prof_step_keys algebra_simps)

theorem prof_conservation_witness:
  "prof_total (fold prof_step [Inst, Jal 0x200 False, Inst, Inst]
     \<lparr>syms = [\<lparr>sym_addr = 0x100, sym_idx = 1, sym_name = ''f''\<rparr>], stk = [1], stk_cnt = 0, pmap = []\<rparr>) = 3"
  using prof_conservation [of "\<lparr>syms = [\<lparr>sym_addr = 0x100, sym_idx = 1, sym_name = ''f''\<rparr>], stk = [1],
      stk_cnt = 0, pmap = []\<rparr>" "[Inst, Jal 0x200 False, Inst, Inst]"]
  by (simp add: prof_keys_ok_def prof_total_def)

end
