(* ===== verification/RV_State.thy ===== *)
theory RV_State
  imports RV_Decode RV_Mem RV_Prof
begin

text \<open>
  The state of the emulated hart and of the emulator (\<^verbatim>\<open>struct riscv_internal\<close> of
  \<^verbatim>\<open>riscv_private.h\<close>, the static variables of \<^verbatim>\<open>emulate.c\<close>), the
  interface to code outside the repository, the control and status registers, trap entry, and the
  handling of misaligned accesses.

  The C structure is split into two records. \<^verbatim>\<open>riscv\<close> holds what a guest program
  can observe, \<^verbatim>\<open>emu\<close> holds the bookkeeping of the emulator (execution counters,
  the trace, the profiler, the variables that drive block chaining); no handler of the first reads
  the second. The configuration is the default build: no SYSTEM, no JIT, no GDBSTUB.
\<close>

unbundle bit_operations_syntax

section \<open>State\<close>

text \<open>The 32-bit CSR members of the structure.\<close>

datatype csr_reg =
    csr_mstatus | csr_mtvec | csr_misa | csr_mtval | csr_mcause | csr_mscratch | csr_mepc | csr_mip
  | csr_mie | csr_mideleg | csr_medeleg | csr_mvendorid | csr_marchid | csr_mimpid | csr_mbadaddr
  | csr_sstatus | csr_stvec | csr_sip | csr_sie | csr_scounteren | csr_sscratch | csr_sepc
  | csr_scause | csr_stval | csr_satp | csr_fcsr

text \<open>The rounding modes and exception flags of the softfloat library.\<close>

datatype sf_round = softfloat_round_near_even | softfloat_round_minMag | softfloat_round_min
  | softfloat_round_max | softfloat_round_near_maxMag

datatype sf_flag = softfloat_flag_invalid | softfloat_flag_infinite | softfloat_flag_overflow
  | softfloat_flag_underflow | softfloat_flag_inexact

record riscv =
  halt :: bool
  X :: "u8 \<Rightarrow> u32"
  PC :: u32
  F :: "u8 \<Rightarrow> u32"
  csr :: "csr_reg \<Rightarrow> u32"
  csr_cycle :: u64
  csr_time :: "u32 \<times> u32"
  timer :: u64
  priv_mode :: u32
  compressed :: bool
  mem :: memory
  allow_misalign :: bool
  softfloat_roundingMode :: sf_round
  softfloat_exceptionFlags :: "sf_flag set"
  time_calls :: nat

record trace_record =
  tr_cycle :: u64
  tr_pc :: u32
  tr_type :: nat
  tr_addr :: u32

abbreviation RV_TRACE_INSN :: nat where "RV_TRACE_INSN \<equiv> 1"
abbreviation RV_TRACE_MEM :: nat where "RV_TRACE_MEM \<equiv> 2"

record emu =
  insn_counter :: "opcode \<Rightarrow> u64"
  branch_taken_forward :: u64
  branch_taken_backward :: u64
  branch_untaken_forward :: u64
  branch_untaken_backward :: u64
  trace_record_count :: u64
  trace_sample_every :: u32
  history_log :: "trace_record list option"
  prof :: prof
  is_branch_taken :: bool
  last_pc :: u32

section \<open>The environment\<close>

text \<open>
  What lies outside: the softfloat library (an operation sees the rounding mode and returns its
  result with the flags it raises), the host clock (the result of the n-th
  \<^verbatim>\<open>rv_gettimeofday\<close>, in seconds and microseconds), and the callbacks of
  \<^verbatim>\<open>riscv_io_t\<close>, which may end in undefined behaviour or an aborted process
  (\<^const>\<open>None\<close>).
\<close>

type_synonym sf1 = "sf_round \<Rightarrow> u32 \<Rightarrow> u32 \<times> sf_flag set"
type_synonym sf2 = "sf_round \<Rightarrow> u32 \<Rightarrow> u32 \<Rightarrow> u32 \<times> sf_flag set"
type_synonym sf3 = "sf_round \<Rightarrow> u32 \<Rightarrow> u32 \<Rightarrow> u32 \<Rightarrow> u32 \<times> sf_flag set"
type_synonym sfcmp = "u32 \<Rightarrow> u32 \<Rightarrow> bool \<times> sf_flag set"

record softfloat =
  f32_mulAdd :: sf3
  f32_add :: sf2
  f32_sub :: sf2
  f32_mul :: sf2
  f32_div :: sf2
  f32_sqrt :: sf1
  f32_to_i32 :: sf1
  f32_to_ui32 :: sf1
  i32_to_f32 :: sf1
  ui32_to_f32 :: sf1
  f32_eq :: sfcmp
  f32_lt :: sfcmp
  f32_le :: sfcmp
  f32_lt_quiet :: sfcmp
  f32_isSignalingNaN :: "u32 \<Rightarrow> bool"

record env =
  sf :: softfloat
  rv_gettimeofday :: "nat \<Rightarrow> u64 \<times> u32"
  on_trap :: "riscv \<Rightarrow> riscv option"
  on_ecall :: "riscv \<Rightarrow> riscv option"
  on_ebreak :: "riscv \<Rightarrow> riscv option"

section \<open>Registers\<close>

definition set_X :: "u8 \<Rightarrow> u32 \<Rightarrow> riscv \<Rightarrow> riscv" where
  "set_X r v rv = rv\<lparr>X := (X rv)(r := v)\<rparr>"

definition set_F :: "u8 \<Rightarrow> u32 \<Rightarrow> riscv \<Rightarrow> riscv" where
  "set_F r v rv = rv\<lparr>F := (F rv)(r := v)\<rparr>"

definition set_csr :: "csr_reg \<Rightarrow> u32 \<Rightarrow> riscv \<Rightarrow> riscv" where
  "set_csr c v rv = rv\<lparr>csr := (csr rv)(c := v)\<rparr>"

abbreviation N_RV_REGS :: u32 where "N_RV_REGS \<equiv> 32"

definition rv_set_pc :: "riscv \<Rightarrow> u32 \<Rightarrow> bool \<times> riscv" where
  "rv_set_pc rv pc = (if pc AND 1 \<noteq> 0 then (False, rv) else (True, rv\<lparr>PC := pc\<rparr>))"

definition rv_get_pc :: "riscv \<Rightarrow> u32" where
  "rv_get_pc rv = PC rv"

definition rv_set_reg :: "riscv \<Rightarrow> u32 \<Rightarrow> u32 \<Rightarrow> riscv" where
  "rv_set_reg rv reg v = (if reg < N_RV_REGS \<and> reg \<noteq> 0 then set_X (ucast reg) v rv else rv)"

definition rv_get_reg :: "riscv \<Rightarrow> u32 \<Rightarrow> u32" where
  "rv_get_reg rv reg = (if reg < N_RV_REGS then X rv (ucast reg) else 0xFFFFFFFF)"

section \<open>Trace records\<close>

definition rv_trace_record :: "emu \<Rightarrow> u64 \<Rightarrow> u32 \<Rightarrow> nat \<Rightarrow> u32 \<Rightarrow> emu" where
  "rv_trace_record em cycle pc ty addr =
     (case history_log em of
        None \<Rightarrow> em
      | Some log \<Rightarrow>
          (let rec = \<lparr>tr_cycle = cycle, tr_pc = pc, tr_type = ty, tr_addr = addr\<rparr> in
           if trace_sample_every em > 1 then
             (let n = trace_record_count em; em' = em\<lparr>trace_record_count := n + 1\<rparr> in
              if n mod ucast (trace_sample_every em) \<noteq> 0 then em'
              else em'\<lparr>history_log := Some (log @ [rec])\<rparr>)
           else em\<lparr>history_log := Some (log @ [rec])\<rparr>))"

section \<open>Control and status registers\<close>

text \<open>The pointer \<^verbatim>\<open>csr_get_ptr\<close> returns: a CSR member, or one half of the
  64-bit cycle counter or of the time.\<close>

datatype csr_ptr = Csr csr_reg | Cycle_lo | Cycle_hi | Time_lo | Time_hi

text \<open>The C expression computes the time in \<^verbatim>\<open>double\<close>, which is exact
  below \<^verbatim>\<open>2^53\<close> microseconds.\<close>

definition update_time :: "env \<Rightarrow> riscv \<Rightarrow> riscv" where
  "update_time E rv =
     (let (sec, usec) = rv_gettimeofday E (time_calls rv);
          t = sec * 1000000 + ucast usec
      in rv\<lparr>time_calls := time_calls rv + 1, timer := t,
            csr_time := (ucast (t AND 0xFFFFFFFF), ucast (drop_bit 32 t))\<rparr>)"

definition csr_table :: "(u32 \<times> csr_reg) list" where
  "csr_table = [(0x300, csr_mstatus), (0x305, csr_mtvec), (0x301, csr_misa), (0x302, csr_medeleg),
     (0x303, csr_mideleg), (0x340, csr_mscratch), (0x341, csr_mepc), (0x342, csr_mcause),
     (0x343, csr_mtval), (0x344, csr_mip), (0x001, csr_fcsr), (0x003, csr_fcsr),
     (0x100, csr_sstatus), (0x104, csr_sie), (0x105, csr_stvec), (0x106, csr_scounteren),
     (0x140, csr_sscratch), (0x141, csr_sepc), (0x142, csr_scause), (0x143, csr_stval),
     (0x144, csr_sip), (0x180, csr_satp)]"

definition csr_get_ptr :: "env \<Rightarrow> riscv \<Rightarrow> u32 \<Rightarrow> csr_ptr option \<times> riscv" where
  "csr_get_ptr E rv c0 =
     (let c = c0 AND 0xFFF in
      if c = 0xC00 then (Some Cycle_lo, rv)
      else if c = 0xC80 then (Some Cycle_hi, rv)
      else if c = 0xC01 then (Some Time_lo, update_time E rv)
      else if c = 0xC81 then (Some Time_hi, update_time E rv)
      else if c = 0xC02 then (Some Cycle_lo, rv)
      else if c = 0xC82 then (Some Cycle_hi, rv)
      else (map_option Csr (map_of csr_table c), rv))"

fun read_ptr :: "csr_ptr \<Rightarrow> riscv \<Rightarrow> u32" where
  "read_ptr (Csr c) rv = csr rv c"
| "read_ptr Cycle_lo rv = ucast (csr_cycle rv)"
| "read_ptr Cycle_hi rv = ucast (drop_bit 32 (csr_cycle rv))"
| "read_ptr Time_lo rv = fst (csr_time rv)"
| "read_ptr Time_hi rv = snd (csr_time rv)"

fun write_ptr :: "csr_ptr \<Rightarrow> u32 \<Rightarrow> riscv \<Rightarrow> riscv" where
  "write_ptr (Csr c) v rv = set_csr c v rv"
| "write_ptr Cycle_lo v rv = rv\<lparr>csr_cycle := (csr_cycle rv AND 0xFFFFFFFF00000000) OR ucast v\<rparr>"
| "write_ptr Cycle_hi v rv =
     rv\<lparr>csr_cycle := (csr_cycle rv AND 0x00000000FFFFFFFF) OR push_bit 32 (ucast v)\<rparr>"
| "write_ptr Time_lo v rv = rv\<lparr>csr_time := (v, snd (csr_time rv))\<rparr>"
| "write_ptr Time_hi v rv = rv\<lparr>csr_time := (fst (csr_time rv), v)\<rparr>"

text \<open>The cycle counter is brought up to date for the CSRs that show it.\<close>

definition sync_cycle :: "u32 \<Rightarrow> u64 \<Rightarrow> riscv \<Rightarrow> riscv" where
  "sync_cycle c cycle rv =
     (if c AND 0xFFF \<in> {0xC00, 0xC80, 0xC02, 0xC82} \<and> csr_cycle rv \<noteq> cycle
      then rv\<lparr>csr_cycle := cycle\<rparr> else rv)"

definition csr_csrrw :: "env \<Rightarrow> riscv \<Rightarrow> u32 \<Rightarrow> u32 \<Rightarrow> u64 \<Rightarrow> u32 \<times> riscv" where
  "csr_csrrw E rv0 c val cycle =
     (case csr_get_ptr E (sync_cycle c cycle rv0) c of
        (None, rv) \<Rightarrow> (0, rv)
      | (Some p, rv) \<Rightarrow>
          (let out = read_ptr p rv;
               out = (if c = 0x001 then out AND 0x1F else out)
           in (out, write_ptr p val rv)))"

definition csr_csrrs :: "env \<Rightarrow> riscv \<Rightarrow> u32 \<Rightarrow> u32 \<Rightarrow> u64 \<Rightarrow> u32 \<times> riscv" where
  "csr_csrrs E rv0 c val cycle =
     (case csr_get_ptr E (sync_cycle c cycle rv0) c of
        (None, rv) \<Rightarrow> (0, rv)
      | (Some p, rv) \<Rightarrow>
          (let out = read_ptr p rv;
               out' = (if c = 0x001 then out AND 0x1F else out)
           in (out', write_ptr p (out OR val) rv)))"

definition csr_csrrc :: "env \<Rightarrow> riscv \<Rightarrow> u32 \<Rightarrow> u32 \<Rightarrow> u64 \<Rightarrow> u32 \<times> riscv" where
  "csr_csrrc E rv0 c val cycle =
     (case csr_get_ptr E (sync_cycle c cycle rv0) c of
        (None, rv) \<Rightarrow> (0, rv)
      | (Some p, rv) \<Rightarrow>
          (let out = read_ptr p rv;
               out' = (if c = 0x001 then out AND 0x1F else out)
           in (out', write_ptr p (out AND NOT val) rv)))"

end
