(* ===== verification/RV_Trap.thy ===== *)
theory RV_Trap
  imports RV_State "HOL-Library.Monad_Syntax"
begin

text \<open>
  Exceptions: \<^verbatim>\<open>SET_CAUSE_AND_TVAL_THEN_TRAP\<close>, trap entry
  (\<^verbatim>\<open>_trap_handler\<close>), the default handler that emulates misaligned accesses, and
  the callbacks of \<^verbatim>\<open>emulate.c\<close> that the user-mode \<^verbatim>\<open>riscv_io_t\<close>
  is filled with. A handler returns \<^const>\<open>None\<close> when it accesses guest memory out of
  bounds or the decoder aborts the process.
\<close>

unbundle bit_operations_syntax

section \<open>Raising an exception\<close>

abbreviation ILLEGAL_INSN :: u32 where "ILLEGAL_INSN \<equiv> 2"
abbreviation BREAKPOINT :: u32 where "BREAKPOINT \<equiv> 3"
abbreviation LOAD_MISALIGNED :: u32 where "LOAD_MISALIGNED \<equiv> 4"
abbreviation STORE_MISALIGNED :: u32 where "STORE_MISALIGNED \<equiv> 6"
abbreviation ECALL_M :: u32 where "ECALL_M \<equiv> 11"

abbreviation RV_PRIV_U_MODE :: u32 where "RV_PRIV_U_MODE \<equiv> 0"
abbreviation RV_PRIV_S_MODE :: u32 where "RV_PRIV_S_MODE \<equiv> 1"
abbreviation RV_PRIV_M_MODE :: u32 where "RV_PRIV_M_MODE \<equiv> 3"

abbreviation MSTATUS_MIE :: u32 where "MSTATUS_MIE \<equiv> 0x8"
abbreviation MSTATUS_MPIE :: u32 where "MSTATUS_MPIE \<equiv> 0x80"
abbreviation MSTATUS_MPP :: u32 where "MSTATUS_MPP \<equiv> 0x1800"
abbreviation SSTATUS_SIE :: u32 where "SSTATUS_SIE \<equiv> 0x2"
abbreviation SSTATUS_SPIE :: u32 where "SSTATUS_SPIE \<equiv> 0x20"
abbreviation SSTATUS_SPP :: u32 where "SSTATUS_SPP \<equiv> 0x100"

definition set_cause_and_tval :: "u32 \<Rightarrow> u32 \<Rightarrow> riscv \<Rightarrow> riscv" where
  "set_cause_and_tval cause tval rv =
     (if priv_mode rv \<le> RV_PRIV_S_MODE then set_csr csr_stval tval (set_csr csr_scause cause rv)
      else set_csr csr_mtval tval (set_csr csr_mcause cause rv))"

definition set_cause_and_tval_then_trap ::
  "(riscv \<Rightarrow> riscv option) \<Rightarrow> u32 \<Rightarrow> u32 \<Rightarrow> riscv \<Rightarrow> riscv option" where
  "set_cause_and_tval_then_trap trap cause tval rv = trap (set_cause_and_tval cause tval rv)"

section \<open>Misaligned accesses\<close>

definition mem_read_s :: "riscv \<Rightarrow> u32 \<Rightarrow> u16 option" where
  "mem_read_s rv a = memory_read_s (mem rv) a"

definition mem_read_b :: "riscv \<Rightarrow> u32 \<Rightarrow> u8 option" where
  "mem_read_b rv a = memory_read_b (mem rv) a"

definition mem_write_s :: "riscv \<Rightarrow> u32 \<Rightarrow> u16 \<Rightarrow> riscv option" where
  "mem_write_s rv a v = map_option (\<lambda>m. rv\<lparr>mem := m\<rparr>) (memory_write_s (mem rv) a v)"

definition mem_write_b :: "riscv \<Rightarrow> u32 \<Rightarrow> u8 \<Rightarrow> riscv option" where
  "mem_write_b rv a v = map_option (\<lambda>m. rv\<lparr>mem := m\<rparr>) (memory_write_b (mem rv) a v)"

text \<open>The byte loops of the two emulation routines, from byte \<^term>\<open>i\<close> to byte
  \<^term>\<open>n\<close>.\<close>

fun read_bytes_loop :: "riscv \<Rightarrow> u32 \<Rightarrow> nat list \<Rightarrow> u32 \<Rightarrow> u32 option" where
  "read_bytes_loop rv addr [] value = Some value"
| "read_bytes_loop rv addr (i # is) value = do {
     b \<leftarrow> mem_read_b rv (addr + of_nat i);
     read_bytes_loop rv addr is (value OR push_bit (i * 8) (ucast b))
   }"

fun write_bytes_loop :: "u32 \<Rightarrow> u32 \<Rightarrow> nat list \<Rightarrow> riscv \<Rightarrow> riscv option" where
  "write_bytes_loop addr value [] rv = Some rv"
| "write_bytes_loop addr value (i # is) rv = do {
     rv' \<leftarrow> mem_write_b rv (addr + of_nat i) (ucast (drop_bit (i * 8) value AND 0xFF));
     write_bytes_loop addr value is rv'
   }"

definition emulate_misaligned_load :: "riscv \<Rightarrow> rv_insn \<Rightarrow> u32 \<Rightarrow> (bool \<times> riscv) option" where
  "emulate_misaligned_load rv ir addr =
     (if ir_opcode ir \<in> {RV32I rv_insn_lw, RV32C rv_insn_clw, RV32C rv_insn_clwsp} then do {
        value \<leftarrow> (if addr AND 1 = 0 then do {
            lo \<leftarrow> mem_read_s rv addr;
            hi \<leftarrow> mem_read_s rv (addr + 2);
            Some (ucast lo OR push_bit 16 (ucast hi))
          } else read_bytes_loop rv addr [0, 1, 2, 3] 0);
        Some (True, set_X (ir_rd ir) value rv)
      } else if ir_opcode ir = RV32I rv_insn_lh then do {
        value \<leftarrow> read_bytes_loop rv addr [0, 1] 0;
        Some (True, set_X (ir_rd ir) (sign_extend_h value) rv)
      } else if ir_opcode ir = RV32I rv_insn_lhu then do {
        value \<leftarrow> read_bytes_loop rv addr [0, 1] 0;
        Some (True, set_X (ir_rd ir) value rv)
      } else Some (False, rv))"

definition emulate_misaligned_store :: "riscv \<Rightarrow> rv_insn \<Rightarrow> u32 \<Rightarrow> (bool \<times> riscv) option" where
  "emulate_misaligned_store rv ir addr =
     (if ir_opcode ir \<in> {RV32I rv_insn_sw, RV32C rv_insn_csw, RV32C rv_insn_cswsp} then
        (let value = X rv (ir_rs2 ir) in
         if addr AND 1 = 0 then do {
           rv1 \<leftarrow> mem_write_s rv addr (ucast (value AND 0xFFFF));
           rv2 \<leftarrow> mem_write_s rv1 (addr + 2) (ucast (drop_bit 16 value AND 0xFFFF));
           Some (True, rv2)
         } else do {
           rv' \<leftarrow> write_bytes_loop addr value [0, 1, 2, 3] rv;
           Some (True, rv')
         })
      else if ir_opcode ir = RV32I rv_insn_sh then do {
        rv' \<leftarrow> write_bytes_loop addr (X rv (ir_rs2 ir)) [0, 1] rv;
        Some (True, rv')
      } else Some (False, rv))"

section \<open>Trap entry\<close>

definition skip_insn :: "riscv \<Rightarrow> riscv" where
  "skip_insn rv =
     (let mepc = csr rv csr_mepc + (if compressed rv then 2 else 4)
      in (set_csr csr_mepc mepc rv)\<lparr>PC := mepc\<rparr>)"

definition rv_trap_default_handler :: "features \<Rightarrow> riscv \<Rightarrow> riscv option" where
  "rv_trap_default_handler cfg rv =
     (let cause = csr rv csr_mcause; tval = csr rv csr_mtval; insn_addr = csr rv csr_mepc in
      if cause = LOAD_MISALIGNED \<or> cause = STORE_MISALIGNED then do {
        insn \<leftarrow> memory_ifetch (mem rv) insn_addr;
        if insn = 0 then Some (skip_insn rv)
        else (case rv_decode cfg ir_calloc insn of
            Aborted \<Rightarrow> None
          | Illegal _ \<Rightarrow> Some (skip_insn rv)
          | Decoded ir \<Rightarrow> do {
              (handled, rv') \<leftarrow> (if cause = LOAD_MISALIGNED then emulate_misaligned_load rv ir tval
                 else emulate_misaligned_store rv ir tval);
              Some (skip_insn rv')
            })
      } else Some (skip_insn rv))"

definition goto_vector :: "u32 \<Rightarrow> u32 \<Rightarrow> u32 \<Rightarrow> riscv \<Rightarrow> riscv" where
  "goto_vector base mode cause rv =
     (if mode = 0 then rv\<lparr>PC := base\<rparr>
      else if mode = 1 then rv\<lparr>PC := base + 4 * (cause AND 0x7FFFFFFF)\<rparr>
      else rv)"

definition trap_handler :: "features \<Rightarrow> riscv \<Rightarrow> riscv option" where
  "trap_handler cfg rv =
     (if priv_mode rv \<le> RV_PRIV_S_MODE then
        (let sie = drop_bit 1 (csr rv csr_sstatus AND SSTATUS_SIE);
             sstatus = csr rv csr_sstatus OR push_bit 5 sie;
             sstatus = sstatus AND NOT SSTATUS_SIE;
             sstatus = sstatus OR push_bit 8 (priv_mode rv);
             base = csr rv csr_stvec AND NOT 3;
             mode = csr rv csr_stvec AND 3;
             cause = csr rv csr_scause;
             rv1 = (set_csr csr_sepc (PC rv) (set_csr csr_sstatus sstatus rv))
               \<lparr>priv_mode := RV_PRIV_S_MODE\<rparr>
         in Some (goto_vector base mode cause rv1))
      else
        (let mie = drop_bit 3 (csr rv csr_mstatus AND MSTATUS_MIE);
             mstatus = csr rv csr_mstatus OR push_bit 7 mie;
             mstatus = mstatus AND NOT MSTATUS_MIE;
             mstatus = mstatus OR push_bit 11 (priv_mode rv);
             base = csr rv csr_mtvec AND NOT 3;
             mode = csr rv csr_mtvec AND 3;
             cause = csr rv csr_mcause;
             rv1 = (set_csr csr_mepc (PC rv) (set_csr csr_mstatus mstatus rv))
               \<lparr>priv_mode := RV_PRIV_M_MODE\<rparr>
         in if csr rv csr_mtvec = 0 then rv_trap_default_handler cfg rv1
            else Some (goto_vector base mode cause rv1)))"

definition ebreak_handler :: "(riscv \<Rightarrow> riscv option) \<Rightarrow> riscv \<Rightarrow> riscv option" where
  "ebreak_handler trap rv = set_cause_and_tval_then_trap trap BREAKPOINT (PC rv) rv"

definition ecall_handler ::
  "(riscv \<Rightarrow> riscv option) \<Rightarrow> (riscv \<Rightarrow> riscv option) \<Rightarrow> riscv \<Rightarrow> riscv option" where
  "ecall_handler trap syscall_handler rv = do {
     rv' \<leftarrow> set_cause_and_tval_then_trap trap ECALL_M 0 rv;
     syscall_handler rv'
   }"

definition memset_handler :: "(riscv \<Rightarrow> riscv option) \<Rightarrow> riscv \<Rightarrow> riscv option" where
  "memset_handler trap rv =
     (let m = mem rv; dest = X rv 10; value = X rv 11; count = X rv 12 in
      if unat dest \<ge> mem_size m \<or> unat count > mem_size m - unat dest then
        set_cause_and_tval_then_trap trap STORE_MISALIGNED dest rv
      else Some (rv\<lparr>mem := put_bytes m (unat dest) (replicate (unat count) (ucast value)),
                    PC := X rv 1 AND NOT 1\<rparr>))"

text \<open>\<^verbatim>\<open>memcpy\<close> on overlapping objects is undefined.\<close>

definition memcpy_handler :: "(riscv \<Rightarrow> riscv option) \<Rightarrow> riscv \<Rightarrow> riscv option" where
  "memcpy_handler trap rv =
     (let m = mem rv; dest = X rv 10; src = X rv 11; count = X rv 12 in
      if unat dest \<ge> mem_size m \<or> unat count > mem_size m - unat dest then
        set_cause_and_tval_then_trap trap STORE_MISALIGNED dest rv
      else if unat src \<ge> mem_size m \<or> unat count > mem_size m - unat src then
        set_cause_and_tval_then_trap trap LOAD_MISALIGNED src rv
      else if unat dest < unat src + unat count \<and> unat src < unat dest + unat count then None
      else do {
        bs \<leftarrow> load_bytes m (unat src) (unat count);
        Some (rv\<lparr>mem := put_bytes m (unat dest) bs, PC := X rv 1 AND NOT 1\<rparr>)
      })"

text \<open>The user-mode callbacks of \<^verbatim>\<open>rv_create\<close>.\<close>

definition user_io :: "features \<Rightarrow> softfloat \<Rightarrow> (nat \<Rightarrow> u64 \<times> u32) \<Rightarrow> (riscv \<Rightarrow> riscv option) \<Rightarrow> env" where
  "user_io cfg lib clock syscall_handler =
     \<lparr>sf = lib, rv_gettimeofday = clock, on_trap = trap_handler cfg,
      on_ecall = ecall_handler (trap_handler cfg) syscall_handler,
      on_ebreak = ebreak_handler (trap_handler cfg)\<rparr>"

end
