(* ===== verification/RV_Exec.thy ===== *)
theory RV_Exec
  imports RV_Trap
begin

text \<open>
  The machinery around an instruction body of \<^verbatim>\<open>rv32_template.c\<close>: the arguments that
  are passed from one emulation function to the next, the ways a body can end, the macros
  \<^verbatim>\<open>RV_EXC_MISALIGN_HANDLER\<close> and \<^verbatim>\<open>BRANCH_FUNC\<close>, the floating-point
  helpers of \<^verbatim>\<open>softfp.h\<close> and the bit counting functions of
  \<^verbatim>\<open>common.h\<close>.
\<close>

unbundle bit_operations_syntax

section \<open>Context and outcome of a body\<close>

text \<open>
  An emulation function receives the hart, the local cycle counter and the local program counter;
  both locals are written back to the hart only when execution leaves the block.
\<close>

record ctx =
  c_rv :: riscv
  c_em :: emu
  c_cycle :: u64
  c_pc :: u32

text \<open>
  \<^item> \<^verbatim>\<open>Nextop\<close>: the body runs through to the label \<^verbatim>\<open>nextop\<close>;
  \<^item> \<^verbatim>\<open>End_op\<close>: \<^verbatim>\<open>goto end_op\<close>;
  \<^item> \<^verbatim>\<open>Return\<close>: the body returns by itself, with this result, hart and bookkeeping;
  \<^item> \<^verbatim>\<open>Taken\<close>, \<^verbatim>\<open>Untaken\<close>: a tail call into the block that
    \<^verbatim>\<open>branch_taken\<close> or \<^verbatim>\<open>branch_untaken\<close> points to;
  \<^item> \<^verbatim>\<open>Indirect\<close>: \<^verbatim>\<open>LOOKUP_OR_UPDATE_BRANCH_HISTORY_TABLE\<close>,
    followed by \<^verbatim>\<open>goto end_op\<close> when no translated block is known;
  \<^item> \<^verbatim>\<open>Undef\<close>: undefined behaviour in C, or an aborted process.
\<close>

datatype outcome =
    Nextop ctx
  | End_op ctx
  | Return bool riscv emu
  | Taken ctx
  | Untaken ctx
  | Indirect ctx
  | Undef

definition finish :: "ctx \<Rightarrow> outcome" where
  "finish c = Return True ((c_rv c)\<lparr>csr_cycle := c_cycle c, PC := c_pc c\<rparr>) (c_em c)"

definition write_X :: "u8 \<Rightarrow> u32 \<Rightarrow> ctx \<Rightarrow> ctx" where
  "write_X r v c = c\<lparr>c_rv := set_X r v (c_rv c)\<rparr>"

definition write_F :: "u8 \<Rightarrow> u32 \<Rightarrow> ctx \<Rightarrow> ctx" where
  "write_F r v c = c\<lparr>c_rv := set_F r v (c_rv c)\<rparr>"

definition alu :: "(riscv \<Rightarrow> riscv) \<Rightarrow> ctx \<Rightarrow> outcome" where
  "alu f c = Nextop (c\<lparr>c_rv := f (c_rv c)\<rparr>)"

definition from_option :: "riscv option \<Rightarrow> ctx \<Rightarrow> outcome" where
  "from_option r c = (case r of None \<Rightarrow> Undef | Some rv \<Rightarrow> Nextop (c\<lparr>c_rv := rv\<rparr>))"

definition set_last_pc :: "ctx \<Rightarrow> ctx" where
  "set_last_pc c = c\<lparr>c_em := (c_em c)\<lparr>last_pc := c_pc c\<rparr>\<rparr>"

text \<open>\<^verbatim>\<open>ecall\<close> and \<^verbatim>\<open>ebreak\<close> synchronise the hart and call back.\<close>

definition callback :: "(riscv \<Rightarrow> riscv option) \<Rightarrow> bool \<Rightarrow> ctx \<Rightarrow> outcome" where
  "callback f compress c =
     (case f ((c_rv c)\<lparr>compressed := compress, csr_cycle := c_cycle c, PC := c_pc c\<rparr>) of
        None \<Rightarrow> Undef
      | Some rv \<Rightarrow> Return True rv (c_em c))"

section \<open>Memory access\<close>

definition trace_mem :: "u32 \<Rightarrow> ctx \<Rightarrow> ctx" where
  "trace_mem addr c = c\<lparr>c_em := rv_trace_record (c_em c) (c_cycle c) (c_pc c) RV_TRACE_MEM addr\<rparr>"

definition read_mem :: "(memory \<Rightarrow> u32 \<Rightarrow> 'a option) \<Rightarrow> u32 \<Rightarrow> ctx \<Rightarrow> ('a \<Rightarrow> outcome) \<Rightarrow> outcome" where
  "read_mem rd addr c k = (case rd (mem (c_rv c)) addr of None \<Rightarrow> Undef | Some v \<Rightarrow> k v)"

definition write_mem ::
  "(memory \<Rightarrow> u32 \<Rightarrow> 'a \<Rightarrow> memory option) \<Rightarrow> u32 \<Rightarrow> 'a \<Rightarrow> ctx \<Rightarrow> (ctx \<Rightarrow> outcome) \<Rightarrow> outcome" where
  "write_mem wr addr v c k =
     (case wr (mem (c_rv c)) addr v of None \<Rightarrow> Undef | Some m \<Rightarrow> k (c\<lparr>c_rv := (c_rv c)\<lparr>mem := m\<rparr>\<rparr>))"

definition exc_misalign_handler ::
  "env \<Rightarrow> u32 \<Rightarrow> u32 \<Rightarrow> bool \<Rightarrow> u32 \<Rightarrow> ctx \<Rightarrow> outcome \<Rightarrow> outcome" where
  "exc_misalign_handler E msk cause compress addr c k =
     (if \<not> allow_misalign (c_rv c) \<and> addr AND msk \<noteq> 0 then
        (case set_cause_and_tval_then_trap (on_trap E) cause addr
            ((c_rv c)\<lparr>compressed := compress, csr_cycle := c_cycle c, PC := c_pc c\<rparr>) of
           None \<Rightarrow> Undef
         | Some rv \<Rightarrow> Return False rv (c_em c))
      else k)"

section \<open>Branches\<close>

text \<open>\<^verbatim>\<open>BRANCH_FUNC\<close>: the condition is the one under which the branch falls through.\<close>

definition branch_func :: "bool \<Rightarrow> rv_insn \<Rightarrow> ctx \<Rightarrow> outcome" where
  "branch_func fall_through ir c =
     (let em = c_em c in
      if fall_through then
        (let c1 = c\<lparr>c_em := em\<lparr>branch_untaken_forward := branch_untaken_forward em + 1,
                               is_branch_taken := False\<rparr>\<rparr>
         in if ir_branch_untaken ir = None then Nextop c1
            else End_op (c1\<lparr>c_pc := c_pc c1 + 4\<rparr>))
      else
        (let em1 = (if sint (ir_imm ir) < 0
                    then em\<lparr>branch_taken_backward := branch_taken_backward em + 1\<rparr>
                    else em\<lparr>branch_taken_forward := branch_taken_forward em + 1\<rparr>)
         in End_op (c\<lparr>c_em := em1\<lparr>is_branch_taken := True\<rparr>, c_pc := c_pc c + ir_imm ir\<rparr>)))"

text \<open>The body shared by \<^verbatim>\<open>cbeqz\<close> and \<^verbatim>\<open>cbnez\<close>.\<close>

definition cbranch :: "bool \<Rightarrow> rv_insn \<Rightarrow> ctx \<Rightarrow> outcome" where
  "cbranch fall_through ir c =
     (if fall_through then
        (let c1 = c\<lparr>c_em := (c_em c)\<lparr>is_branch_taken := False\<rparr>\<rparr>
         in if ir_branch_untaken ir = None then Nextop c1
            else Untaken (set_last_pc (c1\<lparr>c_pc := c_pc c1 + 2\<rparr>)))
      else
        (let c1 = c\<lparr>c_em := (c_em c)\<lparr>is_branch_taken := True\<rparr>, c_pc := c_pc c + ir_imm ir\<rparr>
         in if ir_branch_taken ir \<noteq> None then Taken (set_last_pc c1) else End_op c1))"

section \<open>Floating point\<close>

abbreviation FMASK_SIGN :: u32 where "FMASK_SIGN \<equiv> 0x80000000"
abbreviation FMASK_EXPN :: u32 where "FMASK_EXPN \<equiv> 0x7F800000"
abbreviation FMASK_FRAC :: u32 where "FMASK_FRAC \<equiv> 0x007FFFFF"
abbreviation FMASK_QNAN :: u32 where "FMASK_QNAN \<equiv> 0x00400000"
abbreviation FFLAG_INVALID_OP :: u32 where "FFLAG_INVALID_OP \<equiv> 0x10"
abbreviation FFLAG_DIV_BY_ZERO :: u32 where "FFLAG_DIV_BY_ZERO \<equiv> 0x08"
abbreviation FFLAG_OVERFLOW :: u32 where "FFLAG_OVERFLOW \<equiv> 0x04"
abbreviation FFLAG_UNDERFLOW :: u32 where "FFLAG_UNDERFLOW \<equiv> 0x02"
abbreviation FFLAG_INEXACT :: u32 where "FFLAG_INEXACT \<equiv> 0x01"
abbreviation RV_NAN :: u32 where "RV_NAN \<equiv> 0x7FC00000"

definition calc_fclass :: "u32 \<Rightarrow> u32" where
  "calc_fclass f =
     (let sgn = f AND FMASK_SIGN; expn = f AND FMASK_EXPN; frac = f AND FMASK_FRAC in
      if expn \<noteq> 0 then
        (if expn \<noteq> FMASK_EXPN then (if sgn \<noteq> 0 then 0x002 else 0x040)
         else if frac \<noteq> 0 then (if frac AND FMASK_QNAN \<noteq> 0 then 0x200 else 0x100)
         else if sgn = 0 then 0x080
         else 0x001)
      else if frac \<noteq> 0 then (if sgn \<noteq> 0 then 0x004 else 0x020)
      else (if sgn \<noteq> 0 then 0x008 else 0x010))"

definition is_nan :: "u32 \<Rightarrow> bool" where
  "is_nan f \<longleftrightarrow> f AND FMASK_EXPN = FMASK_EXPN \<and> f AND FMASK_FRAC \<noteq> 0"

definition or_fflag :: "sf_flag \<Rightarrow> u32 \<Rightarrow> sf_flag set \<Rightarrow> u32 \<Rightarrow> u32" where
  "or_fflag fl bits flags fcsr = (if fl \<in> flags then fcsr OR bits else fcsr)"

definition set_fflag :: "riscv \<Rightarrow> riscv" where
  "set_fflag rv =
     (let fl = softfloat_exceptionFlags rv;
          fcsr = or_fflag softfloat_flag_inexact FFLAG_INEXACT fl
                (or_fflag softfloat_flag_underflow FFLAG_UNDERFLOW fl
                (or_fflag softfloat_flag_overflow FFLAG_OVERFLOW fl
                (or_fflag softfloat_flag_infinite FFLAG_DIV_BY_ZERO fl
                (or_fflag softfloat_flag_invalid FFLAG_INVALID_OP fl (csr rv csr_fcsr)))))
      in (set_csr csr_fcsr fcsr rv)\<lparr>softfloat_exceptionFlags := {}\<rparr>)"

text \<open>The default case of the \<^verbatim>\<open>switch\<close> is marked unreachable: reaching it is undefined.\<close>

definition set_rounding_mode :: "u8 \<Rightarrow> riscv \<Rightarrow> riscv option" where
  "set_rounding_mode rm0 rv =
     (let frm = drop_bit 5 (csr rv csr_fcsr) AND NOT 8;
          rm = (if rm0 = 7 then ucast frm else rm0)
      in map_option (\<lambda>mode. rv\<lparr>softfloat_roundingMode := mode\<rparr>)
           (map_of [(0, softfloat_round_near_even), (1, softfloat_round_minMag),
                    (2, softfloat_round_min), (3, softfloat_round_max),
                    (4, softfloat_round_near_maxMag)] rm))"

text \<open>The shape of the arithmetic bodies: set the rounding mode, call the library, write the
  result, fold the raised flags into \<^verbatim>\<open>fcsr\<close>.\<close>

definition write_fd :: "u8 \<Rightarrow> u32 \<Rightarrow> riscv \<Rightarrow> riscv" where
  "write_fd r v rv = set_F r v rv"

definition write_xd :: "u8 \<Rightarrow> u32 \<Rightarrow> riscv \<Rightarrow> riscv" where
  "write_xd r v rv = (if r \<noteq> 0 then set_X r v rv else rv)"

definition raise_flags :: "sf_flag set \<Rightarrow> riscv \<Rightarrow> riscv" where
  "raise_flags fl rv = rv\<lparr>softfloat_exceptionFlags := softfloat_exceptionFlags rv \<union> fl\<rparr>"

definition fp_arith ::
  "u8 \<Rightarrow> (riscv \<Rightarrow> u32 \<times> sf_flag set) \<Rightarrow> (u32 \<Rightarrow> riscv \<Rightarrow> riscv) \<Rightarrow> ctx \<Rightarrow> outcome" where
  "fp_arith rm op wr c =
     (case set_rounding_mode rm (c_rv c) of
        None \<Rightarrow> Undef
      | Some rv \<Rightarrow> (let (v, fl) = op rv in
          Nextop (c\<lparr>c_rv := set_fflag (wr v (raise_flags fl rv))\<rparr>)))"

definition fp_compare :: "sfcmp \<Rightarrow> rv_insn \<Rightarrow> ctx \<Rightarrow> outcome" where
  "fp_compare cmp ir c =
     (let rv = c_rv c; (b, fl) = cmp (F rv (ir_rs1 ir)) (F rv (ir_rs2 ir));
          ret = (if b then 1 else 0)
      in Nextop (c\<lparr>c_rv := set_fflag (write_xd (ir_rd ir) ret (raise_flags fl rv))\<rparr>))"

section \<open>Bit counting\<close>

text \<open>\<^verbatim>\<open>rv_clz\<close>, \<^verbatim>\<open>rv_ctz\<close> and \<^verbatim>\<open>rv_popcount\<close> are compiler
  builtins under GCC and Clang.\<close>

definition rv_clz :: "u32 \<Rightarrow> u32" where
  "rv_clz v = of_nat (length (takeWhile (\<lambda>i. \<not> bit v i) (rev [0..<32])))"

definition rv_ctz :: "u32 \<Rightarrow> u32" where
  "rv_ctz v = of_nat (length (takeWhile (\<lambda>i. \<not> bit v i) [0..<32]))"

definition rv_popcount :: "u32 \<Rightarrow> u32" where
  "rv_popcount v = of_nat (length (filter (bit v) [0..<32]))"

lemmas exec_defs = finish_def write_X_def write_F_def alu_def from_option_def set_last_pc_def
  callback_def trace_mem_def read_mem_def write_mem_def exc_misalign_handler_def

end
