(* ===== verification/RV_Template.thy ===== *)
theory RV_Template
  imports RV_Exec "HOL-Library.Signed_Division"
begin

text \<open>
  The instruction bodies of \<^verbatim>\<open>rv32_template.c\<close>, one definition per
  \<^verbatim>\<open>RVOP\<close> (the interpreter part, not the code generator part), in the order of the
  file, for a build with all extensions and without SYSTEM, JIT and ARCH_TEST. A body that only
  computes on the hart is a function on \<^typ>\<open>riscv\<close>; the others see the whole context.
\<close>

unbundle bit_operations_syntax

section \<open>RV32I\<close>

definition do_nop :: "rv_insn \<Rightarrow> riscv \<Rightarrow> riscv" where
  "do_nop ir rv = set_X rv_reg_zero 0 rv"

definition do_lui :: "rv_insn \<Rightarrow> riscv \<Rightarrow> riscv" where
  "do_lui ir rv = set_X (ir_rd ir) (ir_imm ir) rv"

definition do_auipc :: "env \<Rightarrow> rv_insn \<Rightarrow> ctx \<Rightarrow> outcome" where
  "do_auipc E ir c = Nextop (write_X (ir_rd ir) (ir_imm ir + c_pc c) c)"

definition do_jal :: "env \<Rightarrow> rv_insn \<Rightarrow> ctx \<Rightarrow> outcome" where
  "do_jal E ir c = 
     (let pc = c_pc c;
          c1 = c\<lparr>c_pc := pc + ir_imm ir\<rparr>;
          c2 = c1\<lparr>c_em := (c_em c1)\<lparr>prof := prof_on_jal (c_pc c1) (ir_rd ir = 0) (prof (c_em c1))\<rparr>\<rparr>;
          c3 = (if ir_rd ir \<noteq> 0 then write_X (ir_rd ir) (pc + 4) c2 else c2)
      in if ir_branch_taken ir \<noteq> None then Taken (set_last_pc c3) else End_op c3)"

definition do_jalr :: "env \<Rightarrow> rv_insn \<Rightarrow> ctx \<Rightarrow> outcome" where
  "do_jalr E ir c = 
     (let pc = c_pc c;
          c1 = c\<lparr>c_pc := (X (c_rv c) (ir_rs1 ir) + ir_imm ir) AND NOT 1\<rparr>;
          is_ret = (ir_rd ir = 0 \<and> ir_rs1 ir = 1);
          c2 = c1\<lparr>c_em := (c_em c1)\<lparr>prof := prof_on_jalr (c_pc c1) is_ret (ir_rd ir = 0) (prof (c_em c1))\<rparr>\<rparr>;
          c3 = (if ir_rd ir \<noteq> 0 then write_X (ir_rd ir) (pc + 4) c2 else c2)
      in Indirect c3)"

definition do_beq :: "env \<Rightarrow> rv_insn \<Rightarrow> ctx \<Rightarrow> outcome" where
  "do_beq E ir c = 
     (let x = X (c_rv c) (ir_rs1 ir); y = X (c_rv c) (ir_rs2 ir) in branch_func (x \<noteq> y) ir c)"

definition do_bne :: "env \<Rightarrow> rv_insn \<Rightarrow> ctx \<Rightarrow> outcome" where
  "do_bne E ir c = 
     (let x = X (c_rv c) (ir_rs1 ir); y = X (c_rv c) (ir_rs2 ir) in branch_func (x = y) ir c)"

definition do_blt :: "env \<Rightarrow> rv_insn \<Rightarrow> ctx \<Rightarrow> outcome" where
  "do_blt E ir c = 
     (let x = X (c_rv c) (ir_rs1 ir); y = X (c_rv c) (ir_rs2 ir) in branch_func (sint x \<ge> sint y) ir c)"

definition do_bge :: "env \<Rightarrow> rv_insn \<Rightarrow> ctx \<Rightarrow> outcome" where
  "do_bge E ir c = 
     (let x = X (c_rv c) (ir_rs1 ir); y = X (c_rv c) (ir_rs2 ir) in branch_func (sint x < sint y) ir c)"

definition do_bltu :: "env \<Rightarrow> rv_insn \<Rightarrow> ctx \<Rightarrow> outcome" where
  "do_bltu E ir c = 
     (let x = X (c_rv c) (ir_rs1 ir); y = X (c_rv c) (ir_rs2 ir) in branch_func (x \<ge> y) ir c)"

definition do_bgeu :: "env \<Rightarrow> rv_insn \<Rightarrow> ctx \<Rightarrow> outcome" where
  "do_bgeu E ir c = 
     (let x = X (c_rv c) (ir_rs1 ir); y = X (c_rv c) (ir_rs2 ir) in branch_func (x < y) ir c)"

definition do_lb :: "env \<Rightarrow> rv_insn \<Rightarrow> ctx \<Rightarrow> outcome" where
  "do_lb E ir c = 
     (let addr = X (c_rv c) (ir_rs1 ir) + ir_imm ir; c = trace_mem addr c in
      read_mem ram_read_b addr c (\<lambda>v. Nextop (write_X (ir_rd ir) (sign_extend_b (ucast v)) c)))"

definition do_lh :: "env \<Rightarrow> rv_insn \<Rightarrow> ctx \<Rightarrow> outcome" where
  "do_lh E ir c = 
     (let addr = X (c_rv c) (ir_rs1 ir) + ir_imm ir; c = trace_mem addr c in
      exc_misalign_handler E 1 LOAD_MISALIGNED False addr c
           (read_mem ram_read_s addr c (\<lambda>v. Nextop (write_X (ir_rd ir) (sign_extend_h (ucast v)) c))))"

definition do_lw :: "env \<Rightarrow> rv_insn \<Rightarrow> ctx \<Rightarrow> outcome" where
  "do_lw E ir c = 
     (let addr = X (c_rv c) (ir_rs1 ir) + ir_imm ir; c = trace_mem addr c in
      exc_misalign_handler E 3 LOAD_MISALIGNED False addr c
           (read_mem ram_read_w addr c (\<lambda>v. Nextop (write_X (ir_rd ir) (v) c))))"

definition do_lbu :: "env \<Rightarrow> rv_insn \<Rightarrow> ctx \<Rightarrow> outcome" where
  "do_lbu E ir c = 
     (let addr = X (c_rv c) (ir_rs1 ir) + ir_imm ir; c = trace_mem addr c in
      read_mem ram_read_b addr c (\<lambda>v. Nextop (write_X (ir_rd ir) (ucast v) c)))"

definition do_lhu :: "env \<Rightarrow> rv_insn \<Rightarrow> ctx \<Rightarrow> outcome" where
  "do_lhu E ir c = 
     (let addr = X (c_rv c) (ir_rs1 ir) + ir_imm ir; c = trace_mem addr c in
      exc_misalign_handler E 1 LOAD_MISALIGNED False addr c
           (read_mem ram_read_s addr c (\<lambda>v. Nextop (write_X (ir_rd ir) (ucast v) c))))"

definition do_sb :: "env \<Rightarrow> rv_insn \<Rightarrow> ctx \<Rightarrow> outcome" where
  "do_sb E ir c = 
     (let addr = X (c_rv c) (ir_rs1 ir) + ir_imm ir; c = trace_mem addr c in
      write_mem ram_write_b addr (ucast (X (c_rv c) (ir_rs2 ir))) c Nextop)"

definition do_sh :: "env \<Rightarrow> rv_insn \<Rightarrow> ctx \<Rightarrow> outcome" where
  "do_sh E ir c = 
     (let addr = X (c_rv c) (ir_rs1 ir) + ir_imm ir; c = trace_mem addr c in
      exc_misalign_handler E 1 STORE_MISALIGNED False addr c
           (write_mem ram_write_s addr (ucast (X (c_rv c) (ir_rs2 ir))) c Nextop))"

definition do_sw :: "env \<Rightarrow> rv_insn \<Rightarrow> ctx \<Rightarrow> outcome" where
  "do_sw E ir c = 
     (let addr = X (c_rv c) (ir_rs1 ir) + ir_imm ir; c = trace_mem addr c in
      exc_misalign_handler E 3 STORE_MISALIGNED False addr c
           (write_mem ram_write_w addr (X (c_rv c) (ir_rs2 ir)) c Nextop))"

definition do_addi :: "rv_insn \<Rightarrow> riscv \<Rightarrow> riscv" where
  "do_addi ir rv = set_X (ir_rd ir) (X rv (ir_rs1 ir) + ir_imm ir) rv"

definition do_slti :: "rv_insn \<Rightarrow> riscv \<Rightarrow> riscv" where
  "do_slti ir rv = 
     set_X (ir_rd ir) (if sint (X rv (ir_rs1 ir)) < sint (ir_imm ir) then 1 else 0) rv"

definition do_sltiu :: "rv_insn \<Rightarrow> riscv \<Rightarrow> riscv" where
  "do_sltiu ir rv = set_X (ir_rd ir) (if X rv (ir_rs1 ir) < ir_imm ir then 1 else 0) rv"

definition do_xori :: "rv_insn \<Rightarrow> riscv \<Rightarrow> riscv" where
  "do_xori ir rv = set_X (ir_rd ir) (X rv (ir_rs1 ir) XOR ir_imm ir) rv"

definition do_ori :: "rv_insn \<Rightarrow> riscv \<Rightarrow> riscv" where
  "do_ori ir rv = set_X (ir_rd ir) (X rv (ir_rs1 ir) OR ir_imm ir) rv"

definition do_andi :: "rv_insn \<Rightarrow> riscv \<Rightarrow> riscv" where
  "do_andi ir rv = set_X (ir_rd ir) (X rv (ir_rs1 ir) AND ir_imm ir) rv"

text \<open>\<^verbatim>\<open>shift_func\<close> switches on the opcode again; any other opcode is unreachable.\<close>

definition shift_func :: "rv_insn \<Rightarrow> riscv \<Rightarrow> riscv option" where
  "shift_func ir rv =
     (let s = unat (ir_imm ir AND 0x1F); x = X rv (ir_rs1 ir) in
      if ir_opcode ir = RV32I rv_insn_slli then Some (set_X (ir_rd ir) (push_bit s x) rv)
      else if ir_opcode ir = RV32I rv_insn_srli then Some (set_X (ir_rd ir) (drop_bit s x) rv)
      else if ir_opcode ir = RV32I rv_insn_srai then Some (set_X (ir_rd ir) (sar s x) rv)
      else None)"

definition do_slli :: "env \<Rightarrow> rv_insn \<Rightarrow> ctx \<Rightarrow> outcome" where
  "do_slli E ir c = from_option (shift_func ir (c_rv c)) c"

definition do_srli :: "env \<Rightarrow> rv_insn \<Rightarrow> ctx \<Rightarrow> outcome" where
  "do_srli E ir c = from_option (shift_func ir (c_rv c)) c"

definition do_srai :: "env \<Rightarrow> rv_insn \<Rightarrow> ctx \<Rightarrow> outcome" where
  "do_srai E ir c = from_option (shift_func ir (c_rv c)) c"

definition do_add :: "rv_insn \<Rightarrow> riscv \<Rightarrow> riscv" where
  "do_add ir rv = set_X (ir_rd ir) (X rv (ir_rs1 ir) + X rv (ir_rs2 ir)) rv"

definition do_sub :: "rv_insn \<Rightarrow> riscv \<Rightarrow> riscv" where
  "do_sub ir rv = set_X (ir_rd ir) (X rv (ir_rs1 ir) - X rv (ir_rs2 ir)) rv"

definition do_sll :: "rv_insn \<Rightarrow> riscv \<Rightarrow> riscv" where
  "do_sll ir rv = 
     set_X (ir_rd ir) (push_bit (unat (X rv (ir_rs2 ir) AND 0x1F)) (X rv (ir_rs1 ir))) rv"

definition do_slt :: "rv_insn \<Rightarrow> riscv \<Rightarrow> riscv" where
  "do_slt ir rv = 
     set_X (ir_rd ir) (if sint (X rv (ir_rs1 ir)) < sint (X rv (ir_rs2 ir)) then 1 else 0) rv"

definition do_sltu :: "rv_insn \<Rightarrow> riscv \<Rightarrow> riscv" where
  "do_sltu ir rv = 
     set_X (ir_rd ir) (if X rv (ir_rs1 ir) < X rv (ir_rs2 ir) then 1 else 0) rv"

definition do_xor :: "rv_insn \<Rightarrow> riscv \<Rightarrow> riscv" where
  "do_xor ir rv = set_X (ir_rd ir) (X rv (ir_rs1 ir) XOR X rv (ir_rs2 ir)) rv"

definition do_srl :: "rv_insn \<Rightarrow> riscv \<Rightarrow> riscv" where
  "do_srl ir rv = 
     set_X (ir_rd ir) (drop_bit (unat (X rv (ir_rs2 ir) AND 0x1F)) (X rv (ir_rs1 ir))) rv"

definition do_sra :: "rv_insn \<Rightarrow> riscv \<Rightarrow> riscv" where
  "do_sra ir rv = 
     set_X (ir_rd ir) (sar (unat (X rv (ir_rs2 ir) AND 0x1F)) (X rv (ir_rs1 ir))) rv"

definition do_or :: "rv_insn \<Rightarrow> riscv \<Rightarrow> riscv" where
  "do_or ir rv = set_X (ir_rd ir) (X rv (ir_rs1 ir) OR X rv (ir_rs2 ir)) rv"

definition do_and :: "rv_insn \<Rightarrow> riscv \<Rightarrow> riscv" where
  "do_and ir rv = set_X (ir_rd ir) (X rv (ir_rs1 ir) AND X rv (ir_rs2 ir)) rv"

definition do_fence :: "env \<Rightarrow> rv_insn \<Rightarrow> ctx \<Rightarrow> outcome" where
  "do_fence E ir c = End_op (c\<lparr>c_pc := c_pc c + 4\<rparr>)"

definition do_ecall :: "env \<Rightarrow> rv_insn \<Rightarrow> ctx \<Rightarrow> outcome" where
  "do_ecall E ir c = callback (on_ecall E) False c"

definition do_ebreak :: "env \<Rightarrow> rv_insn \<Rightarrow> ctx \<Rightarrow> outcome" where
  "do_ebreak E ir c = callback (on_ebreak E) False c"

section \<open>Privileged, Zifencei and Zicsr instructions\<close>

definition do_wfi :: "env \<Rightarrow> rv_insn \<Rightarrow> ctx \<Rightarrow> outcome" where
  "do_wfi E ir c = End_op (c\<lparr>c_pc := c_pc c + 4\<rparr>)"

definition do_uret :: "env \<Rightarrow> rv_insn \<Rightarrow> ctx \<Rightarrow> outcome" where
  "do_uret E ir c = Return False (c_rv c) (c_em c)"

definition do_hret :: "env \<Rightarrow> rv_insn \<Rightarrow> ctx \<Rightarrow> outcome" where
  "do_hret E ir c = Return False (c_rv c) (c_em c)"

definition do_mret :: "env \<Rightarrow> rv_insn \<Rightarrow> ctx \<Rightarrow> outcome" where
  "do_mret E ir c = 
     (let rv = c_rv c;
          mode = drop_bit 11 (csr rv csr_mstatus AND MSTATUS_MPP);
          mstatus = csr rv csr_mstatus AND NOT MSTATUS_MPP;
          mpie = drop_bit 7 (mstatus AND MSTATUS_MPIE);
          mstatus = mstatus OR push_bit 3 mpie;
          mstatus = mstatus OR MSTATUS_MPIE
      in Return True ((set_csr csr_mstatus mstatus rv)\<lparr>priv_mode := mode, PC := csr rv csr_mepc\<rparr>) (c_em c))"

definition do_sfencevma :: "env \<Rightarrow> rv_insn \<Rightarrow> ctx \<Rightarrow> outcome" where
  "do_sfencevma E ir c = End_op (c\<lparr>c_pc := c_pc c + 4\<rparr>)"

definition do_fencei :: "env \<Rightarrow> rv_insn \<Rightarrow> ctx \<Rightarrow> outcome" where
  "do_fencei E ir c = finish (c\<lparr>c_pc := c_pc c + 4\<rparr>)"

definition do_csrrw :: "env \<Rightarrow> rv_insn \<Rightarrow> ctx \<Rightarrow> outcome" where
  "do_csrrw E ir c = 
     (let v = X (c_rv c) (ir_rs1 ir);
          (tmp, rv) = csr_csrrw E (c_rv c) (ir_imm ir) v (c_cycle c)
      in Nextop (c\<lparr>c_rv := set_X (ir_rd ir) (if ir_rd ir \<noteq> 0 then tmp else X rv (ir_rd ir)) rv\<rparr>))"

definition do_csrrs :: "env \<Rightarrow> rv_insn \<Rightarrow> ctx \<Rightarrow> outcome" where
  "do_csrrs E ir c = 
     (let v = if ir_rs1 ir = rv_reg_zero then 0 else X (c_rv c) (ir_rs1 ir);
          (tmp, rv) = csr_csrrs E (c_rv c) (ir_imm ir) v (c_cycle c)
      in Nextop (c\<lparr>c_rv := set_X (ir_rd ir) (if ir_rd ir \<noteq> 0 then tmp else X rv (ir_rd ir)) rv\<rparr>))"

definition do_csrrc :: "env \<Rightarrow> rv_insn \<Rightarrow> ctx \<Rightarrow> outcome" where
  "do_csrrc E ir c = 
     (let v = if ir_rs1 ir = rv_reg_zero then 0 else X (c_rv c) (ir_rs1 ir);
          (tmp, rv) = csr_csrrc E (c_rv c) (ir_imm ir) v (c_cycle c)
      in Nextop (c\<lparr>c_rv := set_X (ir_rd ir) (if ir_rd ir \<noteq> 0 then tmp else X rv (ir_rd ir)) rv\<rparr>))"

definition do_csrrwi :: "env \<Rightarrow> rv_insn \<Rightarrow> ctx \<Rightarrow> outcome" where
  "do_csrrwi E ir c = 
     (let v = ucast (ir_rs1 ir);
          (tmp, rv) = csr_csrrw E (c_rv c) (ir_imm ir) v (c_cycle c)
      in Nextop (c\<lparr>c_rv := set_X (ir_rd ir) (if ir_rd ir \<noteq> 0 then tmp else X rv (ir_rd ir)) rv\<rparr>))"

definition do_csrrsi :: "env \<Rightarrow> rv_insn \<Rightarrow> ctx \<Rightarrow> outcome" where
  "do_csrrsi E ir c = 
     (let v = ucast (ir_rs1 ir);
          (tmp, rv) = csr_csrrs E (c_rv c) (ir_imm ir) v (c_cycle c)
      in Nextop (c\<lparr>c_rv := set_X (ir_rd ir) (if ir_rd ir \<noteq> 0 then tmp else X rv (ir_rd ir)) rv\<rparr>))"

definition do_csrrci :: "env \<Rightarrow> rv_insn \<Rightarrow> ctx \<Rightarrow> outcome" where
  "do_csrrci E ir c = 
     (let v = ucast (ir_rs1 ir);
          (tmp, rv) = csr_csrrc E (c_rv c) (ir_imm ir) v (c_cycle c)
      in Nextop (c\<lparr>c_rv := set_X (ir_rd ir) (if ir_rd ir \<noteq> 0 then tmp else X rv (ir_rd ir)) rv\<rparr>))"

section \<open>RV32M\<close>

definition do_mul :: "rv_insn \<Rightarrow> riscv \<Rightarrow> riscv" where
  "do_mul ir rv = 
     set_X (ir_rd ir) (ucast ((scast (X rv (ir_rs1 ir)) :: u64) * (scast (X rv (ir_rs2 ir)) :: u64) AND 0xFFFFFFFF)) rv"

definition do_mulh :: "rv_insn \<Rightarrow> riscv \<Rightarrow> riscv" where
  "do_mulh ir rv = 
     set_X (ir_rd ir) (ucast (drop_bit 32 ((scast (X rv (ir_rs1 ir)) :: u64) * (scast (X rv (ir_rs2 ir)) :: u64)))) rv"

definition do_mulhsu :: "rv_insn \<Rightarrow> riscv \<Rightarrow> riscv" where
  "do_mulhsu ir rv = 
     set_X (ir_rd ir) (ucast (drop_bit 32 ((scast (X rv (ir_rs1 ir)) :: u64) * (ucast (X rv (ir_rs2 ir)) :: u64)))) rv"

definition do_mulhu :: "rv_insn \<Rightarrow> riscv \<Rightarrow> riscv" where
  "do_mulhu ir rv = 
     set_X (ir_rd ir) (ucast (drop_bit 32 ((ucast (X rv (ir_rs1 ir)) :: u64) * (ucast (X rv (ir_rs2 ir)) :: u64)))) rv"

definition do_div :: "rv_insn \<Rightarrow> riscv \<Rightarrow> riscv" where
  "do_div ir rv = 
     set_X (ir_rd ir) (if X rv (ir_rs2 ir) = 0 then NOT 0
        else if sint (X rv (ir_rs2 ir)) = -1 \<and> X rv (ir_rs1 ir) = 0x80000000 then X rv (ir_rs1 ir)
        else word_of_int (sint (X rv (ir_rs1 ir)) sdiv sint (X rv (ir_rs2 ir)))) rv"

definition do_divu :: "rv_insn \<Rightarrow> riscv \<Rightarrow> riscv" where
  "do_divu ir rv = 
     set_X (ir_rd ir) (if X rv (ir_rs2 ir) = 0 then NOT 0 else X rv (ir_rs1 ir) div X rv (ir_rs2 ir)) rv"

definition do_rem :: "rv_insn \<Rightarrow> riscv \<Rightarrow> riscv" where
  "do_rem ir rv = 
     set_X (ir_rd ir) (if X rv (ir_rs2 ir) = 0 then X rv (ir_rs1 ir)
        else if sint (X rv (ir_rs2 ir)) = -1 \<and> X rv (ir_rs1 ir) = 0x80000000 then 0
        else word_of_int (sint (X rv (ir_rs1 ir)) smod sint (X rv (ir_rs2 ir)))) rv"

definition do_remu :: "rv_insn \<Rightarrow> riscv \<Rightarrow> riscv" where
  "do_remu ir rv = 
     set_X (ir_rd ir) (if X rv (ir_rs2 ir) = 0 then X rv (ir_rs1 ir) else X rv (ir_rs1 ir) mod X rv (ir_rs2 ir)) rv"

section \<open>RV32A\<close>

definition do_lrw :: "env \<Rightarrow> rv_insn \<Rightarrow> ctx \<Rightarrow> outcome" where
  "do_lrw E ir c = 
     (let addr = X (c_rv c) (ir_rs1 ir); c = trace_mem addr c in
      exc_misalign_handler E 3 LOAD_MISALIGNED False addr c
        (if ir_rd ir \<noteq> 0 then read_mem ram_read_w addr c (\<lambda>v. Nextop (write_X (ir_rd ir) v c)) else Nextop c))"

definition do_scw :: "env \<Rightarrow> rv_insn \<Rightarrow> ctx \<Rightarrow> outcome" where
  "do_scw E ir c = 
     (let addr = X (c_rv c) (ir_rs1 ir); c = trace_mem addr c in
      exc_misalign_handler E 3 STORE_MISALIGNED False addr c
        (write_mem ram_write_w addr (X (c_rv c) (ir_rs2 ir)) c (\<lambda>c. Nextop (write_X (ir_rd ir) 0 c))))"

text \<open>The nine AMO bodies differ only in the value written back.\<close>

definition amo_op :: "(u32 \<Rightarrow> u32 \<Rightarrow> u32) \<Rightarrow> env \<Rightarrow> rv_insn \<Rightarrow> ctx \<Rightarrow> outcome" where
  "amo_op f E ir c =
     (let addr = X (c_rv c) (ir_rs1 ir); c = trace_mem addr c in
      exc_misalign_handler E 3 LOAD_MISALIGNED False addr c
        (read_mem ram_read_w addr c (\<lambda>value1.
           let value2 = X (c_rv c) (ir_rs2 ir);
               c = (if ir_rd ir \<noteq> 0 then write_X (ir_rd ir) value1 c else c)
           in write_mem ram_write_w addr (f value1 value2) c Nextop)))"

definition do_amoswapw :: "env \<Rightarrow> rv_insn \<Rightarrow> ctx \<Rightarrow> outcome" where
  "do_amoswapw E ir c = amo_op (\<lambda>a b. b) E ir c"

definition do_amoaddw :: "env \<Rightarrow> rv_insn \<Rightarrow> ctx \<Rightarrow> outcome" where
  "do_amoaddw E ir c = amo_op (\<lambda>a b. a + b) E ir c"

definition do_amoxorw :: "env \<Rightarrow> rv_insn \<Rightarrow> ctx \<Rightarrow> outcome" where
  "do_amoxorw E ir c = amo_op (\<lambda>a b. a XOR b) E ir c"

definition do_amoandw :: "env \<Rightarrow> rv_insn \<Rightarrow> ctx \<Rightarrow> outcome" where
  "do_amoandw E ir c = amo_op (\<lambda>a b. a AND b) E ir c"

definition do_amoorw :: "env \<Rightarrow> rv_insn \<Rightarrow> ctx \<Rightarrow> outcome" where
  "do_amoorw E ir c = amo_op (\<lambda>a b. a OR b) E ir c"

definition do_amominw :: "env \<Rightarrow> rv_insn \<Rightarrow> ctx \<Rightarrow> outcome" where
  "do_amominw E ir c = amo_op (\<lambda>a b. if sint a < sint b then a else b) E ir c"

definition do_amomaxw :: "env \<Rightarrow> rv_insn \<Rightarrow> ctx \<Rightarrow> outcome" where
  "do_amomaxw E ir c = amo_op (\<lambda>a b. if sint a > sint b then a else b) E ir c"

definition do_amominuw :: "env \<Rightarrow> rv_insn \<Rightarrow> ctx \<Rightarrow> outcome" where
  "do_amominuw E ir c = amo_op (\<lambda>a b. if a < b then a else b) E ir c"

definition do_amomaxuw :: "env \<Rightarrow> rv_insn \<Rightarrow> ctx \<Rightarrow> outcome" where
  "do_amomaxuw E ir c = amo_op (\<lambda>a b. if a > b then a else b) E ir c"

section \<open>RV32F\<close>

definition do_flw :: "env \<Rightarrow> rv_insn \<Rightarrow> ctx \<Rightarrow> outcome" where
  "do_flw E ir c = 
     (let addr = X (c_rv c) (ir_rs1 ir) + ir_imm ir; c = trace_mem addr c in
      exc_misalign_handler E 3 LOAD_MISALIGNED False addr c
           (read_mem ram_read_w addr c (\<lambda>v. Nextop (write_F (ir_rd ir) (v) c))))"

definition do_fsw :: "env \<Rightarrow> rv_insn \<Rightarrow> ctx \<Rightarrow> outcome" where
  "do_fsw E ir c = 
     (let addr = X (c_rv c) (ir_rs1 ir) + ir_imm ir; c = trace_mem addr c in
      exc_misalign_handler E 3 STORE_MISALIGNED False addr c
           (write_mem ram_write_w addr (F (c_rv c) (ir_rs2 ir)) c Nextop))"

definition do_fmadds :: "env \<Rightarrow> rv_insn \<Rightarrow> ctx \<Rightarrow> outcome" where
  "do_fmadds E ir c = 
     fp_arith (ir_rm ir) (\<lambda>rv. f32_mulAdd (sf E) (softfloat_roundingMode rv) (F rv (ir_rs1 ir)) (F rv (ir_rs2 ir)) (F rv (ir_rs3 ir))) (write_fd (ir_rd ir)) c"

definition do_fmsubs :: "env \<Rightarrow> rv_insn \<Rightarrow> ctx \<Rightarrow> outcome" where
  "do_fmsubs E ir c = 
     fp_arith (ir_rm ir) (\<lambda>rv. f32_mulAdd (sf E) (softfloat_roundingMode rv) (F rv (ir_rs1 ir)) (F rv (ir_rs2 ir)) (F rv (ir_rs3 ir) XOR FMASK_SIGN)) (write_fd (ir_rd ir)) c"

definition do_fnmsubs :: "env \<Rightarrow> rv_insn \<Rightarrow> ctx \<Rightarrow> outcome" where
  "do_fnmsubs E ir c = 
     fp_arith (ir_rm ir) (\<lambda>rv. f32_mulAdd (sf E) (softfloat_roundingMode rv) (F rv (ir_rs1 ir) XOR FMASK_SIGN) (F rv (ir_rs2 ir)) (F rv (ir_rs3 ir))) (write_fd (ir_rd ir)) c"

definition do_fnmadds :: "env \<Rightarrow> rv_insn \<Rightarrow> ctx \<Rightarrow> outcome" where
  "do_fnmadds E ir c = 
     fp_arith (ir_rm ir) (\<lambda>rv. f32_mulAdd (sf E) (softfloat_roundingMode rv) (F rv (ir_rs1 ir) XOR FMASK_SIGN) (F rv (ir_rs2 ir)) (F rv (ir_rs3 ir) XOR FMASK_SIGN)) (write_fd (ir_rd ir)) c"

definition do_fadds :: "env \<Rightarrow> rv_insn \<Rightarrow> ctx \<Rightarrow> outcome" where
  "do_fadds E ir c = 
     fp_arith (ir_rm ir) (\<lambda>rv. f32_add (sf E) (softfloat_roundingMode rv) (F rv (ir_rs1 ir)) (F rv (ir_rs2 ir))) (write_fd (ir_rd ir)) c"

definition do_fsubs :: "env \<Rightarrow> rv_insn \<Rightarrow> ctx \<Rightarrow> outcome" where
  "do_fsubs E ir c = 
     fp_arith (ir_rm ir) (\<lambda>rv. f32_sub (sf E) (softfloat_roundingMode rv) (F rv (ir_rs1 ir)) (F rv (ir_rs2 ir))) (write_fd (ir_rd ir)) c"

definition do_fmuls :: "env \<Rightarrow> rv_insn \<Rightarrow> ctx \<Rightarrow> outcome" where
  "do_fmuls E ir c = 
     fp_arith (ir_rm ir) (\<lambda>rv. f32_mul (sf E) (softfloat_roundingMode rv) (F rv (ir_rs1 ir)) (F rv (ir_rs2 ir))) (write_fd (ir_rd ir)) c"

definition do_fdivs :: "env \<Rightarrow> rv_insn \<Rightarrow> ctx \<Rightarrow> outcome" where
  "do_fdivs E ir c = 
     fp_arith (ir_rm ir) (\<lambda>rv. f32_div (sf E) (softfloat_roundingMode rv) (F rv (ir_rs1 ir)) (F rv (ir_rs2 ir))) (write_fd (ir_rd ir)) c"

definition do_fsqrts :: "env \<Rightarrow> rv_insn \<Rightarrow> ctx \<Rightarrow> outcome" where
  "do_fsqrts E ir c = 
     fp_arith (ir_rm ir) (\<lambda>rv. f32_sqrt (sf E) (softfloat_roundingMode rv) (F rv (ir_rs1 ir))) (write_fd (ir_rd ir)) c"

definition do_fsgnjs :: "rv_insn \<Rightarrow> riscv \<Rightarrow> riscv" where
  "do_fsgnjs ir rv = 
     set_F (ir_rd ir) (((F rv (ir_rs1 ir)) AND NOT FMASK_SIGN) OR ((F rv (ir_rs2 ir)) AND FMASK_SIGN)) rv"

definition do_fsgnjns :: "rv_insn \<Rightarrow> riscv \<Rightarrow> riscv" where
  "do_fsgnjns ir rv = 
     set_F (ir_rd ir) (((F rv (ir_rs1 ir)) AND NOT FMASK_SIGN) OR (NOT (F rv (ir_rs2 ir)) AND FMASK_SIGN)) rv"

definition do_fsgnjxs :: "rv_insn \<Rightarrow> riscv \<Rightarrow> riscv" where
  "do_fsgnjxs ir rv = 
     set_F (ir_rd ir) ((F rv (ir_rs1 ir)) XOR ((F rv (ir_rs2 ir)) AND FMASK_SIGN)) rv"

definition do_fmins :: "env \<Rightarrow> rv_insn \<Rightarrow> ctx \<Rightarrow> outcome" where
  "do_fmins E ir c = 
     (let rv = c_rv c; a = F rv (ir_rs1 ir); b = F rv (ir_rs2 ir);
          rv1 = (if f32_isSignalingNaN (sf E) a \<or> f32_isSignalingNaN (sf E) b
                 then set_csr csr_fcsr (csr rv csr_fcsr OR FFLAG_INVALID_OP) rv else rv);
          (lt, fl1) = f32_lt_quiet (sf E) (F rv (ir_rs1 ir)) (F rv (ir_rs2 ir));
          (eq, fl2) = (if lt then (False, {}) else f32_eq (sf E) a b);
          first = (lt \<or> eq \<and> F rv (ir_rs1 ir) AND FMASK_SIGN \<noteq> 0);
          rv2 = rv1\<lparr>softfloat_exceptionFlags := softfloat_exceptionFlags rv1 \<union> fl1 \<union> fl2\<rparr>
      in Nextop (c\<lparr>c_rv := set_F (ir_rd ir)
           (if is_nan a \<and> is_nan b then RV_NAN else if first \<or> is_nan b then a else b) rv2\<rparr>))"

definition do_fmaxs :: "env \<Rightarrow> rv_insn \<Rightarrow> ctx \<Rightarrow> outcome" where
  "do_fmaxs E ir c = 
     (let rv = c_rv c; a = F rv (ir_rs1 ir); b = F rv (ir_rs2 ir);
          rv1 = (if f32_isSignalingNaN (sf E) a \<or> f32_isSignalingNaN (sf E) b
                 then set_csr csr_fcsr (csr rv csr_fcsr OR FFLAG_INVALID_OP) rv else rv);
          (lt, fl1) = f32_lt_quiet (sf E) (F rv (ir_rs2 ir)) (F rv (ir_rs1 ir));
          (eq, fl2) = (if lt then (False, {}) else f32_eq (sf E) a b);
          first = (lt \<or> eq \<and> F rv (ir_rs2 ir) AND FMASK_SIGN \<noteq> 0);
          rv2 = rv1\<lparr>softfloat_exceptionFlags := softfloat_exceptionFlags rv1 \<union> fl1 \<union> fl2\<rparr>
      in Nextop (c\<lparr>c_rv := set_F (ir_rd ir)
           (if is_nan a \<and> is_nan b then RV_NAN else if first \<or> is_nan b then a else b) rv2\<rparr>))"

definition do_fcvtws :: "env \<Rightarrow> rv_insn \<Rightarrow> ctx \<Rightarrow> outcome" where
  "do_fcvtws E ir c = 
     fp_arith (ir_rm ir) (\<lambda>rv. f32_to_i32 (sf E) (softfloat_roundingMode rv) (F rv (ir_rs1 ir))) (write_xd (ir_rd ir)) c"

definition do_fcvtwus :: "env \<Rightarrow> rv_insn \<Rightarrow> ctx \<Rightarrow> outcome" where
  "do_fcvtwus E ir c = 
     fp_arith (ir_rm ir) (\<lambda>rv. f32_to_ui32 (sf E) (softfloat_roundingMode rv) (F rv (ir_rs1 ir))) (write_xd (ir_rd ir)) c"

definition do_fmvxw :: "rv_insn \<Rightarrow> riscv \<Rightarrow> riscv" where
  "do_fmvxw ir rv = (if ir_rd ir \<noteq> 0 then set_X (ir_rd ir) (F rv (ir_rs1 ir)) rv else rv)"

definition do_feqs :: "env \<Rightarrow> rv_insn \<Rightarrow> ctx \<Rightarrow> outcome" where
  "do_feqs E ir c = fp_compare (f32_eq (sf E)) ir c"

definition do_flts :: "env \<Rightarrow> rv_insn \<Rightarrow> ctx \<Rightarrow> outcome" where
  "do_flts E ir c = fp_compare (f32_lt (sf E)) ir c"

definition do_fles :: "env \<Rightarrow> rv_insn \<Rightarrow> ctx \<Rightarrow> outcome" where
  "do_fles E ir c = fp_compare (f32_le (sf E)) ir c"

definition do_fclasss :: "rv_insn \<Rightarrow> riscv \<Rightarrow> riscv" where
  "do_fclasss ir rv = (if ir_rd ir \<noteq> 0 then set_X (ir_rd ir) (calc_fclass (F rv (ir_rs1 ir))) rv else rv)"

definition do_fcvtsw :: "env \<Rightarrow> rv_insn \<Rightarrow> ctx \<Rightarrow> outcome" where
  "do_fcvtsw E ir c = 
     fp_arith (ir_rm ir) (\<lambda>rv. i32_to_f32 (sf E) (softfloat_roundingMode rv) (X rv (ir_rs1 ir))) (write_fd (ir_rd ir)) c"

definition do_fcvtswu :: "env \<Rightarrow> rv_insn \<Rightarrow> ctx \<Rightarrow> outcome" where
  "do_fcvtswu E ir c = 
     fp_arith (ir_rm ir) (\<lambda>rv. ui32_to_f32 (sf E) (softfloat_roundingMode rv) (X rv (ir_rs1 ir))) (write_fd (ir_rd ir)) c"

definition do_fmvwx :: "rv_insn \<Rightarrow> riscv \<Rightarrow> riscv" where
  "do_fmvwx ir rv = set_F (ir_rd ir) (X rv (ir_rs1 ir)) rv"

section \<open>RV32C\<close>

definition do_caddi4spn :: "rv_insn \<Rightarrow> riscv \<Rightarrow> riscv" where
  "do_caddi4spn ir rv = 
     set_X (ir_rd ir) (X rv rv_reg_sp + ucast (ucast (ir_imm ir) :: u16)) rv"

definition do_clw :: "env \<Rightarrow> rv_insn \<Rightarrow> ctx \<Rightarrow> outcome" where
  "do_clw E ir c = 
     (let addr = X (c_rv c) (ir_rs1 ir) + ir_imm ir; c = trace_mem addr c in
      exc_misalign_handler E 3 LOAD_MISALIGNED True addr c
           (read_mem ram_read_w addr c (\<lambda>v. Nextop (write_X (ir_rd ir) (v) c))))"

definition do_csw :: "env \<Rightarrow> rv_insn \<Rightarrow> ctx \<Rightarrow> outcome" where
  "do_csw E ir c = 
     (let addr = X (c_rv c) (ir_rs1 ir) + ir_imm ir; c = trace_mem addr c in
      exc_misalign_handler E 3 STORE_MISALIGNED True addr c
           (write_mem ram_write_w addr (X (c_rv c) (ir_rs2 ir)) c Nextop))"

definition do_cnop :: "rv_insn \<Rightarrow> riscv \<Rightarrow> riscv" where
  "do_cnop ir rv = rv"

definition do_caddi :: "rv_insn \<Rightarrow> riscv \<Rightarrow> riscv" where
  "do_caddi ir rv = 
     set_X (ir_rd ir) (X rv (ir_rd ir) + scast (ucast (ir_imm ir) :: u16)) rv"

definition do_cjal :: "env \<Rightarrow> rv_insn \<Rightarrow> ctx \<Rightarrow> outcome" where
  "do_cjal E ir c = 
     (let c1 = write_X rv_reg_ra (c_pc c + 2) c; c2 = c1\<lparr>c_pc := c_pc c1 + ir_imm ir\<rparr>
      in if ir_branch_taken ir \<noteq> None then Taken (set_last_pc c2) else End_op c2)"

definition do_cli :: "rv_insn \<Rightarrow> riscv \<Rightarrow> riscv" where
  "do_cli ir rv = set_X (ir_rd ir) (ir_imm ir) rv"

definition do_caddi16sp :: "rv_insn \<Rightarrow> riscv \<Rightarrow> riscv" where
  "do_caddi16sp ir rv = set_X (ir_rd ir) (X rv (ir_rd ir) + ir_imm ir) rv"

definition do_clui :: "rv_insn \<Rightarrow> riscv \<Rightarrow> riscv" where
  "do_clui ir rv = set_X (ir_rd ir) (ir_imm ir) rv"

text \<open>A shift by 32 or more is undefined in C.\<close>

definition do_csrli :: "env \<Rightarrow> rv_insn \<Rightarrow> ctx \<Rightarrow> outcome" where
  "do_csrli E ir c = 
     (if ir_shamt ir < 32
      then Nextop (write_X (ir_rs1 ir) (drop_bit (unat (ir_shamt ir)) (X (c_rv c) (ir_rs1 ir))) c)
      else Undef)"

definition csrai_loop :: "nat \<Rightarrow> u32 \<Rightarrow> u32" where
  "csrai_loop n x =
     (let msk = 0x80000000 AND x in for_loop 0 n (\<lambda>i y. y OR drop_bit i msk) (drop_bit n x))"

definition do_csrai :: "env \<Rightarrow> rv_insn \<Rightarrow> ctx \<Rightarrow> outcome" where
  "do_csrai E ir c = 
     (if ir_shamt ir < 32
      then Nextop (write_X (ir_rs1 ir) (csrai_loop (unat (ir_shamt ir)) (X (c_rv c) (ir_rs1 ir))) c)
      else Undef)"

definition do_candi :: "rv_insn \<Rightarrow> riscv \<Rightarrow> riscv" where
  "do_candi ir rv = set_X (ir_rs1 ir) (X rv (ir_rs1 ir) AND ir_imm ir) rv"

definition do_csub :: "rv_insn \<Rightarrow> riscv \<Rightarrow> riscv" where
  "do_csub ir rv = set_X (ir_rd ir) (X rv (ir_rs1 ir) - X rv (ir_rs2 ir)) rv"

definition do_cxor :: "rv_insn \<Rightarrow> riscv \<Rightarrow> riscv" where
  "do_cxor ir rv = set_X (ir_rd ir) (X rv (ir_rs1 ir) XOR X rv (ir_rs2 ir)) rv"

definition do_cor :: "rv_insn \<Rightarrow> riscv \<Rightarrow> riscv" where
  "do_cor ir rv = set_X (ir_rd ir) (X rv (ir_rs1 ir) OR X rv (ir_rs2 ir)) rv"

definition do_cand :: "rv_insn \<Rightarrow> riscv \<Rightarrow> riscv" where
  "do_cand ir rv = set_X (ir_rd ir) (X rv (ir_rs1 ir) AND X rv (ir_rs2 ir)) rv"

definition do_cj :: "env \<Rightarrow> rv_insn \<Rightarrow> ctx \<Rightarrow> outcome" where
  "do_cj E ir c = 
     (let c1 = c\<lparr>c_pc := c_pc c + ir_imm ir\<rparr>
      in if ir_branch_taken ir \<noteq> None then Taken (set_last_pc c1) else End_op c1)"

definition do_cbeqz :: "env \<Rightarrow> rv_insn \<Rightarrow> ctx \<Rightarrow> outcome" where
  "do_cbeqz E ir c = cbranch (X (c_rv c) (ir_rs1 ir) \<noteq> 0) ir c"

definition do_cbnez :: "env \<Rightarrow> rv_insn \<Rightarrow> ctx \<Rightarrow> outcome" where
  "do_cbnez E ir c = cbranch (X (c_rv c) (ir_rs1 ir) = 0) ir c"

definition do_cslli :: "env \<Rightarrow> rv_insn \<Rightarrow> ctx \<Rightarrow> outcome" where
  "do_cslli E ir c = 
     (let s = unat (ucast (ir_imm ir) :: u8) in
      if s < 32 then Nextop (write_X (ir_rd ir) (push_bit s (X (c_rv c) (ir_rd ir))) c) else Undef)"

definition do_clwsp :: "env \<Rightarrow> rv_insn \<Rightarrow> ctx \<Rightarrow> outcome" where
  "do_clwsp E ir c = 
     (let addr = X (c_rv c) rv_reg_sp + ir_imm ir; c = trace_mem addr c in
      exc_misalign_handler E 3 LOAD_MISALIGNED True addr c
           (read_mem ram_read_w addr c (\<lambda>v. Nextop (write_X (ir_rd ir) (v) c))))"

definition do_cjr :: "env \<Rightarrow> rv_insn \<Rightarrow> ctx \<Rightarrow> outcome" where
  "do_cjr E ir c = Indirect (c\<lparr>c_pc := X (c_rv c) (ir_rs1 ir)\<rparr>)"

definition do_cmv :: "rv_insn \<Rightarrow> riscv \<Rightarrow> riscv" where
  "do_cmv ir rv = set_X (ir_rd ir) (X rv (ir_rs2 ir)) rv"

definition do_cebreak :: "env \<Rightarrow> rv_insn \<Rightarrow> ctx \<Rightarrow> outcome" where
  "do_cebreak E ir c = callback (on_ebreak E) True c"

definition do_cjalr :: "env \<Rightarrow> rv_insn \<Rightarrow> ctx \<Rightarrow> outcome" where
  "do_cjalr E ir c = 
     (let jump_to = X (c_rv c) (ir_rs1 ir) in
      Indirect ((write_X rv_reg_ra (c_pc c + 2) c)\<lparr>c_pc := jump_to\<rparr>))"

definition do_cadd :: "rv_insn \<Rightarrow> riscv \<Rightarrow> riscv" where
  "do_cadd ir rv = set_X (ir_rd ir) (X rv (ir_rs1 ir) + X rv (ir_rs2 ir)) rv"

definition do_cswsp :: "env \<Rightarrow> rv_insn \<Rightarrow> ctx \<Rightarrow> outcome" where
  "do_cswsp E ir c = 
     (let addr = X (c_rv c) rv_reg_sp + ir_imm ir; c = trace_mem addr c in
      exc_misalign_handler E 3 STORE_MISALIGNED True addr c
           (write_mem ram_write_w addr (X (c_rv c) (ir_rs2 ir)) c Nextop))"

section \<open>RV32FC\<close>

definition do_cflwsp :: "env \<Rightarrow> rv_insn \<Rightarrow> ctx \<Rightarrow> outcome" where
  "do_cflwsp E ir c = 
     (let addr = X (c_rv c) rv_reg_sp + ir_imm ir; c = trace_mem addr c in
      exc_misalign_handler E 3 LOAD_MISALIGNED False addr c
           (read_mem ram_read_w addr c (\<lambda>v. Nextop (write_F (ir_rd ir) (v) c))))"

definition do_cfswsp :: "env \<Rightarrow> rv_insn \<Rightarrow> ctx \<Rightarrow> outcome" where
  "do_cfswsp E ir c = 
     (let addr = X (c_rv c) rv_reg_sp + ir_imm ir; c = trace_mem addr c in
      exc_misalign_handler E 3 STORE_MISALIGNED False addr c
           (write_mem ram_write_w addr (F (c_rv c) (ir_rs2 ir)) c Nextop))"

definition do_cflw :: "env \<Rightarrow> rv_insn \<Rightarrow> ctx \<Rightarrow> outcome" where
  "do_cflw E ir c = 
     (let addr = X (c_rv c) (ir_rs1 ir) + ir_imm ir; c = trace_mem addr c in
      exc_misalign_handler E 3 LOAD_MISALIGNED False addr c
           (read_mem ram_read_w addr c (\<lambda>v. Nextop (write_F (ir_rd ir) (v) c))))"

definition do_cfsw :: "env \<Rightarrow> rv_insn \<Rightarrow> ctx \<Rightarrow> outcome" where
  "do_cfsw E ir c = 
     (let addr = X (c_rv c) (ir_rs1 ir) + ir_imm ir; c = trace_mem addr c in
      exc_misalign_handler E 3 STORE_MISALIGNED False addr c
           (write_mem ram_write_w addr (F (c_rv c) (ir_rs2 ir)) c Nextop))"

section \<open>Zba, Zbb, Zbc, Zbs\<close>

definition do_sh1add :: "rv_insn \<Rightarrow> riscv \<Rightarrow> riscv" where
  "do_sh1add ir rv = set_X (ir_rd ir) (push_bit 1 (X rv (ir_rs1 ir)) + X rv (ir_rs2 ir)) rv"

definition do_sh2add :: "rv_insn \<Rightarrow> riscv \<Rightarrow> riscv" where
  "do_sh2add ir rv = set_X (ir_rd ir) (push_bit 2 (X rv (ir_rs1 ir)) + X rv (ir_rs2 ir)) rv"

definition do_sh3add :: "rv_insn \<Rightarrow> riscv \<Rightarrow> riscv" where
  "do_sh3add ir rv = set_X (ir_rd ir) (push_bit 3 (X rv (ir_rs1 ir)) + X rv (ir_rs2 ir)) rv"

definition do_andn :: "rv_insn \<Rightarrow> riscv \<Rightarrow> riscv" where
  "do_andn ir rv = set_X (ir_rd ir) (X rv (ir_rs1 ir) AND NOT (X rv (ir_rs2 ir))) rv"

definition do_orn :: "rv_insn \<Rightarrow> riscv \<Rightarrow> riscv" where
  "do_orn ir rv = set_X (ir_rd ir) (X rv (ir_rs1 ir) OR NOT (X rv (ir_rs2 ir))) rv"

definition do_xnor :: "rv_insn \<Rightarrow> riscv \<Rightarrow> riscv" where
  "do_xnor ir rv = set_X (ir_rd ir) (NOT (X rv (ir_rs1 ir) XOR X rv (ir_rs2 ir))) rv"

definition do_clz :: "rv_insn \<Rightarrow> riscv \<Rightarrow> riscv" where
  "do_clz ir rv = 
     set_X (ir_rd ir) (if X rv (ir_rs1 ir) \<noteq> 0 then rv_clz (X rv (ir_rs1 ir)) else 32) rv"

definition do_ctz :: "rv_insn \<Rightarrow> riscv \<Rightarrow> riscv" where
  "do_ctz ir rv = 
     set_X (ir_rd ir) (if X rv (ir_rs1 ir) \<noteq> 0 then rv_ctz (X rv (ir_rs1 ir)) else 32) rv"

definition do_cpop :: "rv_insn \<Rightarrow> riscv \<Rightarrow> riscv" where
  "do_cpop ir rv = set_X (ir_rd ir) (rv_popcount (X rv (ir_rs1 ir))) rv"

definition do_max :: "rv_insn \<Rightarrow> riscv \<Rightarrow> riscv" where
  "do_max ir rv = 
     set_X (ir_rd ir) (if sint (X rv (ir_rs1 ir)) > sint (X rv (ir_rs2 ir)) then X rv (ir_rs1 ir) else X rv (ir_rs2 ir)) rv"

definition do_min :: "rv_insn \<Rightarrow> riscv \<Rightarrow> riscv" where
  "do_min ir rv = 
     set_X (ir_rd ir) (if sint (X rv (ir_rs1 ir)) < sint (X rv (ir_rs2 ir)) then X rv (ir_rs1 ir) else X rv (ir_rs2 ir)) rv"

definition do_maxu :: "rv_insn \<Rightarrow> riscv \<Rightarrow> riscv" where
  "do_maxu ir rv = 
     set_X (ir_rd ir) (if X rv (ir_rs1 ir) > X rv (ir_rs2 ir) then X rv (ir_rs1 ir) else X rv (ir_rs2 ir)) rv"

definition do_minu :: "rv_insn \<Rightarrow> riscv \<Rightarrow> riscv" where
  "do_minu ir rv = 
     set_X (ir_rd ir) (if X rv (ir_rs1 ir) < X rv (ir_rs2 ir) then X rv (ir_rs1 ir) else X rv (ir_rs2 ir)) rv"

definition do_sextb :: "rv_insn \<Rightarrow> riscv \<Rightarrow> riscv" where
  "do_sextb ir rv = 
     (let rv1 = set_X (ir_rd ir) (X rv (ir_rs1 ir) AND 0xFF) rv in
      if X rv1 (ir_rs1 ir) AND 0x80 \<noteq> 0 then set_X (ir_rd ir) (X rv1 (ir_rd ir) OR 0xFFFFFF00) rv1 else rv1)"

definition do_sexth :: "rv_insn \<Rightarrow> riscv \<Rightarrow> riscv" where
  "do_sexth ir rv = 
     (let rv1 = set_X (ir_rd ir) (X rv (ir_rs1 ir) AND 0xFFFF) rv in
      if X rv1 (ir_rs1 ir) AND 0x8000 \<noteq> 0 then set_X (ir_rd ir) (X rv1 (ir_rd ir) OR 0xFFFF0000) rv1 else rv1)"

definition do_zexth :: "rv_insn \<Rightarrow> riscv \<Rightarrow> riscv" where
  "do_zexth ir rv = set_X (ir_rd ir) (X rv (ir_rs1 ir) AND 0x0000FFFF) rv"

text \<open>A rotation by 0 shifts by 32 in the other direction, which C leaves undefined.\<close>

definition do_rol :: "env \<Rightarrow> rv_insn \<Rightarrow> ctx \<Rightarrow> outcome" where
  "do_rol E ir c = 
     (let s = unat (X (c_rv c) (ir_rs2 ir) AND 0x1F); x = X (c_rv c) (ir_rs1 ir) in
      if s = 0 then Undef else Nextop (write_X (ir_rd ir) (push_bit s x OR drop_bit (32 - s) x) c))"

definition do_ror :: "env \<Rightarrow> rv_insn \<Rightarrow> ctx \<Rightarrow> outcome" where
  "do_ror E ir c = 
     (let s = unat (X (c_rv c) (ir_rs2 ir) AND 0x1F); x = X (c_rv c) (ir_rs1 ir) in
      if s = 0 then Undef else Nextop (write_X (ir_rd ir) (drop_bit s x OR push_bit (32 - s) x) c))"

definition do_rori :: "env \<Rightarrow> rv_insn \<Rightarrow> ctx \<Rightarrow> outcome" where
  "do_rori E ir c = 
     (let s = unat (ir_imm ir AND 0x1F); x = X (c_rv c) (ir_rs1 ir) in
      if s = 0 then Undef else Nextop (write_X (ir_rd ir) (drop_bit s x OR push_bit (32 - s) x) c))"

definition orcb_loop :: "u32 \<Rightarrow> u32" where
  "orcb_loop x = for_loop 0 4
     (\<lambda>i y. if x AND push_bit (i * 8) 0xFF \<noteq> 0 then y OR push_bit (i * 8) 0xFF else y) 0"

definition do_orcb :: "rv_insn \<Rightarrow> riscv \<Rightarrow> riscv" where
  "do_orcb ir rv = set_X (ir_rd ir) (orcb_loop (X rv (ir_rs1 ir))) rv"

definition rev8_expr :: "u32 \<Rightarrow> u32" where
  "rev8_expr x = push_bit 24 (x AND 0xFF) OR push_bit 8 (x AND 0xFF00)
     OR drop_bit 8 (x AND 0xFF0000) OR drop_bit 24 (x AND 0xFF000000)"

definition do_rev8 :: "rv_insn \<Rightarrow> riscv \<Rightarrow> riscv" where
  "do_rev8 ir rv = set_X (ir_rd ir) (rev8_expr (X rv (ir_rs1 ir))) rv"

definition clmul_loop :: "u32 \<Rightarrow> u32 \<Rightarrow> u32" where
  "clmul_loop x y = for_loop 0 32
     (\<lambda>i out. if drop_bit i y AND 1 \<noteq> 0 then out XOR push_bit i x else out) 0"

definition do_clmul :: "rv_insn \<Rightarrow> riscv \<Rightarrow> riscv" where
  "do_clmul ir rv = set_X (ir_rd ir) (clmul_loop (X rv (ir_rs1 ir)) (X rv (ir_rs2 ir))) rv"

definition clmulh_loop :: "u32 \<Rightarrow> u32 \<Rightarrow> u32" where
  "clmulh_loop x y = for_loop 1 32
     (\<lambda>i out. if drop_bit i y AND 1 \<noteq> 0 then out XOR drop_bit (32 - i) x else out) 0"

definition do_clmulh :: "rv_insn \<Rightarrow> riscv \<Rightarrow> riscv" where
  "do_clmulh ir rv = 
     set_X (ir_rd ir) (clmulh_loop (X rv (ir_rs1 ir)) (X rv (ir_rs2 ir))) rv"

definition clmulr_loop :: "u32 \<Rightarrow> u32 \<Rightarrow> u32" where
  "clmulr_loop x y = for_loop 0 32
     (\<lambda>i out. if drop_bit i y AND 1 \<noteq> 0 then out XOR drop_bit (32 - i - 1) x else out) 0"

definition do_clmulr :: "rv_insn \<Rightarrow> riscv \<Rightarrow> riscv" where
  "do_clmulr ir rv = 
     set_X (ir_rd ir) (clmulr_loop (X rv (ir_rs1 ir)) (X rv (ir_rs2 ir))) rv"

definition do_bclr :: "rv_insn \<Rightarrow> riscv \<Rightarrow> riscv" where
  "do_bclr ir rv = 
     set_X (ir_rd ir) (X rv (ir_rs1 ir) AND NOT (push_bit (unat (X rv (ir_rs2 ir) AND 0x1F)) 1)) rv"

definition do_bclri :: "rv_insn \<Rightarrow> riscv \<Rightarrow> riscv" where
  "do_bclri ir rv = 
     set_X (ir_rd ir) (X rv (ir_rs1 ir) AND NOT (push_bit (unat (ir_imm ir AND 0x1F)) 1)) rv"

definition do_bext :: "rv_insn \<Rightarrow> riscv \<Rightarrow> riscv" where
  "do_bext ir rv = 
     set_X (ir_rd ir) (drop_bit (unat (X rv (ir_rs2 ir) AND 0x1F)) (X rv (ir_rs1 ir)) AND 1) rv"

definition do_bexti :: "rv_insn \<Rightarrow> riscv \<Rightarrow> riscv" where
  "do_bexti ir rv = 
     set_X (ir_rd ir) (drop_bit (unat (ir_imm ir AND 0x1F)) (X rv (ir_rs1 ir)) AND 1) rv"

definition do_binv :: "rv_insn \<Rightarrow> riscv \<Rightarrow> riscv" where
  "do_binv ir rv = 
     set_X (ir_rd ir) (X rv (ir_rs1 ir) XOR push_bit (unat (X rv (ir_rs2 ir) AND 0x1F)) 1) rv"

definition do_binvi :: "rv_insn \<Rightarrow> riscv \<Rightarrow> riscv" where
  "do_binvi ir rv = 
     set_X (ir_rd ir) (X rv (ir_rs1 ir) XOR push_bit (unat (ir_imm ir AND 0x1F)) 1) rv"

definition do_bset :: "rv_insn \<Rightarrow> riscv \<Rightarrow> riscv" where
  "do_bset ir rv = 
     set_X (ir_rd ir) (X rv (ir_rs1 ir) OR push_bit (unat (X rv (ir_rs2 ir) AND 0x1F)) 1) rv"

definition do_bseti :: "rv_insn \<Rightarrow> riscv \<Rightarrow> riscv" where
  "do_bseti ir rv = 
     set_X (ir_rd ir) (X rv (ir_rs1 ir) OR push_bit (unat (ir_imm ir AND 0x1F)) 1) rv"

section \<open>Dispatch\<close>

text \<open>The \<^verbatim>\<open>dispatch_table\<close>: the body of each opcode, one function per section of the list.\<close>

primrec rv32i_body :: "rv32i_insn \<Rightarrow> env \<Rightarrow> rv_insn \<Rightarrow> ctx \<Rightarrow> outcome" where
  "rv32i_body rv_insn_nop E ir c = alu (do_nop ir) c"
| "rv32i_body rv_insn_lui E ir c = alu (do_lui ir) c"
| "rv32i_body rv_insn_auipc E ir c = do_auipc E ir c"
| "rv32i_body rv_insn_jal E ir c = do_jal E ir c"
| "rv32i_body rv_insn_jalr E ir c = do_jalr E ir c"
| "rv32i_body rv_insn_beq E ir c = do_beq E ir c"
| "rv32i_body rv_insn_bne E ir c = do_bne E ir c"
| "rv32i_body rv_insn_blt E ir c = do_blt E ir c"
| "rv32i_body rv_insn_bge E ir c = do_bge E ir c"
| "rv32i_body rv_insn_bltu E ir c = do_bltu E ir c"
| "rv32i_body rv_insn_bgeu E ir c = do_bgeu E ir c"
| "rv32i_body rv_insn_lb E ir c = do_lb E ir c"
| "rv32i_body rv_insn_lh E ir c = do_lh E ir c"
| "rv32i_body rv_insn_lw E ir c = do_lw E ir c"
| "rv32i_body rv_insn_lbu E ir c = do_lbu E ir c"
| "rv32i_body rv_insn_lhu E ir c = do_lhu E ir c"
| "rv32i_body rv_insn_sb E ir c = do_sb E ir c"
| "rv32i_body rv_insn_sh E ir c = do_sh E ir c"
| "rv32i_body rv_insn_sw E ir c = do_sw E ir c"
| "rv32i_body rv_insn_addi E ir c = alu (do_addi ir) c"
| "rv32i_body rv_insn_slti E ir c = alu (do_slti ir) c"
| "rv32i_body rv_insn_sltiu E ir c = alu (do_sltiu ir) c"
| "rv32i_body rv_insn_xori E ir c = alu (do_xori ir) c"
| "rv32i_body rv_insn_ori E ir c = alu (do_ori ir) c"
| "rv32i_body rv_insn_andi E ir c = alu (do_andi ir) c"
| "rv32i_body rv_insn_slli E ir c = do_slli E ir c"
| "rv32i_body rv_insn_srli E ir c = do_srli E ir c"
| "rv32i_body rv_insn_srai E ir c = do_srai E ir c"
| "rv32i_body rv_insn_add E ir c = alu (do_add ir) c"
| "rv32i_body rv_insn_sub E ir c = alu (do_sub ir) c"
| "rv32i_body rv_insn_sll E ir c = alu (do_sll ir) c"
| "rv32i_body rv_insn_slt E ir c = alu (do_slt ir) c"
| "rv32i_body rv_insn_sltu E ir c = alu (do_sltu ir) c"
| "rv32i_body rv_insn_xor E ir c = alu (do_xor ir) c"
| "rv32i_body rv_insn_srl E ir c = alu (do_srl ir) c"
| "rv32i_body rv_insn_sra E ir c = alu (do_sra ir) c"
| "rv32i_body rv_insn_or E ir c = alu (do_or ir) c"
| "rv32i_body rv_insn_and E ir c = alu (do_and ir) c"
| "rv32i_body rv_insn_fence E ir c = do_fence E ir c"
| "rv32i_body rv_insn_ecall E ir c = do_ecall E ir c"
| "rv32i_body rv_insn_ebreak E ir c = do_ebreak E ir c"

primrec rvpriv_body :: "rvpriv_insn \<Rightarrow> env \<Rightarrow> rv_insn \<Rightarrow> ctx \<Rightarrow> outcome" where
  "rvpriv_body rv_insn_wfi E ir c = do_wfi E ir c"
| "rvpriv_body rv_insn_uret E ir c = do_uret E ir c"
| "rvpriv_body rv_insn_sret E ir c = Undef"
| "rvpriv_body rv_insn_hret E ir c = do_hret E ir c"
| "rvpriv_body rv_insn_mret E ir c = do_mret E ir c"
| "rvpriv_body rv_insn_sfencevma E ir c = do_sfencevma E ir c"

primrec rvzifencei_body :: "rvzifencei_insn \<Rightarrow> env \<Rightarrow> rv_insn \<Rightarrow> ctx \<Rightarrow> outcome" where
  "rvzifencei_body rv_insn_fencei E ir c = do_fencei E ir c"

primrec rvzicsr_body :: "rvzicsr_insn \<Rightarrow> env \<Rightarrow> rv_insn \<Rightarrow> ctx \<Rightarrow> outcome" where
  "rvzicsr_body rv_insn_csrrw E ir c = do_csrrw E ir c"
| "rvzicsr_body rv_insn_csrrs E ir c = do_csrrs E ir c"
| "rvzicsr_body rv_insn_csrrc E ir c = do_csrrc E ir c"
| "rvzicsr_body rv_insn_csrrwi E ir c = do_csrrwi E ir c"
| "rvzicsr_body rv_insn_csrrsi E ir c = do_csrrsi E ir c"
| "rvzicsr_body rv_insn_csrrci E ir c = do_csrrci E ir c"

primrec rvzba_body :: "rvzba_insn \<Rightarrow> env \<Rightarrow> rv_insn \<Rightarrow> ctx \<Rightarrow> outcome" where
  "rvzba_body rv_insn_sh1add E ir c = alu (do_sh1add ir) c"
| "rvzba_body rv_insn_sh2add E ir c = alu (do_sh2add ir) c"
| "rvzba_body rv_insn_sh3add E ir c = alu (do_sh3add ir) c"

primrec rvzbb_body :: "rvzbb_insn \<Rightarrow> env \<Rightarrow> rv_insn \<Rightarrow> ctx \<Rightarrow> outcome" where
  "rvzbb_body rv_insn_andn E ir c = alu (do_andn ir) c"
| "rvzbb_body rv_insn_orn E ir c = alu (do_orn ir) c"
| "rvzbb_body rv_insn_xnor E ir c = alu (do_xnor ir) c"
| "rvzbb_body rv_insn_clz E ir c = alu (do_clz ir) c"
| "rvzbb_body rv_insn_ctz E ir c = alu (do_ctz ir) c"
| "rvzbb_body rv_insn_cpop E ir c = alu (do_cpop ir) c"
| "rvzbb_body rv_insn_max E ir c = alu (do_max ir) c"
| "rvzbb_body rv_insn_maxu E ir c = alu (do_maxu ir) c"
| "rvzbb_body rv_insn_min E ir c = alu (do_min ir) c"
| "rvzbb_body rv_insn_minu E ir c = alu (do_minu ir) c"
| "rvzbb_body rv_insn_sextb E ir c = alu (do_sextb ir) c"
| "rvzbb_body rv_insn_sexth E ir c = alu (do_sexth ir) c"
| "rvzbb_body rv_insn_zexth E ir c = alu (do_zexth ir) c"
| "rvzbb_body rv_insn_rol E ir c = do_rol E ir c"
| "rvzbb_body rv_insn_ror E ir c = do_ror E ir c"
| "rvzbb_body rv_insn_rori E ir c = do_rori E ir c"
| "rvzbb_body rv_insn_orcb E ir c = alu (do_orcb ir) c"
| "rvzbb_body rv_insn_rev8 E ir c = alu (do_rev8 ir) c"

primrec rvzbc_body :: "rvzbc_insn \<Rightarrow> env \<Rightarrow> rv_insn \<Rightarrow> ctx \<Rightarrow> outcome" where
  "rvzbc_body rv_insn_clmul E ir c = alu (do_clmul ir) c"
| "rvzbc_body rv_insn_clmulh E ir c = alu (do_clmulh ir) c"
| "rvzbc_body rv_insn_clmulr E ir c = alu (do_clmulr ir) c"

primrec rvzbs_body :: "rvzbs_insn \<Rightarrow> env \<Rightarrow> rv_insn \<Rightarrow> ctx \<Rightarrow> outcome" where
  "rvzbs_body rv_insn_bclr E ir c = alu (do_bclr ir) c"
| "rvzbs_body rv_insn_bclri E ir c = alu (do_bclri ir) c"
| "rvzbs_body rv_insn_bext E ir c = alu (do_bext ir) c"
| "rvzbs_body rv_insn_bexti E ir c = alu (do_bexti ir) c"
| "rvzbs_body rv_insn_binv E ir c = alu (do_binv ir) c"
| "rvzbs_body rv_insn_binvi E ir c = alu (do_binvi ir) c"
| "rvzbs_body rv_insn_bset E ir c = alu (do_bset ir) c"
| "rvzbs_body rv_insn_bseti E ir c = alu (do_bseti ir) c"

primrec rv32m_body :: "rv32m_insn \<Rightarrow> env \<Rightarrow> rv_insn \<Rightarrow> ctx \<Rightarrow> outcome" where
  "rv32m_body rv_insn_mul E ir c = alu (do_mul ir) c"
| "rv32m_body rv_insn_mulh E ir c = alu (do_mulh ir) c"
| "rv32m_body rv_insn_mulhsu E ir c = alu (do_mulhsu ir) c"
| "rv32m_body rv_insn_mulhu E ir c = alu (do_mulhu ir) c"
| "rv32m_body rv_insn_div E ir c = alu (do_div ir) c"
| "rv32m_body rv_insn_divu E ir c = alu (do_divu ir) c"
| "rv32m_body rv_insn_rem E ir c = alu (do_rem ir) c"
| "rv32m_body rv_insn_remu E ir c = alu (do_remu ir) c"

primrec rv32a_body :: "rv32a_insn \<Rightarrow> env \<Rightarrow> rv_insn \<Rightarrow> ctx \<Rightarrow> outcome" where
  "rv32a_body rv_insn_lrw E ir c = do_lrw E ir c"
| "rv32a_body rv_insn_scw E ir c = do_scw E ir c"
| "rv32a_body rv_insn_amoswapw E ir c = do_amoswapw E ir c"
| "rv32a_body rv_insn_amoaddw E ir c = do_amoaddw E ir c"
| "rv32a_body rv_insn_amoxorw E ir c = do_amoxorw E ir c"
| "rv32a_body rv_insn_amoandw E ir c = do_amoandw E ir c"
| "rv32a_body rv_insn_amoorw E ir c = do_amoorw E ir c"
| "rv32a_body rv_insn_amominw E ir c = do_amominw E ir c"
| "rv32a_body rv_insn_amomaxw E ir c = do_amomaxw E ir c"
| "rv32a_body rv_insn_amominuw E ir c = do_amominuw E ir c"
| "rv32a_body rv_insn_amomaxuw E ir c = do_amomaxuw E ir c"

primrec rv32f_body :: "rv32f_insn \<Rightarrow> env \<Rightarrow> rv_insn \<Rightarrow> ctx \<Rightarrow> outcome" where
  "rv32f_body rv_insn_flw E ir c = do_flw E ir c"
| "rv32f_body rv_insn_fsw E ir c = do_fsw E ir c"
| "rv32f_body rv_insn_fmadds E ir c = do_fmadds E ir c"
| "rv32f_body rv_insn_fmsubs E ir c = do_fmsubs E ir c"
| "rv32f_body rv_insn_fnmsubs E ir c = do_fnmsubs E ir c"
| "rv32f_body rv_insn_fnmadds E ir c = do_fnmadds E ir c"
| "rv32f_body rv_insn_fadds E ir c = do_fadds E ir c"
| "rv32f_body rv_insn_fsubs E ir c = do_fsubs E ir c"
| "rv32f_body rv_insn_fmuls E ir c = do_fmuls E ir c"
| "rv32f_body rv_insn_fdivs E ir c = do_fdivs E ir c"
| "rv32f_body rv_insn_fsqrts E ir c = do_fsqrts E ir c"
| "rv32f_body rv_insn_fsgnjs E ir c = alu (do_fsgnjs ir) c"
| "rv32f_body rv_insn_fsgnjns E ir c = alu (do_fsgnjns ir) c"
| "rv32f_body rv_insn_fsgnjxs E ir c = alu (do_fsgnjxs ir) c"
| "rv32f_body rv_insn_fmins E ir c = do_fmins E ir c"
| "rv32f_body rv_insn_fmaxs E ir c = do_fmaxs E ir c"
| "rv32f_body rv_insn_fcvtws E ir c = do_fcvtws E ir c"
| "rv32f_body rv_insn_fcvtwus E ir c = do_fcvtwus E ir c"
| "rv32f_body rv_insn_fmvxw E ir c = alu (do_fmvxw ir) c"
| "rv32f_body rv_insn_feqs E ir c = do_feqs E ir c"
| "rv32f_body rv_insn_flts E ir c = do_flts E ir c"
| "rv32f_body rv_insn_fles E ir c = do_fles E ir c"
| "rv32f_body rv_insn_fclasss E ir c = alu (do_fclasss ir) c"
| "rv32f_body rv_insn_fcvtsw E ir c = do_fcvtsw E ir c"
| "rv32f_body rv_insn_fcvtswu E ir c = do_fcvtswu E ir c"
| "rv32f_body rv_insn_fmvwx E ir c = alu (do_fmvwx ir) c"

primrec rv32c_body :: "rv32c_insn \<Rightarrow> env \<Rightarrow> rv_insn \<Rightarrow> ctx \<Rightarrow> outcome" where
  "rv32c_body rv_insn_caddi4spn E ir c = alu (do_caddi4spn ir) c"
| "rv32c_body rv_insn_clw E ir c = do_clw E ir c"
| "rv32c_body rv_insn_csw E ir c = do_csw E ir c"
| "rv32c_body rv_insn_cnop E ir c = alu (do_cnop ir) c"
| "rv32c_body rv_insn_caddi E ir c = alu (do_caddi ir) c"
| "rv32c_body rv_insn_cjal E ir c = do_cjal E ir c"
| "rv32c_body rv_insn_cli E ir c = alu (do_cli ir) c"
| "rv32c_body rv_insn_caddi16sp E ir c = alu (do_caddi16sp ir) c"
| "rv32c_body rv_insn_clui E ir c = alu (do_clui ir) c"
| "rv32c_body rv_insn_csrli E ir c = do_csrli E ir c"
| "rv32c_body rv_insn_csrai E ir c = do_csrai E ir c"
| "rv32c_body rv_insn_candi E ir c = alu (do_candi ir) c"
| "rv32c_body rv_insn_csub E ir c = alu (do_csub ir) c"
| "rv32c_body rv_insn_cxor E ir c = alu (do_cxor ir) c"
| "rv32c_body rv_insn_cor E ir c = alu (do_cor ir) c"
| "rv32c_body rv_insn_cand E ir c = alu (do_cand ir) c"
| "rv32c_body rv_insn_cj E ir c = do_cj E ir c"
| "rv32c_body rv_insn_cbeqz E ir c = do_cbeqz E ir c"
| "rv32c_body rv_insn_cbnez E ir c = do_cbnez E ir c"
| "rv32c_body rv_insn_cslli E ir c = do_cslli E ir c"
| "rv32c_body rv_insn_clwsp E ir c = do_clwsp E ir c"
| "rv32c_body rv_insn_cjr E ir c = do_cjr E ir c"
| "rv32c_body rv_insn_cmv E ir c = alu (do_cmv ir) c"
| "rv32c_body rv_insn_cebreak E ir c = do_cebreak E ir c"
| "rv32c_body rv_insn_cjalr E ir c = do_cjalr E ir c"
| "rv32c_body rv_insn_cadd E ir c = alu (do_cadd ir) c"
| "rv32c_body rv_insn_cswsp E ir c = do_cswsp E ir c"

primrec rv32fc_body :: "rv32fc_insn \<Rightarrow> env \<Rightarrow> rv_insn \<Rightarrow> ctx \<Rightarrow> outcome" where
  "rv32fc_body rv_insn_cflwsp E ir c = do_cflwsp E ir c"
| "rv32fc_body rv_insn_cfswsp E ir c = do_cfswsp E ir c"
| "rv32fc_body rv_insn_cflw E ir c = do_cflw E ir c"
| "rv32fc_body rv_insn_cfsw E ir c = do_cfsw E ir c"
end
