(* ===== verification/RV_Run.thy ===== *)
theory RV_Run
  imports RV_Template
begin

text \<open>
  Running a translated block: the wrapper that the macro \<^verbatim>\<open>RVOP\<close> puts around a body,
  the fused operations \<^verbatim>\<open>do_fuse1\<close> to \<^verbatim>\<open>do_fuse12\<close>, the
  \<^verbatim>\<open>dispatch_table\<close>, and the chain of tail calls along \<^verbatim>\<open>ir->next\<close>.
\<close>

unbundle bit_operations_syntax

section \<open>The RVOP wrapper\<close>

definition count_insn :: "opcode \<Rightarrow> ctx \<Rightarrow> ctx" where
  "count_insn op c =
     c\<lparr>c_em := (c_em c)\<lparr>insn_counter := (insn_counter (c_em c))(op := insn_counter (c_em c) op + 1)\<rparr>\<rparr>"

definition rvop_enter :: "rv_insn \<Rightarrow> ctx \<Rightarrow> ctx" where
  "rvop_enter ir c =
     count_insn (ir_opcode ir)
       (c\<lparr>c_em := rv_trace_record (c_em c) (c_cycle c) (c_pc c) RV_TRACE_INSN 0,
          c_cycle := c_cycle c + 1\<rparr>)"

definition rvop :: "nat \<Rightarrow> (ctx \<Rightarrow> outcome) \<Rightarrow> rv_insn \<Rightarrow> ctx \<Rightarrow> outcome" where
  "rvop len body ir c =
     (case body (rvop_enter ir c) of
        Nextop c' \<Rightarrow> Nextop (c'\<lparr>c_pc := c_pc c' + of_nat len\<rparr>)
      | End_op c' \<Rightarrow> finish c'
      | r \<Rightarrow> r)"

section \<open>Fused operations\<close>

text \<open>
  The loops of the fused operations run \<^verbatim>\<open>imm2\<close> times over the array
  \<^verbatim>\<open>ir->fuse\<close>; a count beyond the array would read out of bounds.
\<close>

definition fuse_data :: "rv_insn \<Rightarrow> opcode_fuse list option" where
  "fuse_data ir =
     (let n = nat (sint (ir_imm2 ir))
      in if n \<le> length (ir_fuse ir) then Some (take n (ir_fuse ir)) else None)"

definition fuse_enter :: "rv_insn \<Rightarrow> u64 \<Rightarrow> ctx \<Rightarrow> ctx" where
  "fuse_enter ir n c = (count_insn (ir_opcode ir) c)\<lparr>c_cycle := c_cycle c + n\<rparr>"

definition fuse_next_or_stop :: "u32 \<Rightarrow> ctx \<Rightarrow> outcome" where
  "fuse_next_or_stop len c = Nextop (c\<lparr>c_pc := c_pc c + len\<rparr>)"

definition fuse_alu :: "(opcode_fuse \<Rightarrow> riscv \<Rightarrow> riscv option) \<Rightarrow> rv_insn \<Rightarrow> ctx \<Rightarrow> outcome" where
  "fuse_alu op ir c =
     (let c1 = fuse_enter ir (scast (ir_imm2 ir)) c in
      case fuse_data ir of
        None \<Rightarrow> Undef
      | Some fs \<Rightarrow>
          (case fold (\<lambda>f r. Option.bind r (op f)) fs (Some (c_rv c1)) of
             None \<Rightarrow> Undef
           | Some rv \<Rightarrow> fuse_next_or_stop (ir_imm2 ir * 4) (c1\<lparr>c_rv := rv\<rparr>)))"

definition do_fuse1 :: "rv_insn \<Rightarrow> ctx \<Rightarrow> outcome" where
  "do_fuse1 = fuse_alu (\<lambda>f rv. Some (set_X (fuse_rd f) (fuse_imm f) rv))"

definition do_fuse2 :: "rv_insn \<Rightarrow> ctx \<Rightarrow> outcome" where
  "do_fuse2 ir c =
     (let c1 = fuse_enter ir 2 c;
          c2 = write_X (ir_rd ir) (ir_imm ir) c1;
          c3 = write_X (ir_rs2 ir) (X (c_rv c2) (ir_rd ir) + X (c_rv c2) (ir_rs1 ir)) c2
      in fuse_next_or_stop 8 c3)"

fun fuse3_loop :: "env \<Rightarrow> opcode_fuse list \<Rightarrow> ctx \<Rightarrow> (ctx \<Rightarrow> outcome) \<Rightarrow> outcome" where
  "fuse3_loop E [] c k = k c"
| "fuse3_loop E (f # fs) c k =
     (let addr = X (c_rv c) (fuse_rs1 f) + fuse_imm f in
      exc_misalign_handler E 3 STORE_MISALIGNED False addr c
        (write_mem ram_write_w addr (X (c_rv c) (fuse_rs2 f)) c (\<lambda>c'. fuse3_loop E fs c' k)))"

definition do_fuse3 :: "env \<Rightarrow> rv_insn \<Rightarrow> ctx \<Rightarrow> outcome" where
  "do_fuse3 E ir c =
     (case fuse_data ir of
        None \<Rightarrow> Undef
      | Some fs \<Rightarrow> fuse3_loop E fs (fuse_enter ir (scast (ir_imm2 ir)) c) (fuse_next_or_stop (ir_imm2 ir * 4)))"

fun fuse4_loop :: "env \<Rightarrow> opcode_fuse list \<Rightarrow> ctx \<Rightarrow> (ctx \<Rightarrow> outcome) \<Rightarrow> outcome" where
  "fuse4_loop E [] c k = k c"
| "fuse4_loop E (f # fs) c k =
     (let addr = X (c_rv c) (fuse_rs1 f) + fuse_imm f in
      exc_misalign_handler E 3 LOAD_MISALIGNED False addr c
        (read_mem ram_read_w addr c (\<lambda>v. fuse4_loop E fs (write_X (fuse_rd f) v c) k)))"

definition do_fuse4 :: "env \<Rightarrow> rv_insn \<Rightarrow> ctx \<Rightarrow> outcome" where
  "do_fuse4 E ir c =
     (case fuse_data ir of
        None \<Rightarrow> Undef
      | Some fs \<Rightarrow> fuse4_loop E fs (fuse_enter ir (scast (ir_imm2 ir)) c) (fuse_next_or_stop (ir_imm2 ir * 4)))"

definition fuse_shift_exec :: "opcode_fuse \<Rightarrow> riscv \<Rightarrow> riscv option" where
  "fuse_shift_exec f rv =
     (let s = unat (fuse_imm f AND 0x1F); x = X rv (fuse_rs1 f) in
      if fuse_opcode f = RV32I rv_insn_slli then Some (set_X (fuse_rd f) (push_bit s x) rv)
      else if fuse_opcode f = RV32I rv_insn_srli then Some (set_X (fuse_rd f) (drop_bit s x) rv)
      else if fuse_opcode f = RV32I rv_insn_srai then Some (set_X (fuse_rd f) (sar s x) rv)
      else None)"

definition do_fuse5 :: "rv_insn \<Rightarrow> ctx \<Rightarrow> outcome" where
  "do_fuse5 = fuse_alu fuse_shift_exec"

definition do_fuse6 :: "env \<Rightarrow> rv_insn \<Rightarrow> ctx \<Rightarrow> outcome" where
  "do_fuse6 E ir c =
     (let c1 = write_X rv_reg_a7 (ir_imm ir) (fuse_enter ir 2 c)
      in callback (on_ecall E) False (c1\<lparr>c_pc := c_pc c1 + 4\<rparr>))"

definition do_fuse7 :: "rv_insn \<Rightarrow> ctx \<Rightarrow> outcome" where
  "do_fuse7 = fuse_alu (\<lambda>f rv. Some (set_X (fuse_rd f) (X rv (fuse_rs1 f) + fuse_imm f) rv))"

definition do_fuse8 :: "rv_insn \<Rightarrow> ctx \<Rightarrow> outcome" where
  "do_fuse8 ir c =
     fuse_next_or_stop 8 (write_X (ir_rd ir) (ir_imm ir + ir_imm2 ir) (fuse_enter ir 2 c))"

definition do_fuse9 :: "env \<Rightarrow> rv_insn \<Rightarrow> ctx \<Rightarrow> outcome" where
  "do_fuse9 E ir c =
     (let c1 = write_X (ir_rd ir) (ir_imm ir) (fuse_enter ir 2 c); addr = ir_imm ir + ir_imm2 ir in
      exc_misalign_handler E 3 LOAD_MISALIGNED False addr c1
        (read_mem ram_read_w addr c1 (\<lambda>v. fuse_next_or_stop 8 (write_X (ir_rs2 ir) v c1))))"

definition do_fuse10 :: "env \<Rightarrow> rv_insn \<Rightarrow> ctx \<Rightarrow> outcome" where
  "do_fuse10 E ir c =
     (let c1 = write_X (ir_rd ir) (ir_imm ir) (fuse_enter ir 2 c); addr = ir_imm ir + ir_imm2 ir in
      exc_misalign_handler E 3 STORE_MISALIGNED False addr c1
        (write_mem ram_write_w addr (X (c_rv c1) (ir_rs1 ir)) c1 (fuse_next_or_stop 8)))"

definition do_fuse11 :: "env \<Rightarrow> rv_insn \<Rightarrow> ctx \<Rightarrow> outcome" where
  "do_fuse11 E ir c =
     (let c1 = fuse_enter ir 2 c; addr = X (c_rv c1) (ir_rs1 ir) + ir_imm ir in
      exc_misalign_handler E 3 LOAD_MISALIGNED False addr c1
        (read_mem ram_read_w addr c1 (\<lambda>v.
           let c2 = write_X (ir_rd ir) v c1;
               c3 = write_X (ir_rs1 ir) (X (c_rv c2) (ir_rs1 ir) + ir_imm2 ir) c2
           in fuse_next_or_stop 8 c3)))"

definition do_fuse12 :: "rv_insn \<Rightarrow> ctx \<Rightarrow> outcome" where
  "do_fuse12 ir c =
     (let c1 = fuse_enter ir 2 c;
          c2 = write_X (ir_rd ir) (X (c_rv c1) (ir_rs1 ir) + ir_imm ir) c1
      in if X (c_rv c2) (ir_rd ir) \<noteq> 0 then
           (let c3 = c2\<lparr>c_em := (c_em c2)\<lparr>is_branch_taken := True\<rparr>,
                         c_pc := c_pc c2 + (4 + ir_imm2 ir)\<rparr>
            in if ir_branch_taken ir \<noteq> None then Taken (set_last_pc c3) else finish c3)
         else
           (let c3 = c2\<lparr>c_em := (c_em c2)\<lparr>is_branch_taken := False\<rparr>, c_pc := c_pc c2 + 8\<rparr>
            in if ir_branch_untaken ir \<noteq> None then Untaken (set_last_pc c3) else finish c3))"

section \<open>Dispatch and tail calls\<close>

primrec fuse_impl :: "fuse_insn \<Rightarrow> env \<Rightarrow> rv_insn \<Rightarrow> ctx \<Rightarrow> outcome" where
  "fuse_impl rv_insn_fuse1 E ir c = do_fuse1 ir c"
| "fuse_impl rv_insn_fuse2 E ir c = do_fuse2 ir c"
| "fuse_impl rv_insn_fuse3 E ir c = do_fuse3 E ir c"
| "fuse_impl rv_insn_fuse4 E ir c = do_fuse4 E ir c"
| "fuse_impl rv_insn_fuse5 E ir c = do_fuse5 ir c"
| "fuse_impl rv_insn_fuse6 E ir c = do_fuse6 E ir c"
| "fuse_impl rv_insn_fuse7 E ir c = do_fuse7 ir c"
| "fuse_impl rv_insn_fuse8 E ir c = do_fuse8 ir c"
| "fuse_impl rv_insn_fuse9 E ir c = do_fuse9 E ir c"
| "fuse_impl rv_insn_fuse10 E ir c = do_fuse10 E ir c"
| "fuse_impl rv_insn_fuse11 E ir c = do_fuse11 E ir c"
| "fuse_impl rv_insn_fuse12 E ir c = do_fuse12 ir c"

fun op_body :: "opcode \<Rightarrow> env \<Rightarrow> rv_insn \<Rightarrow> ctx \<Rightarrow> outcome" where
  "op_body (RV32I i) = rv32i_body i"
| "op_body (RVPriv i) = rvpriv_body i"
| "op_body (RVZifencei i) = rvzifencei_body i"
| "op_body (RVZicsr i) = rvzicsr_body i"
| "op_body (RVZba i) = rvzba_body i"
| "op_body (RVZbb i) = rvzbb_body i"
| "op_body (RVZbc i) = rvzbc_body i"
| "op_body (RVZbs i) = rvzbs_body i"
| "op_body (RV32M i) = rv32m_body i"
| "op_body (RV32A i) = rv32a_body i"
| "op_body (RV32F i) = rv32f_body i"
| "op_body (RV32C i) = rv32c_body i"
| "op_body (RV32FC i) = rv32fc_body i"
| "op_body (Fuse i) = fuse_impl i"

text \<open>\<^verbatim>\<open>ir->impl(rv, ir, cycle, PC)\<close>: \<^verbatim>\<open>Nextop\<close> now means that the
  tail call to \<^verbatim>\<open>ir->next\<close> is due.\<close>

definition impl :: "env \<Rightarrow> rv_insn \<Rightarrow> ctx \<Rightarrow> outcome" where
  "impl E ir c =
     (case insn_attr_of (ir_opcode ir) of
        Some a \<Rightarrow> rvop (attr_insn_len a) (op_body (ir_opcode ir) E ir) ir c
      | None \<Rightarrow> op_body (ir_opcode ir) E ir c)"

fun exec :: "env \<Rightarrow> rv_insn list \<Rightarrow> ctx \<Rightarrow> outcome" where
  "exec E [] c = finish c"
| "exec E (ir # irs) c = (case impl E ir c of Nextop c' \<Rightarrow> exec E irs c' | r \<Rightarrow> r)"

text \<open>A call of the first IR of a block from \<^verbatim>\<open>rv_step\<close>.\<close>

definition start_ctx :: "riscv \<Rightarrow> emu \<Rightarrow> ctx" where
  "start_ctx rv em = \<lparr>c_rv = rv, c_em = em, c_cycle = csr_cycle rv, c_pc = PC rv\<rparr>"

definition run_block :: "env \<Rightarrow> rv_insn list \<Rightarrow> riscv \<Rightarrow> emu \<Rightarrow> outcome" where
  "run_block E irs rv em = exec E irs (start_ctx rv em)"

end
