(* ===== verification/RV_Arch.thy ===== *)
theory RV_Arch
  imports RV_Run
begin

text \<open>
  What an instruction may change. The bookkeeping of the emulator (counters, trace, profiler) never
  influences the hart: \<^verbatim>\<open>erase\<close> forgets it, and outcomes are compared up to it. An
  instruction that passes control to its successor changes at most one integer register, the one
  \<^verbatim>\<open>x_dest\<close> names, and advances the program counter by its length.
\<close>

unbundle bit_operations_syntax

section \<open>Outcomes up to bookkeeping\<close>

definition emu_init :: emu where
  "emu_init = \<lparr>insn_counter = (\<lambda>_. 0), branch_taken_forward = 0, branch_taken_backward = 0,
     branch_untaken_forward = 0, branch_untaken_backward = 0, trace_record_count = 0,
     trace_sample_every = 0, history_log = None,
     prof = \<lparr>syms = [], stk = [], stk_cnt = 0, pmap = []\<rparr>, is_branch_taken = False, last_pc = 0\<rparr>"

definition erase_ctx :: "ctx \<Rightarrow> ctx" where
  "erase_ctx c = c\<lparr>c_em := emu_init\<rparr>"

fun erase :: "outcome \<Rightarrow> outcome" where
  "erase (Nextop c) = Nextop (erase_ctx c)"
| "erase (End_op c) = End_op (erase_ctx c)"
| "erase (Return b rv em) = Return b rv emu_init"
| "erase (Taken c) = Taken (erase_ctx c)"
| "erase (Untaken c) = Untaken (erase_ctx c)"
| "erase (Indirect c) = Indirect (erase_ctx c)"
| "erase Undef = Undef"

text \<open>An optimised program may do anything where the original is undefined, and otherwise has the
  same effect on the hart.\<close>

definition refines :: "outcome \<Rightarrow> outcome \<Rightarrow> bool" where
  "refines r s \<longleftrightarrow> r = Undef \<or> erase r = erase s"

definition em_ok :: "(ctx \<Rightarrow> outcome) \<Rightarrow> bool" where
  "em_ok f \<longleftrightarrow> (\<forall>c. erase (f c) = erase (f (erase_ctx c)))"

lemma refines_refl [simp]: "refines r r"
  by (simp add: refines_def)

lemma refines_Undef [simp]: "refines Undef r"
  by (simp add: refines_def)

lemma refines_trans: "refines r s \<Longrightarrow> refines s t \<Longrightarrow> refines r t"
  by (cases s; cases r) (auto simp: refines_def)

lemma erase_ctx_simps [simp]:
  "c_rv (erase_ctx c) = c_rv c" "c_cycle (erase_ctx c) = c_cycle c" "c_pc (erase_ctx c) = c_pc c"
  "erase_ctx (erase_ctx c) = erase_ctx c"
  "erase_ctx (c\<lparr>c_em := em\<rparr>) = erase_ctx c"
  "erase_ctx (c\<lparr>c_rv := rv\<rparr>) = (erase_ctx c)\<lparr>c_rv := rv\<rparr>"
  "erase_ctx (c\<lparr>c_pc := pc\<rparr>) = (erase_ctx c)\<lparr>c_pc := pc\<rparr>"
  "erase_ctx (c\<lparr>c_cycle := n\<rparr>) = (erase_ctx c)\<lparr>c_cycle := n\<rparr>"
  by (simp_all add: erase_ctx_def)

lemma erase_ctx_em [simp]: "(erase_ctx c)\<lparr>c_em := em, c_rv := rv\<rparr> = c\<lparr>c_em := em, c_rv := rv\<rparr>"
  by (simp add: erase_ctx_def)

lemmas template_defs =
  do_nop_def do_lui_def do_auipc_def do_jal_def do_jalr_def do_beq_def do_bne_def do_blt_def
  do_bge_def do_bltu_def do_bgeu_def do_lb_def do_lh_def do_lw_def do_lbu_def do_lhu_def
  do_sb_def do_sh_def do_sw_def do_addi_def do_slti_def do_sltiu_def do_xori_def do_ori_def
  do_andi_def do_slli_def do_srli_def do_srai_def do_add_def do_sub_def do_sll_def do_slt_def
  do_sltu_def do_xor_def do_srl_def do_sra_def do_or_def do_and_def do_fence_def do_ecall_def
  do_ebreak_def do_wfi_def do_uret_def do_hret_def do_mret_def do_sfencevma_def do_fencei_def
  do_csrrw_def do_csrrs_def do_csrrc_def do_csrrwi_def do_csrrsi_def do_csrrci_def do_mul_def
  do_mulh_def do_mulhsu_def do_mulhu_def do_div_def do_divu_def do_rem_def do_remu_def do_lrw_def
  do_scw_def do_amoswapw_def do_amoaddw_def do_amoxorw_def do_amoandw_def do_amoorw_def
  do_amominw_def do_amomaxw_def do_amominuw_def do_amomaxuw_def do_flw_def do_fsw_def
  do_fmadds_def do_fmsubs_def do_fnmsubs_def do_fnmadds_def do_fadds_def do_fsubs_def
  do_fmuls_def do_fdivs_def do_fsqrts_def do_fsgnjs_def do_fsgnjns_def do_fsgnjxs_def
  do_fmins_def do_fmaxs_def do_fcvtws_def do_fcvtwus_def do_fmvxw_def do_feqs_def do_flts_def
  do_fles_def do_fclasss_def do_fcvtsw_def do_fcvtswu_def do_fmvwx_def do_caddi4spn_def
  do_clw_def do_csw_def do_cnop_def do_caddi_def do_cjal_def do_cli_def do_caddi16sp_def
  do_clui_def do_csrli_def do_csrai_def do_candi_def do_csub_def do_cxor_def do_cor_def
  do_cand_def do_cj_def do_cbeqz_def do_cbnez_def do_cslli_def do_clwsp_def do_cjr_def do_cmv_def
  do_cebreak_def do_cjalr_def do_cadd_def do_cswsp_def do_cflwsp_def do_cfswsp_def do_cflw_def
  do_cfsw_def do_sh1add_def do_sh2add_def do_sh3add_def do_andn_def do_orn_def do_xnor_def
  do_clz_def do_ctz_def do_cpop_def do_max_def do_min_def do_maxu_def do_minu_def do_sextb_def
  do_sexth_def do_zexth_def do_rol_def do_ror_def do_rori_def do_orcb_def do_rev8_def
  do_clmul_def do_clmulh_def do_clmulr_def do_bclr_def do_bclri_def do_bext_def do_bexti_def
  do_binv_def do_binvi_def do_bset_def do_bseti_def


text \<open>The bookkeeping a body or an emulation function receives does not reach the hart.\<close>

lemma em_branch_func: "erase (branch_func b ir c) = erase (branch_func b ir (erase_ctx c))"
  by (auto simp: branch_func_def Let_def)

lemma em_cbranch: "erase (cbranch b ir c) = erase (cbranch b ir (erase_ctx c))"
  by (auto simp: cbranch_def set_last_pc_def Let_def)

lemma em_fp_compare: "erase (fp_compare f ir c) = erase (fp_compare f ir (erase_ctx c))"
  by (simp add: fp_compare_def Let_def split: prod.split)

lemma em_fp_arith: "erase (fp_arith rm f w c) = erase (fp_arith rm f w (erase_ctx c))"
  by (simp add: fp_arith_def split: prod.split option.split)

lemma em_amo_op: "erase (amo_op f E ir c) = erase (amo_op f E ir (erase_ctx c))"
  by (simp add: amo_op_def exec_defs Let_def split: option.split)

lemmas em_rules = em_branch_func em_cbranch em_fp_compare em_fp_arith em_amo_op

lemma em_rv32i_body: "em_ok (rv32i_body i E ir)"
  by (cases i) (simp_all add: em_ok_def template_defs exec_defs Let_def em_rules [symmetric] split: option.split)

lemma em_rvpriv_body: "em_ok (rvpriv_body i E ir)"
  by (cases i) (simp_all add: em_ok_def template_defs exec_defs Let_def)

lemma em_rvzifencei_body: "em_ok (rvzifencei_body i E ir)"
  by (cases i) (simp_all add: em_ok_def template_defs exec_defs Let_def)

lemma em_rvzicsr_body: "em_ok (rvzicsr_body i E ir)"
  by (cases i) (simp_all add: em_ok_def template_defs exec_defs Let_def split: prod.split)

lemma em_rvzba_body: "em_ok (rvzba_body i E ir)"
  by (cases i) (simp_all add: em_ok_def exec_defs)

lemma em_rvzbb_body: "em_ok (rvzbb_body i E ir)"
  by (cases i) (simp_all add: em_ok_def exec_defs do_rol_def do_ror_def do_rori_def Let_def)

lemma em_rvzbc_body: "em_ok (rvzbc_body i E ir)"
  by (cases i) (simp_all add: em_ok_def exec_defs)

lemma em_rvzbs_body: "em_ok (rvzbs_body i E ir)"
  by (cases i) (simp_all add: em_ok_def exec_defs)

lemma em_rv32m_body: "em_ok (rv32m_body i E ir)"
  by (cases i) (simp_all add: em_ok_def exec_defs)

lemma em_rv32a_body: "em_ok (rv32a_body i E ir)"
  by (cases i) (simp_all add: em_ok_def template_defs exec_defs Let_def em_rules [symmetric] split: option.split)

lemma em_rv32f_body: "em_ok (rv32f_body i E ir)"
  by (cases i) (simp_all add: em_ok_def template_defs exec_defs Let_def em_rules [symmetric] split: option.split prod.split)

lemma em_rv32c_body: "em_ok (rv32c_body i E ir)"
  by (cases i) (simp_all add: em_ok_def template_defs exec_defs Let_def em_rules [symmetric] split: option.split)

lemma em_rv32fc_body: "em_ok (rv32fc_body i E ir)"
  by (cases i) (simp_all add: em_ok_def template_defs exec_defs Let_def split: option.split)

lemma em_fuse3_loop:
  "(\<And>c. erase (k c) = erase (k (erase_ctx c))) \<Longrightarrow>
   erase (fuse3_loop E fs c k) = erase (fuse3_loop E fs (erase_ctx c) k)"
proof (induction fs arbitrary: c)
  case (Cons f fs)
  then show ?case
    by (simp add: exec_defs Let_def split: option.split) (metis (no_types) erase_ctx_simps(6))
qed simp

lemma em_fuse4_loop:
  "(\<And>c. erase (k c) = erase (k (erase_ctx c))) \<Longrightarrow>
   erase (fuse4_loop E fs c k) = erase (fuse4_loop E fs (erase_ctx c) k)"
proof (induction fs arbitrary: c)
  case (Cons f fs)
  then show ?case
    by (simp add: exec_defs Let_def split: option.split) (metis (no_types) erase_ctx_simps(6))
qed simp

lemma em_fuse_alu: "erase (fuse_alu op ir c) = erase (fuse_alu op ir (erase_ctx c))"
  by (simp add: fuse_alu_def fuse_enter_def count_insn_def fuse_next_or_stop_def Let_def split: option.split)

lemma em_next_or_stop:
  "erase (fuse_next_or_stop n c) = erase (fuse_next_or_stop n (erase_ctx c))"
  by (simp add: fuse_next_or_stop_def)

lemmas fuse_simps = fuse_enter_def count_insn_def fuse_next_or_stop_def exec_defs Let_def

lemma erase_fuse_enter: "erase_ctx (fuse_enter ir n c) = (erase_ctx c)\<lparr>c_cycle := c_cycle c + n\<rparr>"
  by (simp add: fuse_enter_def count_insn_def)

lemma em_do_fuse3: "erase (do_fuse3 E ir c) = erase (do_fuse3 E ir (erase_ctx c))"
proof (cases "fuse_data ir")
  case (Some fs)
  let ?k = "fuse_next_or_stop (ir_imm2 ir * 4)" and ?n = "scast (ir_imm2 ir)"
  show ?thesis
    using em_fuse3_loop [of ?k E fs "fuse_enter ir ?n c", OF em_next_or_stop]
      em_fuse3_loop [of ?k E fs "fuse_enter ir ?n (erase_ctx c)", OF em_next_or_stop]
    by (simp add: do_fuse3_def Some erase_fuse_enter)
qed (simp add: do_fuse3_def)

lemma em_do_fuse4: "erase (do_fuse4 E ir c) = erase (do_fuse4 E ir (erase_ctx c))"
proof (cases "fuse_data ir")
  case (Some fs)
  let ?k = "fuse_next_or_stop (ir_imm2 ir * 4)" and ?n = "scast (ir_imm2 ir)"
  show ?thesis
    using em_fuse4_loop [of ?k E fs "fuse_enter ir ?n c", OF em_next_or_stop]
      em_fuse4_loop [of ?k E fs "fuse_enter ir ?n (erase_ctx c)", OF em_next_or_stop]
    by (simp add: do_fuse4_def Some erase_fuse_enter)
qed (simp add: do_fuse4_def)

lemma em_do_fuse2: "erase (do_fuse2 ir c) = erase (do_fuse2 ir (erase_ctx c))"
  by (simp add: do_fuse2_def fuse_simps)

lemma em_do_fuse6: "erase (do_fuse6 E ir c) = erase (do_fuse6 E ir (erase_ctx c))"
  by (simp add: do_fuse6_def fuse_simps split: option.split)

lemma em_do_fuse8: "erase (do_fuse8 ir c) = erase (do_fuse8 ir (erase_ctx c))"
  by (simp add: do_fuse8_def fuse_simps)

lemma em_do_fuse9: "erase (do_fuse9 E ir c) = erase (do_fuse9 E ir (erase_ctx c))"
  by (simp add: do_fuse9_def fuse_simps split: option.split)

lemma em_do_fuse10: "erase (do_fuse10 E ir c) = erase (do_fuse10 E ir (erase_ctx c))"
  by (simp add: do_fuse10_def fuse_simps split: option.split)

lemma em_do_fuse11: "erase (do_fuse11 E ir c) = erase (do_fuse11 E ir (erase_ctx c))"
  by (simp add: do_fuse11_def fuse_simps split: option.split)

lemma em_do_fuse12: "erase (do_fuse12 ir c) = erase (do_fuse12 ir (erase_ctx c))"
  by (simp add: do_fuse12_def fuse_simps)

lemmas em_fuses = em_do_fuse2 em_do_fuse3 em_do_fuse4 em_do_fuse6 em_do_fuse8 em_do_fuse9 em_do_fuse10
  em_do_fuse11 em_do_fuse12 em_fuse_alu

lemma em_fuse_impl: "em_ok (fuse_impl i E ir)"
  by (cases i) (simp_all add: em_ok_def do_fuse1_def do_fuse5_def do_fuse7_def em_fuses [symmetric])

lemma em_op_body: "em_ok (op_body op E ir)"
  by (cases op) (simp_all only: op_body.simps em_rv32i_body em_rvpriv_body em_rvzifencei_body em_rvzicsr_body
    em_rvzba_body em_rvzbb_body em_rvzbc_body em_rvzbs_body em_rv32m_body em_rv32a_body em_rv32f_body
    em_rv32c_body em_rv32fc_body em_fuse_impl)

lemma em_okD:
  assumes "em_ok f" "erase_ctx c = erase_ctx d"
  shows "erase (f c) = erase (f d)"
proof -
  from assms(1) have "erase (f c) = erase (f (erase_ctx c))" "erase (f d) = erase (f (erase_ctx d))"
    unfolding em_ok_def by blast+
  with assms(2) show ?thesis by simp
qed

lemma erase_rvop_enter: "erase_ctx (rvop_enter ir c) = (erase_ctx c)\<lparr>c_cycle := c_cycle c + 1\<rparr>"
  by (simp add: rvop_enter_def count_insn_def)

lemma erase_ctxD:
  assumes "erase_ctx c = erase_ctx d"
  shows "c_rv c = c_rv d" "c_cycle c = c_cycle d" "c_pc c = c_pc d"
  using arg_cong [OF assms, of c_rv] arg_cong [OF assms, of c_cycle] arg_cong [OF assms, of c_pc]
  by (simp_all only: erase_ctx_simps)

lemma erase_finish:
  assumes "erase_ctx c = erase_ctx d"
  shows "erase (finish c) = erase (finish d)"
  by (simp only: finish_def erase.simps erase_ctxD [OF assms])

lemma rvop_exit_cong:
  assumes "erase r = erase s"
  shows "erase (case r of Nextop c \<Rightarrow> Nextop (c\<lparr>c_pc := c_pc c + n\<rparr>) | End_op c \<Rightarrow> finish c | t \<Rightarrow> t) =
    erase (case s of Nextop c \<Rightarrow> Nextop (c\<lparr>c_pc := c_pc c + n\<rparr>) | End_op c \<Rightarrow> finish c | t \<Rightarrow> t)"
proof (cases r)
  case (Nextop c)
  with assms obtain d where "s = Nextop d" "erase_ctx c = erase_ctx d" by (cases s) auto
  with Nextop erase_ctxD(3) [of c d] show ?thesis by simp
next
  case (End_op c)
  with assms obtain d where "s = End_op d" "erase_ctx c = erase_ctx d" by (cases s) auto
  with End_op erase_finish [of c d] show ?thesis by simp
qed (use assms in \<open>cases s; simp\<close>)+

lemma em_rvop:
  assumes "em_ok body" "erase_ctx c = erase_ctx d"
  shows "erase (rvop n body ir c) = erase (rvop n body ir' d)"
proof -
  from assms(2) have "erase_ctx (rvop_enter ir c) = erase_ctx (rvop_enter ir' d)"
    by (simp add: erase_rvop_enter erase_ctxD(2) [OF assms(2)])
  then have "erase (body (rvop_enter ir c)) = erase (body (rvop_enter ir' d))"
    by (rule em_okD [OF assms(1)])
  then show ?thesis
    unfolding rvop_def by (rule rvop_exit_cong)
qed

lemma em_impl: "erase_ctx c = erase_ctx d \<Longrightarrow> erase (impl E ir c) = erase (impl E ir d)"
  unfolding impl_def
  by (cases "insn_attr_of (ir_opcode ir)")
    (simp_all only: option.case, rule em_okD [OF em_op_body], simp, rule em_rvop [OF em_op_body], simp)

lemma em_exec: "erase_ctx c = erase_ctx d \<Longrightarrow> erase (exec E irs c) = erase (exec E irs d)"
proof (induction irs arbitrary: c d)
  case Nil
  then show ?case unfolding exec.simps by (rule erase_finish)
next
  case (Cons ir irs)
  from em_impl [OF Cons.prems] have eq: "erase (impl E ir c) = erase (impl E ir d)" .
  show ?case
  proof (cases "impl E ir c")
    case (Nextop c')
    with eq obtain d' where "impl E ir d = Nextop d'" "erase_ctx c' = erase_ctx d'"
      by (cases "impl E ir d") auto
    with Nextop Cons.IH [of c' d'] show ?thesis by simp
  qed (use eq in \<open>cases "impl E ir d"; simp\<close>)+
qed

section \<open>What an instruction changes\<close>

text \<open>The register an instruction may write; the instructions that test \<^verbatim>\<open>rd\<close>
  before writing have none when it is \<^verbatim>\<open>x0\<close>.\<close>

definition nz :: "u8 \<Rightarrow> u8 option" where
  "nz r = (if r = 0 then None else Some r)"

definition x_dest :: "rv_insn \<Rightarrow> u8 option" where
  "x_dest ir = (case ir_opcode ir of
      RV32I i \<Rightarrow>
        if i = rv_insn_nop then Some rv_reg_zero
        else if i \<in> {rv_insn_beq, rv_insn_bne, rv_insn_blt, rv_insn_bge, rv_insn_bltu, rv_insn_bgeu,
                     rv_insn_sb, rv_insn_sh, rv_insn_sw, rv_insn_fence, rv_insn_ecall, rv_insn_ebreak}
        then None
        else if i \<in> {rv_insn_jal, rv_insn_jalr} then nz (ir_rd ir)
        else Some (ir_rd ir)
    | RVPriv i \<Rightarrow> None
    | RVZifencei i \<Rightarrow> None
    | RVZicsr i \<Rightarrow> nz (ir_rd ir)
    | RV32A i \<Rightarrow> if i = rv_insn_scw then Some (ir_rd ir) else nz (ir_rd ir)
    | RV32F i \<Rightarrow>
        if i \<in> {rv_insn_fcvtws, rv_insn_fcvtwus, rv_insn_fmvxw, rv_insn_feqs, rv_insn_flts,
                rv_insn_fles, rv_insn_fclasss} then nz (ir_rd ir) else None
    | RV32C i \<Rightarrow>
        if i \<in> {rv_insn_csw, rv_insn_cnop, rv_insn_cj, rv_insn_cbeqz, rv_insn_cbnez, rv_insn_cjr,
                rv_insn_cebreak, rv_insn_cswsp} then None
        else if i \<in> {rv_insn_cjal, rv_insn_cjalr} then Some rv_reg_ra
        else if i \<in> {rv_insn_csrli, rv_insn_csrai, rv_insn_candi} then Some (ir_rs1 ir)
        else Some (ir_rd ir)
    | RV32FC i \<Rightarrow> None
    | _ \<Rightarrow> Some (ir_rd ir))"

text \<open>The two harts agree on everything an instruction without destination may not touch.\<close>

definition x_frame :: "u8 option \<Rightarrow> riscv \<Rightarrow> riscv \<Rightarrow> bool" where
  "x_frame d rv rv' \<longleftrightarrow> (\<forall>r. d \<noteq> Some r \<longrightarrow> X rv' r = X rv r) \<and>
     allow_misalign rv' = allow_misalign rv \<and> mem_size (mem rv') = mem_size (mem rv)"

definition frames :: "u8 option \<Rightarrow> ctx \<Rightarrow> outcome \<Rightarrow> bool" where
  "frames d c r \<longleftrightarrow> (\<forall>c'. r = Nextop c' \<longrightarrow>
     x_frame d (c_rv c) (c_rv c') \<and> c_cycle c' = c_cycle c \<and> c_pc c' = c_pc c)"

lemma x_frame_refl [simp]: "x_frame d rv rv"
  by (simp add: x_frame_def)

lemma x_frame_set_X [simp]: "x_frame (Some r) rv (set_X r v rv)"
  by (simp add: x_frame_def set_X_def)

lemma x_frame_trans: "x_frame d rv rv' \<Longrightarrow> x_frame d rv' rv'' \<Longrightarrow> x_frame d rv rv''"
  by (simp add: x_frame_def)

lemma x_frame_updates [simp]:
  "x_frame d rv (set_F r v rv0) = x_frame d rv rv0"
  "x_frame d rv (set_csr k v rv0) = x_frame d rv rv0"
  "x_frame d rv (raise_flags fl rv0) = x_frame d rv rv0"
  "x_frame d rv (rv0\<lparr>softfloat_exceptionFlags := fl\<rparr>) = x_frame d rv rv0"
  "x_frame d rv (rv0\<lparr>softfloat_roundingMode := m\<rparr>) = x_frame d rv rv0"
  "x_frame d rv (rv0\<lparr>csr_cycle := n\<rparr>) = x_frame d rv rv0"
  "x_frame d rv (rv0\<lparr>csr_time := t\<rparr>) = x_frame d rv rv0"
  by (simp_all add: x_frame_def set_F_def set_csr_def raise_flags_def)

lemma x_frame_set_fflag [simp]: "x_frame d rv (set_fflag rv0) = x_frame d rv rv0"
  by (simp add: set_fflag_def Let_def)

lemma x_frame_mem:
  "ram_write_w (mem rv) a w = Some m \<Longrightarrow> x_frame d rv (rv\<lparr>mem := m\<rparr>)"
  "ram_write_s (mem rv) a h = Some m \<Longrightarrow> x_frame d rv (rv\<lparr>mem := m\<rparr>)"
  "ram_write_b (mem rv) a b = Some m \<Longrightarrow> x_frame d rv (rv\<lparr>mem := m\<rparr>)"
  by (simp_all add: x_frame_def word_ram.wr_size half_ram.wr_size byte_ram.wr_size)

lemma x_frame_write_xd [simp]: "x_frame (nz r) rv rv0 \<Longrightarrow> x_frame (nz r) rv (write_xd r v rv0)"
  by (auto simp: write_xd_def nz_def x_frame_def set_X_def)

lemma x_frame_set_nz: "r \<noteq> 0 \<Longrightarrow> x_frame (nz r) rv rv0 \<Longrightarrow> x_frame (nz r) rv (set_X r v rv0)"
  by (auto simp: nz_def x_frame_def set_X_def)

lemma x_frame_same_X [simp]: "x_frame d rv (set_X r (X rv0 r) rv0) = x_frame d rv rv0"
  by (simp add: x_frame_def set_X_def)

lemma x_frame_set_rounding_mode: "set_rounding_mode rm rv = Some rv' \<Longrightarrow> x_frame d rv rv'"
  by (auto simp: set_rounding_mode_def Let_def x_frame_def)

lemma x_frame_write_ptr [simp]: "x_frame d rv (write_ptr p v rv0) = x_frame d rv rv0"
  by (cases p) (simp_all add: x_frame_def set_csr_def)

lemma x_frame_csr_get_ptr: "x_frame d rv rv0 \<Longrightarrow> x_frame d rv (snd (csr_get_ptr E rv0 k))"
  by (simp add: csr_get_ptr_def update_time_def Let_def x_frame_def split: prod.split)

lemma x_frame_sync [simp]: "x_frame d rv (sync_cycle k n rv0) = x_frame d rv rv0"
  by (simp add: sync_cycle_def)

lemma x_frame_csr:
  "csr_csrrw E rv k v n = (t, rv') \<Longrightarrow> x_frame d rv rv'"
  "csr_csrrs E rv k v n = (t, rv') \<Longrightarrow> x_frame d rv rv'"
  "csr_csrrc E rv k v n = (t, rv') \<Longrightarrow> x_frame d rv rv'"
  using x_frame_csr_get_ptr [of d rv "sync_cycle k n rv" E k]
  by (auto simp: csr_csrrw_def csr_csrrs_def csr_csrrc_def Let_def split: prod.splits option.splits)

lemma frames_simps [simp]:
  "frames d c (Nextop c') \<longleftrightarrow>
     x_frame d (c_rv c) (c_rv c') \<and> c_cycle c' = c_cycle c \<and> c_pc c' = c_pc c"
  "frames d c (End_op c')" "frames d c (Return b rv em)" "frames d c (Taken c')"
  "frames d c (Untaken c')" "frames d c (Indirect c')" "frames d c Undef"
  by (simp_all add: frames_def)

lemma frames_exits [simp]: "frames d c (finish c')" "frames d c (callback f b c')"
  by (simp_all add: finish_def callback_def split: option.split)

lemma frames_alu [simp]: "frames d c (alu f c) \<longleftrightarrow> x_frame d (c_rv c) (f (c_rv c))"
  by (simp add: alu_def)

lemma frames_read_mem [simp]:
  "frames d c (read_mem rd a c' k) \<longleftrightarrow> (\<forall>v. rd (mem (c_rv c')) a = Some v \<longrightarrow> frames d c (k v))"
  by (simp add: read_mem_def split: option.split)

lemma frames_write_mem [simp]:
  "frames d c (write_mem wr a v c' k) \<longleftrightarrow>
     (\<forall>m. wr (mem (c_rv c')) a v = Some m \<longrightarrow> frames d c (k (c'\<lparr>c_rv := (c_rv c')\<lparr>mem := m\<rparr>\<rparr>)))"
  by (simp add: write_mem_def split: option.split)

lemma frames_misalign [simp]:
  "frames d c (exc_misalign_handler E msk cause cmp a c' k) \<longleftrightarrow>
     \<not> allow_misalign (c_rv c') \<and> a AND msk \<noteq> 0 \<or> frames d c k"
  by (simp add: exc_misalign_handler_def split: option.split)

lemma ctx_updates [simp]:
  "c_rv (trace_mem a c) = c_rv c" "c_cycle (trace_mem a c) = c_cycle c" "c_pc (trace_mem a c) = c_pc c"
  "c_rv (write_X r v c) = set_X r v (c_rv c)" "c_cycle (write_X r v c) = c_cycle c"
  "c_pc (write_X r v c) = c_pc c"
  "c_rv (write_F r v c) = set_F r v (c_rv c)" "c_cycle (write_F r v c) = c_cycle c"
  "c_pc (write_F r v c) = c_pc c"
  by (simp_all add: trace_mem_def write_X_def write_F_def)

lemma frames_branch [simp]: "frames d c (branch_func b ir c)" "frames d c (cbranch b ir c)"
  by (simp_all add: branch_func_def cbranch_def Let_def)

lemma frames_fp_arith:
  "(\<And>v rv. x_frame d (c_rv c) rv \<Longrightarrow> x_frame d (c_rv c) (wr v rv)) \<Longrightarrow> frames d c (fp_arith rm op wr c)"
  by (auto simp: fp_arith_def x_frame_set_rounding_mode split: option.split prod.split)

lemma frames_fp_compare [simp]: "frames (nz (ir_rd ir)) c (fp_compare cmp ir c)"
  by (simp add: fp_compare_def Let_def split: prod.split)

lemma frames_from_option [simp]:
  "frames d c (from_option r c) \<longleftrightarrow> (\<forall>rv. r = Some rv \<longrightarrow> x_frame d (c_rv c) rv)"
  by (simp add: from_option_def split: option.split)

lemma x_frame_shift_func: "shift_func ir rv = Some rv' \<Longrightarrow> x_frame (Some (ir_rd ir)) rv rv'"
  by (auto simp: shift_func_def Let_def split: if_splits)

lemma frames_amo_op [simp]: "frames (nz (ir_rd ir)) c (amo_op f E ir c)"
  unfolding amo_op_def Let_def
  by simp (auto simp: nz_def x_frame_def set_X_def word_ram.wr_size)

lemma frames_rv32i: "ir_opcode ir = RV32I i \<Longrightarrow> frames (x_dest ir) c (rv32i_body i E ir c)"
  by (cases i) (simp_all add: x_dest_def template_defs Let_def x_frame_mem x_frame_shift_func)

lemma frames_rvpriv: "ir_opcode ir = RVPriv i \<Longrightarrow> frames (x_dest ir) c (rvpriv_body i E ir c)"
  by (cases i) (simp_all add: template_defs Let_def)

lemma frames_rvzifencei: "ir_opcode ir = RVZifencei i \<Longrightarrow> frames (x_dest ir) c (rvzifencei_body i E ir c)"
  by (cases i) (simp_all add: template_defs Let_def)

lemma frames_rvzicsr: "ir_opcode ir = RVZicsr i \<Longrightarrow> frames (x_dest ir) c (rvzicsr_body i E ir c)"
  by (cases i) (simp_all add: x_dest_def template_defs Let_def split: prod.split,
    auto intro!: x_frame_set_nz intro: x_frame_csr)

lemma frames_rvzba: "ir_opcode ir = RVZba i \<Longrightarrow> frames (x_dest ir) c (rvzba_body i E ir c)"
  by (cases i) (simp_all add: x_dest_def template_defs)

lemma frames_rvzbb: "ir_opcode ir = RVZbb i \<Longrightarrow> frames (x_dest ir) c (rvzbb_body i E ir c)"
  by (cases i) (simp_all add: x_dest_def template_defs Let_def x_frame_def set_X_def)

lemma frames_rvzbc: "ir_opcode ir = RVZbc i \<Longrightarrow> frames (x_dest ir) c (rvzbc_body i E ir c)"
  by (cases i) (simp_all add: x_dest_def template_defs)

lemma frames_rvzbs: "ir_opcode ir = RVZbs i \<Longrightarrow> frames (x_dest ir) c (rvzbs_body i E ir c)"
  by (cases i) (simp_all add: x_dest_def template_defs)

lemma frames_rv32m: "ir_opcode ir = RV32M i \<Longrightarrow> frames (x_dest ir) c (rv32m_body i E ir c)"
  by (cases i) (simp_all add: x_dest_def template_defs)

lemma frames_rv32a: "ir_opcode ir = RV32A i \<Longrightarrow> frames (x_dest ir) c (rv32a_body i E ir c)"
  by (cases i) (simp_all add: x_dest_def template_defs Let_def,
    auto simp: nz_def x_frame_def set_X_def word_ram.wr_size)

lemma frames_rv32f: "ir_opcode ir = RV32F i \<Longrightarrow> frames (x_dest ir) c (rv32f_body i E ir c)"
  by (cases i) (simp_all add: x_dest_def template_defs Let_def x_frame_mem frames_fp_arith write_fd_def
    x_frame_set_nz split: prod.split)

lemma frames_rv32c: "ir_opcode ir = RV32C i \<Longrightarrow> frames (x_dest ir) c (rv32c_body i E ir c)"
  by (cases i) (simp_all add: x_dest_def template_defs Let_def x_frame_mem)

lemma frames_rv32fc: "ir_opcode ir = RV32FC i \<Longrightarrow> frames (x_dest ir) c (rv32fc_body i E ir c)"
  by (cases i) (simp_all add: x_dest_def template_defs Let_def x_frame_mem)

lemma frames_op_body:
  "insn_attr_of (ir_opcode ir) \<noteq> None \<Longrightarrow> frames (x_dest ir) c (op_body (ir_opcode ir) E ir c)"
  by (cases "ir_opcode ir")
    (simp_all only: op_body.simps insn_attr_of.simps frames_rv32i frames_rvpriv frames_rvzifencei
      frames_rvzicsr frames_rvzba frames_rvzbb frames_rvzbc frames_rvzbs frames_rv32m frames_rv32a
      frames_rv32f frames_rv32c frames_rv32fc, simp)

lemma rvop_enter_simps [simp]:
  "c_rv (rvop_enter ir c) = c_rv c" "c_cycle (rvop_enter ir c) = c_cycle c + 1"
  "c_pc (rvop_enter ir c) = c_pc c"
  by (simp_all add: rvop_enter_def count_insn_def)

text \<open>The length of an instruction, 0 for a fused operation.\<close>

definition ir_len :: "rv_insn \<Rightarrow> u32" where
  "ir_len ir = (case insn_attr_of (ir_opcode ir) of Some a \<Rightarrow> of_nat (attr_insn_len a) | None \<Rightarrow> 0)"

lemma impl_Nextop:
  assumes "impl E ir c = Nextop c'" "insn_attr_of (ir_opcode ir) = Some a"
  shows "x_frame (x_dest ir) (c_rv c) (c_rv c')" "c_cycle c' = c_cycle c + 1"
    "c_pc c' = c_pc c + of_nat (attr_insn_len a)"
proof -
  from assms obtain d where d: "op_body (ir_opcode ir) E ir (rvop_enter ir c) = Nextop d"
    "c' = d\<lparr>c_pc := c_pc d + of_nat (attr_insn_len a)\<rparr>"
    by (auto simp: impl_def rvop_def finish_def split: outcome.splits)
  from frames_op_body [of ir "rvop_enter ir c" E] d(1) assms(2)
  have f: "x_frame (x_dest ir) (c_rv c) (c_rv d)" "c_cycle d = c_cycle c + 1" "c_pc d = c_pc c"
    by simp_all
  then show "x_frame (x_dest ir) (c_rv c) (c_rv c')" "c_cycle c' = c_cycle c + 1"
    "c_pc c' = c_pc c + of_nat (attr_insn_len a)"
    by (simp_all add: d(2))
qed

text \<open>C13. Whatever the callbacks, the softfloat library and the state, an instruction that passes
  control to its successor leaves every integer register other than its destination unchanged (and
  all of them when it has none), advances the cycle counter by one and the program counter by its
  length, and does not change the size of the guest memory.\<close>

theorem impl_frame:
  assumes "impl E ir c = Nextop c'" "insn_attr_of (ir_opcode ir) = Some a"
  shows "(\<forall>r. x_dest ir \<noteq> Some r \<longrightarrow> X (c_rv c') r = X (c_rv c) r)
    \<and> c_cycle c' = c_cycle c + 1 \<and> c_pc c' = c_pc c + of_nat (attr_insn_len a)
    \<and> mem_size (mem (c_rv c')) = mem_size (mem (c_rv c))"
  using impl_Nextop [OF assms] by (simp add: x_frame_def)

text \<open>A hart with every register and 4 KiB of guest memory zero, used to evaluate the model.\<close>

definition rv_blank :: riscv where
  "rv_blank = \<lparr>halt = False, X = (\<lambda>_. 0), PC = 0, F = (\<lambda>_. 0), csr = (\<lambda>_. 0), csr_cycle = 0,
     csr_time = (0, 0), timer = 0, priv_mode = 3, compressed = False,
     mem = \<lparr>mem_base = (\<lambda>_. 0), mem_size = 4096\<rparr>, allow_misalign = False,
     softfloat_roundingMode = softfloat_round_near_even, softfloat_exceptionFlags = {}, time_calls = 0\<rparr>"

theorem impl_frame_witness:
  "let ir = ir_calloc\<lparr>ir_opcode := RV32I rv_insn_addi, ir_rd := 2, ir_rs1 := 1, ir_imm := 4\<rparr>;
       c = start_ctx rv_blank emu_init
   in \<forall>E. \<exists>c'. impl E ir c = Nextop c' \<and> X (c_rv c') 2 = 4 \<and> X (c_rv c') 7 = 0 \<and> c_pc c' = 4"
proof -
  let ?ir = "ir_calloc\<lparr>ir_opcode := RV32I rv_insn_addi, ir_rd := 2, ir_rs1 := 1, ir_imm := 4\<rparr>"
  let ?c = "start_ctx rv_blank emu_init"
  have "\<exists>c'. impl E ?ir ?c = Nextop c' \<and> X (c_rv c') 2 = 4" for E
    by (simp add: impl_def rvop_def do_addi_def alu_def set_X_def ir_calloc_def start_ctx_def rv_blank_def)
  moreover have "X (c_rv c') 7 = 0 \<and> c_pc c' = 4" if "impl E ?ir ?c = Nextop c'" for E c'
    using impl_frame [OF that, of "attr False 4 True [F_rs1, F_rd]"]
    by (simp add: ir_calloc_def x_dest_def start_ctx_def rv_blank_def attr_def)
  ultimately show ?thesis unfolding Let_def by blast
qed

text \<open>What a register holds when a block has returned to \<^verbatim>\<open>rv_step\<close>.\<close>

definition final_X :: "u8 \<Rightarrow> outcome \<Rightarrow> u32 option" where
  "final_X r out = (case out of Return b rv em \<Rightarrow> Some (X rv r) | _ \<Rightarrow> None)"

text \<open>\<^verbatim>\<open>x0\<close> is an ordinary element of the register file: \<^verbatim>\<open>c.li x0, 5\<close>,
  a hint of the architecture that must have no effect, leaves 5 in it.\<close>

lemma cli_writes_x0:
  "final_X 0 (run_block E [ir_calloc\<lparr>ir_opcode := RV32C rv_insn_cli, ir_imm := 5\<rparr>] rv_blank em) = Some 5"
  by (simp add: run_block_def impl_def rvop_def do_cli_def alu_def write_X_def set_X_def finish_def ir_calloc_def
    start_ctx_def rv_blank_def final_X_def)

end
