(* ===== verification/RV_Constopt.thy ===== *)
theory RV_Constopt
  imports RV_Arch
begin

text \<open>
  Constant propagation (\<^verbatim>\<open>rv32_constopt.c\<close>, \<^verbatim>\<open>optimize_constant\<close> of
  \<^verbatim>\<open>emulate.c\<close>): one pass over the IR of a block that knows, for each integer
  register, whether its value is a constant, rewrites an instruction whose operands are known to
  \<^verbatim>\<open>lui\<close> or \<^verbatim>\<open>c.lui\<close> with the result, and a branch whose outcome is known
  to a jump. One definition per \<^verbatim>\<open>CONSTOPT\<close>; \<^const>\<open>None\<close> stands for
  undefined behaviour while folding.
\<close>

unbundle bit_operations_syntax

record constopt_info =
  is_constant :: "u8 \<Rightarrow> bool"
  const_val :: "u8 \<Rightarrow> u32"

section \<open>The shapes of the rewrites\<close>

definition set_const :: "u8 \<Rightarrow> u32 \<Rightarrow> constopt_info \<Rightarrow> constopt_info" where
  "set_const r v info =
     info\<lparr>is_constant := (is_constant info)(r := True), const_val := (const_val info)(r := v)\<rparr>"

definition kill :: "u8 \<Rightarrow> constopt_info \<Rightarrow> constopt_info" where
  "kill r info = info\<lparr>is_constant := (is_constant info)(r := False)\<rparr>"

definition to_lui :: "u32 \<Rightarrow> rv_insn \<Rightarrow> rv_insn" where
  "to_lui v ir = ir\<lparr>ir_imm := v, ir_opcode := RV32I rv_insn_lui\<rparr>"

definition to_clui :: "u8 \<Rightarrow> u32 \<Rightarrow> rv_insn \<Rightarrow> constopt_info \<Rightarrow> rv_insn \<times> constopt_info" where
  "to_clui r v ir info =
     (ir\<lparr>ir_imm := v, ir_rd := r, ir_opcode := RV32C rv_insn_clui\<rparr>, set_const r v info)"

definition opt_keep :: "rv_insn \<Rightarrow> constopt_info \<Rightarrow> (rv_insn \<times> constopt_info) option" where
  "opt_keep ir info = Some (ir, info)"

definition opt_kill :: "rv_insn \<Rightarrow> constopt_info \<Rightarrow> (rv_insn \<times> constopt_info) option" where
  "opt_kill ir info = Some (ir, kill (ir_rd ir) info)"

definition opt_kill_nz :: "rv_insn \<Rightarrow> constopt_info \<Rightarrow> (rv_insn \<times> constopt_info) option" where
  "opt_kill_nz ir info = Some (ir, if ir_rd ir \<noteq> 0 then kill (ir_rd ir) info else info)"

definition opt_imm :: "(u32 \<Rightarrow> u32 \<Rightarrow> u32) \<Rightarrow> rv_insn \<Rightarrow> constopt_info \<Rightarrow> (rv_insn \<times> constopt_info) option" where
  "opt_imm f ir info =
     (if is_constant info (ir_rs1 ir) then
        (let v = f (const_val info (ir_rs1 ir)) (ir_imm ir)
         in Some (to_lui v ir, set_const (ir_rd ir) v info))
      else Some (ir, kill (ir_rd ir) info))"

definition opt_reg :: "(u32 \<Rightarrow> u32 \<Rightarrow> u32) \<Rightarrow> rv_insn \<Rightarrow> constopt_info \<Rightarrow> (rv_insn \<times> constopt_info) option" where
  "opt_reg f ir info =
     (if is_constant info (ir_rs1 ir) \<and> is_constant info (ir_rs2 ir) then
        (let v = f (const_val info (ir_rs1 ir)) (const_val info (ir_rs2 ir))
         in Some (to_lui v ir, set_const (ir_rd ir) v info))
      else Some (ir, kill (ir_rd ir) info))"

definition opt_creg :: "(u32 \<Rightarrow> u32 \<Rightarrow> u32) \<Rightarrow> rv_insn \<Rightarrow> constopt_info \<Rightarrow> (rv_insn \<times> constopt_info) option" where
  "opt_creg f ir info =
     (if is_constant info (ir_rs1 ir) \<and> is_constant info (ir_rs2 ir) then
        Some (to_clui (ir_rd ir) (f (const_val info (ir_rs1 ir)) (const_val info (ir_rs2 ir))) ir info)
      else Some (ir, kill (ir_rd ir) info))"

text \<open>The compressed instructions that update one register in place.\<close>

definition opt_update :: "u8 \<Rightarrow> (u32 \<Rightarrow> u32) \<Rightarrow> rv_insn \<Rightarrow> constopt_info \<Rightarrow> (rv_insn \<times> constopt_info) option" where
  "opt_update r f ir info =
     (if is_constant info r then Some (to_clui r (f (const_val info r)) ir info) else Some (ir, info))"

definition opt_branch_func :: "(u32 \<Rightarrow> u32 \<Rightarrow> bool) \<Rightarrow> rv_insn \<Rightarrow> constopt_info \<Rightarrow> (rv_insn \<times> constopt_info) option" where
  "opt_branch_func fall_through ir info =
     (if is_constant info (ir_rs1 ir) \<and> is_constant info (ir_rs2 ir) then
        (let ir1 = (if fall_through (const_val info (ir_rs1 ir)) (const_val info (ir_rs2 ir))
                    then ir\<lparr>ir_imm := 4\<rparr> else ir)
         in Some (ir1\<lparr>ir_opcode := RV32I rv_insn_jal\<rparr>, info))
      else Some (ir, info))"

definition opt_cbranch :: "(u32 \<Rightarrow> bool) \<Rightarrow> rv_insn \<Rightarrow> constopt_info \<Rightarrow> (rv_insn \<times> constopt_info) option" where
  "opt_cbranch fall_through ir info =
     (if is_constant info (ir_rs1 ir) then
        (let ir1 = (if fall_through (const_val info (ir_rs1 ir)) then ir\<lparr>ir_imm := 2\<rparr> else ir)
         in Some (ir1\<lparr>ir_opcode := RV32C rv_insn_cj\<rparr>, info))
      else Some (ir, info))"

section \<open>RV32I\<close>

definition constopt_lui :: "rv_insn \<Rightarrow> constopt_info \<Rightarrow> (rv_insn \<times> constopt_info) option" where
  "constopt_lui ir info = Some (ir, set_const (ir_rd ir) (ir_imm ir) info)"

definition constopt_auipc :: "rv_insn \<Rightarrow> constopt_info \<Rightarrow> (rv_insn \<times> constopt_info) option" where
  "constopt_auipc ir info = 
     (let v = ir_imm ir + ir_pc ir in Some (to_lui v ir, set_const (ir_rd ir) v info))"

definition constopt_jal :: "rv_insn \<Rightarrow> constopt_info \<Rightarrow> (rv_insn \<times> constopt_info) option" where
  "constopt_jal ir info = 
     Some (ir, if ir_rd ir \<noteq> 0 then set_const (ir_rd ir) (ir_pc ir + 4) info else info)"

definition constopt_jalr :: "rv_insn \<Rightarrow> constopt_info \<Rightarrow> (rv_insn \<times> constopt_info) option" where
  "constopt_jalr ir info = 
     Some (ir, if ir_rd ir \<noteq> 0 then set_const (ir_rd ir) (ir_pc ir + 4) info else info)"

definition constopt_beq :: "rv_insn \<Rightarrow> constopt_info \<Rightarrow> (rv_insn \<times> constopt_info) option" where
  "constopt_beq = opt_branch_func (\<lambda>x y. x \<noteq> y)"

definition constopt_bne :: "rv_insn \<Rightarrow> constopt_info \<Rightarrow> (rv_insn \<times> constopt_info) option" where
  "constopt_bne = opt_branch_func (\<lambda>x y. x = y)"

definition constopt_blt :: "rv_insn \<Rightarrow> constopt_info \<Rightarrow> (rv_insn \<times> constopt_info) option" where
  "constopt_blt = opt_branch_func (\<lambda>x y. sint x \<ge> sint y)"

definition constopt_bge :: "rv_insn \<Rightarrow> constopt_info \<Rightarrow> (rv_insn \<times> constopt_info) option" where
  "constopt_bge = opt_branch_func (\<lambda>x y. sint x < sint y)"

definition constopt_bltu :: "rv_insn \<Rightarrow> constopt_info \<Rightarrow> (rv_insn \<times> constopt_info) option" where
  "constopt_bltu = opt_branch_func (\<lambda>x y. x \<ge> y)"

definition constopt_bgeu :: "rv_insn \<Rightarrow> constopt_info \<Rightarrow> (rv_insn \<times> constopt_info) option" where
  "constopt_bgeu = opt_branch_func (\<lambda>x y. x < y)"

definition constopt_addi :: "rv_insn \<Rightarrow> constopt_info \<Rightarrow> (rv_insn \<times> constopt_info) option" where
  "constopt_addi = opt_imm (\<lambda>x imm. imm + x)"

definition constopt_slti :: "rv_insn \<Rightarrow> constopt_info \<Rightarrow> (rv_insn \<times> constopt_info) option" where
  "constopt_slti = opt_imm (\<lambda>x imm. if sint x < sint imm then 1 else 0)"

definition constopt_sltiu :: "rv_insn \<Rightarrow> constopt_info \<Rightarrow> (rv_insn \<times> constopt_info) option" where
  "constopt_sltiu = opt_imm (\<lambda>x imm. if x < imm then 1 else 0)"

definition constopt_xori :: "rv_insn \<Rightarrow> constopt_info \<Rightarrow> (rv_insn \<times> constopt_info) option" where
  "constopt_xori = opt_imm (\<lambda>x imm. imm XOR x)"

definition constopt_ori :: "rv_insn \<Rightarrow> constopt_info \<Rightarrow> (rv_insn \<times> constopt_info) option" where
  "constopt_ori = opt_imm (\<lambda>x imm. imm OR x)"

definition constopt_andi :: "rv_insn \<Rightarrow> constopt_info \<Rightarrow> (rv_insn \<times> constopt_info) option" where
  "constopt_andi = opt_imm (\<lambda>x imm. imm AND x)"

definition constopt_slli :: "rv_insn \<Rightarrow> constopt_info \<Rightarrow> (rv_insn \<times> constopt_info) option" where
  "constopt_slli = opt_imm (\<lambda>x imm. push_bit (unat (imm AND 0x1F)) x)"

definition constopt_srli :: "rv_insn \<Rightarrow> constopt_info \<Rightarrow> (rv_insn \<times> constopt_info) option" where
  "constopt_srli = opt_imm (\<lambda>x imm. drop_bit (unat (imm AND 0x1F)) x)"

definition constopt_srai :: "rv_insn \<Rightarrow> constopt_info \<Rightarrow> (rv_insn \<times> constopt_info) option" where
  "constopt_srai = opt_imm (\<lambda>x imm. sar (unat (imm AND 0x1F)) x)"

definition constopt_add :: "rv_insn \<Rightarrow> constopt_info \<Rightarrow> (rv_insn \<times> constopt_info) option" where
  "constopt_add = opt_reg (\<lambda>x y. x + y)"

definition constopt_sub :: "rv_insn \<Rightarrow> constopt_info \<Rightarrow> (rv_insn \<times> constopt_info) option" where
  "constopt_sub = opt_reg (\<lambda>x y. x - y)"

definition constopt_sll :: "rv_insn \<Rightarrow> constopt_info \<Rightarrow> (rv_insn \<times> constopt_info) option" where
  "constopt_sll = opt_reg (\<lambda>x y. push_bit (unat (y AND 0x1F)) x)"

definition constopt_slt :: "rv_insn \<Rightarrow> constopt_info \<Rightarrow> (rv_insn \<times> constopt_info) option" where
  "constopt_slt = opt_reg (\<lambda>x y. if sint x < sint y then 1 else 0)"

definition constopt_sltu :: "rv_insn \<Rightarrow> constopt_info \<Rightarrow> (rv_insn \<times> constopt_info) option" where
  "constopt_sltu = opt_reg (\<lambda>x y. if x < y then 1 else 0)"

definition constopt_xor :: "rv_insn \<Rightarrow> constopt_info \<Rightarrow> (rv_insn \<times> constopt_info) option" where
  "constopt_xor = opt_reg (\<lambda>x y. x XOR y)"

definition constopt_srl :: "rv_insn \<Rightarrow> constopt_info \<Rightarrow> (rv_insn \<times> constopt_info) option" where
  "constopt_srl = opt_reg (\<lambda>x y. drop_bit (unat (y AND 0x1F)) x)"

definition constopt_sra :: "rv_insn \<Rightarrow> constopt_info \<Rightarrow> (rv_insn \<times> constopt_info) option" where
  "constopt_sra = opt_reg (\<lambda>x y. sar (unat (y AND 0x1F)) x)"

definition constopt_or :: "rv_insn \<Rightarrow> constopt_info \<Rightarrow> (rv_insn \<times> constopt_info) option" where
  "constopt_or = opt_reg (\<lambda>x y. x OR y)"

definition constopt_and :: "rv_insn \<Rightarrow> constopt_info \<Rightarrow> (rv_insn \<times> constopt_info) option" where
  "constopt_and = opt_reg (\<lambda>x y. x AND y)"

section \<open>RV32M\<close>

definition constopt_mul :: "rv_insn \<Rightarrow> constopt_info \<Rightarrow> (rv_insn \<times> constopt_info) option" where
  "constopt_mul = opt_reg (\<lambda>x y. ucast ((scast x :: u64) * (scast y :: u64) AND 0xFFFFFFFF))"

definition constopt_mulh :: "rv_insn \<Rightarrow> constopt_info \<Rightarrow> (rv_insn \<times> constopt_info) option" where
  "constopt_mulh = opt_reg (\<lambda>x y. ucast (drop_bit 32 ((scast x :: u64) * (scast y :: u64))))"

definition constopt_mulhsu :: "rv_insn \<Rightarrow> constopt_info \<Rightarrow> (rv_insn \<times> constopt_info) option" where
  "constopt_mulhsu = opt_reg (\<lambda>x y. ucast (drop_bit 32 ((scast x :: u64) * (ucast y :: u64))))"

text \<open>The product of two 32-bit values, computed in \<^verbatim>\<open>int64_t\<close>, overflows from
  \<^verbatim>\<open>2^63\<close> on, which is undefined.\<close>

definition constopt_mulhu :: "rv_insn \<Rightarrow> constopt_info \<Rightarrow> (rv_insn \<times> constopt_info) option" where
  "constopt_mulhu ir info = 
     (if is_constant info (ir_rs1 ir) \<and> is_constant info (ir_rs2 ir)
        \<and> uint (const_val info (ir_rs1 ir)) * uint (const_val info (ir_rs2 ir)) \<ge> 2 ^ 63
      then None
      else opt_reg (\<lambda>x y. ucast (drop_bit 32 ((ucast x :: u64) * (ucast y :: u64)))) ir info)"

definition constopt_div :: "rv_insn \<Rightarrow> constopt_info \<Rightarrow> (rv_insn \<times> constopt_info) option" where
  "constopt_div = opt_reg (\<lambda>x y. if y = 0 then NOT 0 else if sint y = -1 \<and> x = 0x80000000 then x else word_of_int (sint x sdiv sint y))"

definition constopt_divu :: "rv_insn \<Rightarrow> constopt_info \<Rightarrow> (rv_insn \<times> constopt_info) option" where
  "constopt_divu = opt_reg (\<lambda>x y. if y = 0 then NOT 0 else x div y)"

definition constopt_rem :: "rv_insn \<Rightarrow> constopt_info \<Rightarrow> (rv_insn \<times> constopt_info) option" where
  "constopt_rem = opt_reg (\<lambda>x y. if y = 0 then x else if sint y = -1 \<and> x = 0x80000000 then 0 else word_of_int (sint x smod sint y))"

definition constopt_remu :: "rv_insn \<Rightarrow> constopt_info \<Rightarrow> (rv_insn \<times> constopt_info) option" where
  "constopt_remu = opt_reg (\<lambda>x y. if y = 0 then x else x mod y)"

section \<open>RV32C and RV32FC\<close>

definition constopt_caddi4spn :: "rv_insn \<Rightarrow> constopt_info \<Rightarrow> (rv_insn \<times> constopt_info) option" where
  "constopt_caddi4spn ir info = 
     (if is_constant info rv_reg_sp
      then Some (to_clui (ir_rd ir) (const_val info rv_reg_sp + ucast (ucast (ir_imm ir) :: u16)) ir info)
      else Some (ir, kill (ir_rd ir) info))"

definition constopt_caddi :: "rv_insn \<Rightarrow> constopt_info \<Rightarrow> (rv_insn \<times> constopt_info) option" where
  "constopt_caddi ir info = 
     opt_update (ir_rd ir) (\<lambda>x. x + scast (ucast (ir_imm ir) :: u16)) ir info"

definition constopt_cjal :: "rv_insn \<Rightarrow> constopt_info \<Rightarrow> (rv_insn \<times> constopt_info) option" where
  "constopt_cjal ir info = Some (ir, set_const rv_reg_ra (ir_pc ir + 2) info)"

definition constopt_cli :: "rv_insn \<Rightarrow> constopt_info \<Rightarrow> (rv_insn \<times> constopt_info) option" where
  "constopt_cli ir info = Some (ir, set_const (ir_rd ir) (ir_imm ir) info)"

definition constopt_caddi16sp :: "rv_insn \<Rightarrow> constopt_info \<Rightarrow> (rv_insn \<times> constopt_info) option" where
  "constopt_caddi16sp ir info = opt_update (ir_rd ir) (\<lambda>x. x + ir_imm ir) ir info"

definition constopt_clui :: "rv_insn \<Rightarrow> constopt_info \<Rightarrow> (rv_insn \<times> constopt_info) option" where
  "constopt_clui ir info = Some (ir, set_const (ir_rd ir) (ir_imm ir) info)"

definition constopt_csrli :: "rv_insn \<Rightarrow> constopt_info \<Rightarrow> (rv_insn \<times> constopt_info) option" where
  "constopt_csrli ir info = 
     (if is_constant info (ir_rs1 ir) \<and> \<not> ir_shamt ir < 32 then None
      else opt_update (ir_rs1 ir) (\<lambda>x. drop_bit (unat (ir_shamt ir)) x) ir info)"

definition constopt_csrai :: "rv_insn \<Rightarrow> constopt_info \<Rightarrow> (rv_insn \<times> constopt_info) option" where
  "constopt_csrai ir info = 
     (if is_constant info (ir_rs1 ir) \<and> \<not> ir_shamt ir < 32 then None
      else opt_update (ir_rs1 ir) (\<lambda>x. csrai_loop (unat (ir_shamt ir)) x) ir info)"

definition constopt_candi :: "rv_insn \<Rightarrow> constopt_info \<Rightarrow> (rv_insn \<times> constopt_info) option" where
  "constopt_candi ir info = opt_update (ir_rs1 ir) (\<lambda>x. x AND ir_imm ir) ir info"

definition constopt_csub :: "rv_insn \<Rightarrow> constopt_info \<Rightarrow> (rv_insn \<times> constopt_info) option" where
  "constopt_csub = opt_creg (\<lambda>x y. x - y)"

definition constopt_cxor :: "rv_insn \<Rightarrow> constopt_info \<Rightarrow> (rv_insn \<times> constopt_info) option" where
  "constopt_cxor = opt_creg (\<lambda>x y. x XOR y)"

definition constopt_cor :: "rv_insn \<Rightarrow> constopt_info \<Rightarrow> (rv_insn \<times> constopt_info) option" where
  "constopt_cor = opt_creg (\<lambda>x y. x OR y)"

definition constopt_cand :: "rv_insn \<Rightarrow> constopt_info \<Rightarrow> (rv_insn \<times> constopt_info) option" where
  "constopt_cand = opt_creg (\<lambda>x y. x AND y)"

definition constopt_cbeqz :: "rv_insn \<Rightarrow> constopt_info \<Rightarrow> (rv_insn \<times> constopt_info) option" where
  "constopt_cbeqz = opt_cbranch (\<lambda>x. x \<noteq> 0)"

definition constopt_cbnez :: "rv_insn \<Rightarrow> constopt_info \<Rightarrow> (rv_insn \<times> constopt_info) option" where
  "constopt_cbnez = opt_cbranch (\<lambda>x. x = 0)"

definition constopt_cslli :: "rv_insn \<Rightarrow> constopt_info \<Rightarrow> (rv_insn \<times> constopt_info) option" where
  "constopt_cslli ir info = 
     (let s = unat (ucast (ir_imm ir) :: u8) in
      if is_constant info (ir_rd ir) \<and> \<not> s < 32 then None
      else opt_update (ir_rd ir) (\<lambda>x. push_bit s x) ir info)"

definition constopt_cmv :: "rv_insn \<Rightarrow> constopt_info \<Rightarrow> (rv_insn \<times> constopt_info) option" where
  "constopt_cmv ir info = 
     (if is_constant info (ir_rs2 ir) then Some (to_clui (ir_rd ir) (const_val info (ir_rs2 ir)) ir info)
      else Some (ir, kill (ir_rd ir) info))"

definition constopt_cjalr :: "rv_insn \<Rightarrow> constopt_info \<Rightarrow> (rv_insn \<times> constopt_info) option" where
  "constopt_cjalr ir info = 
     Some (ir, info\<lparr>is_constant := (is_constant info)(rv_reg_ra := True),
                     const_val := (const_val info)(ir_rd ir := ir_pc ir + 2)\<rparr>)"

definition constopt_cadd :: "rv_insn \<Rightarrow> constopt_info \<Rightarrow> (rv_insn \<times> constopt_info) option" where
  "constopt_cadd = opt_creg (\<lambda>x y. x + y)"

section \<open>The pass over a block\<close>

text \<open>
  \<^verbatim>\<open>constopt_table\<close>, by section of the instruction list. An instruction whose
  \<^verbatim>\<open>CONSTOPT\<close> body is empty keeps the knowledge (\<^term>\<open>opt_keep\<close>); most others
  only forget their destination, with (\<^term>\<open>opt_kill_nz\<close>) or without
  (\<^term>\<open>opt_kill\<close>) a test for \<^verbatim>\<open>x0\<close>.
\<close>

primrec rv32i_constopt :: "rv32i_insn \<Rightarrow> rv_insn \<Rightarrow> constopt_info \<Rightarrow> (rv_insn \<times> constopt_info) option" where
  "rv32i_constopt rv_insn_nop = opt_keep"
| "rv32i_constopt rv_insn_lui = constopt_lui"
| "rv32i_constopt rv_insn_auipc = constopt_auipc"
| "rv32i_constopt rv_insn_jal = constopt_jal"
| "rv32i_constopt rv_insn_jalr = constopt_jalr"
| "rv32i_constopt rv_insn_beq = constopt_beq"
| "rv32i_constopt rv_insn_bne = constopt_bne"
| "rv32i_constopt rv_insn_blt = constopt_blt"
| "rv32i_constopt rv_insn_bge = constopt_bge"
| "rv32i_constopt rv_insn_bltu = constopt_bltu"
| "rv32i_constopt rv_insn_bgeu = constopt_bgeu"
| "rv32i_constopt rv_insn_lb = opt_kill"
| "rv32i_constopt rv_insn_lh = opt_kill"
| "rv32i_constopt rv_insn_lw = opt_kill"
| "rv32i_constopt rv_insn_lbu = opt_kill"
| "rv32i_constopt rv_insn_lhu = opt_kill"
| "rv32i_constopt rv_insn_sb = opt_keep"
| "rv32i_constopt rv_insn_sh = opt_keep"
| "rv32i_constopt rv_insn_sw = opt_keep"
| "rv32i_constopt rv_insn_addi = constopt_addi"
| "rv32i_constopt rv_insn_slti = constopt_slti"
| "rv32i_constopt rv_insn_sltiu = constopt_sltiu"
| "rv32i_constopt rv_insn_xori = constopt_xori"
| "rv32i_constopt rv_insn_ori = constopt_ori"
| "rv32i_constopt rv_insn_andi = constopt_andi"
| "rv32i_constopt rv_insn_slli = constopt_slli"
| "rv32i_constopt rv_insn_srli = constopt_srli"
| "rv32i_constopt rv_insn_srai = constopt_srai"
| "rv32i_constopt rv_insn_add = constopt_add"
| "rv32i_constopt rv_insn_sub = constopt_sub"
| "rv32i_constopt rv_insn_sll = constopt_sll"
| "rv32i_constopt rv_insn_slt = constopt_slt"
| "rv32i_constopt rv_insn_sltu = constopt_sltu"
| "rv32i_constopt rv_insn_xor = constopt_xor"
| "rv32i_constopt rv_insn_srl = constopt_srl"
| "rv32i_constopt rv_insn_sra = constopt_sra"
| "rv32i_constopt rv_insn_or = constopt_or"
| "rv32i_constopt rv_insn_and = constopt_and"
| "rv32i_constopt rv_insn_fence = opt_keep"
| "rv32i_constopt rv_insn_ecall = opt_keep"
| "rv32i_constopt rv_insn_ebreak = opt_keep"

primrec rvpriv_constopt :: "rvpriv_insn \<Rightarrow> rv_insn \<Rightarrow> constopt_info \<Rightarrow> (rv_insn \<times> constopt_info) option" where
  "rvpriv_constopt rv_insn_wfi = opt_keep"
| "rvpriv_constopt rv_insn_uret = opt_keep"
| "rvpriv_constopt rv_insn_sret = opt_keep"
| "rvpriv_constopt rv_insn_hret = opt_keep"
| "rvpriv_constopt rv_insn_mret = opt_keep"
| "rvpriv_constopt rv_insn_sfencevma = opt_keep"

primrec rvzifencei_constopt :: "rvzifencei_insn \<Rightarrow> rv_insn \<Rightarrow> constopt_info \<Rightarrow> (rv_insn \<times> constopt_info) option" where
  "rvzifencei_constopt rv_insn_fencei = opt_keep"

primrec rvzicsr_constopt :: "rvzicsr_insn \<Rightarrow> rv_insn \<Rightarrow> constopt_info \<Rightarrow> (rv_insn \<times> constopt_info) option" where
  "rvzicsr_constopt rv_insn_csrrw = opt_kill"
| "rvzicsr_constopt rv_insn_csrrs = opt_kill"
| "rvzicsr_constopt rv_insn_csrrc = opt_kill"
| "rvzicsr_constopt rv_insn_csrrwi = opt_kill"
| "rvzicsr_constopt rv_insn_csrrsi = opt_kill"
| "rvzicsr_constopt rv_insn_csrrci = opt_kill"

primrec rvzba_constopt :: "rvzba_insn \<Rightarrow> rv_insn \<Rightarrow> constopt_info \<Rightarrow> (rv_insn \<times> constopt_info) option" where
  "rvzba_constopt rv_insn_sh1add = opt_kill_nz"
| "rvzba_constopt rv_insn_sh2add = opt_kill_nz"
| "rvzba_constopt rv_insn_sh3add = opt_kill_nz"

primrec rvzbb_constopt :: "rvzbb_insn \<Rightarrow> rv_insn \<Rightarrow> constopt_info \<Rightarrow> (rv_insn \<times> constopt_info) option" where
  "rvzbb_constopt rv_insn_andn = opt_kill_nz"
| "rvzbb_constopt rv_insn_orn = opt_kill_nz"
| "rvzbb_constopt rv_insn_xnor = opt_kill_nz"
| "rvzbb_constopt rv_insn_clz = opt_kill_nz"
| "rvzbb_constopt rv_insn_ctz = opt_kill_nz"
| "rvzbb_constopt rv_insn_cpop = opt_kill_nz"
| "rvzbb_constopt rv_insn_max = opt_kill_nz"
| "rvzbb_constopt rv_insn_maxu = opt_kill_nz"
| "rvzbb_constopt rv_insn_min = opt_kill_nz"
| "rvzbb_constopt rv_insn_minu = opt_kill_nz"
| "rvzbb_constopt rv_insn_sextb = opt_kill_nz"
| "rvzbb_constopt rv_insn_sexth = opt_kill_nz"
| "rvzbb_constopt rv_insn_zexth = opt_kill_nz"
| "rvzbb_constopt rv_insn_rol = opt_kill_nz"
| "rvzbb_constopt rv_insn_ror = opt_kill_nz"
| "rvzbb_constopt rv_insn_rori = opt_kill_nz"
| "rvzbb_constopt rv_insn_orcb = opt_kill_nz"
| "rvzbb_constopt rv_insn_rev8 = opt_kill_nz"

primrec rvzbc_constopt :: "rvzbc_insn \<Rightarrow> rv_insn \<Rightarrow> constopt_info \<Rightarrow> (rv_insn \<times> constopt_info) option" where
  "rvzbc_constopt rv_insn_clmul = opt_kill_nz"
| "rvzbc_constopt rv_insn_clmulh = opt_kill_nz"
| "rvzbc_constopt rv_insn_clmulr = opt_kill_nz"

primrec rvzbs_constopt :: "rvzbs_insn \<Rightarrow> rv_insn \<Rightarrow> constopt_info \<Rightarrow> (rv_insn \<times> constopt_info) option" where
  "rvzbs_constopt rv_insn_bclr = opt_kill_nz"
| "rvzbs_constopt rv_insn_bclri = opt_kill_nz"
| "rvzbs_constopt rv_insn_bext = opt_kill_nz"
| "rvzbs_constopt rv_insn_bexti = opt_kill_nz"
| "rvzbs_constopt rv_insn_binv = opt_kill_nz"
| "rvzbs_constopt rv_insn_binvi = opt_kill_nz"
| "rvzbs_constopt rv_insn_bset = opt_kill_nz"
| "rvzbs_constopt rv_insn_bseti = opt_kill_nz"

primrec rv32m_constopt :: "rv32m_insn \<Rightarrow> rv_insn \<Rightarrow> constopt_info \<Rightarrow> (rv_insn \<times> constopt_info) option" where
  "rv32m_constopt rv_insn_mul = constopt_mul"
| "rv32m_constopt rv_insn_mulh = constopt_mulh"
| "rv32m_constopt rv_insn_mulhsu = constopt_mulhsu"
| "rv32m_constopt rv_insn_mulhu = constopt_mulhu"
| "rv32m_constopt rv_insn_div = constopt_div"
| "rv32m_constopt rv_insn_divu = constopt_divu"
| "rv32m_constopt rv_insn_rem = constopt_rem"
| "rv32m_constopt rv_insn_remu = constopt_remu"

primrec rv32a_constopt :: "rv32a_insn \<Rightarrow> rv_insn \<Rightarrow> constopt_info \<Rightarrow> (rv_insn \<times> constopt_info) option" where
  "rv32a_constopt rv_insn_lrw = opt_kill_nz"
| "rv32a_constopt rv_insn_scw = opt_keep"
| "rv32a_constopt rv_insn_amoswapw = opt_kill_nz"
| "rv32a_constopt rv_insn_amoaddw = opt_kill_nz"
| "rv32a_constopt rv_insn_amoxorw = opt_kill_nz"
| "rv32a_constopt rv_insn_amoandw = opt_kill_nz"
| "rv32a_constopt rv_insn_amoorw = opt_kill_nz"
| "rv32a_constopt rv_insn_amominw = opt_kill_nz"
| "rv32a_constopt rv_insn_amomaxw = opt_kill_nz"
| "rv32a_constopt rv_insn_amominuw = opt_kill_nz"
| "rv32a_constopt rv_insn_amomaxuw = opt_kill_nz"

primrec rv32f_constopt :: "rv32f_insn \<Rightarrow> rv_insn \<Rightarrow> constopt_info \<Rightarrow> (rv_insn \<times> constopt_info) option" where
  "rv32f_constopt rv_insn_flw = opt_keep"
| "rv32f_constopt rv_insn_fsw = opt_keep"
| "rv32f_constopt rv_insn_fmadds = opt_keep"
| "rv32f_constopt rv_insn_fmsubs = opt_keep"
| "rv32f_constopt rv_insn_fnmsubs = opt_keep"
| "rv32f_constopt rv_insn_fnmadds = opt_keep"
| "rv32f_constopt rv_insn_fadds = opt_keep"
| "rv32f_constopt rv_insn_fsubs = opt_keep"
| "rv32f_constopt rv_insn_fmuls = opt_keep"
| "rv32f_constopt rv_insn_fdivs = opt_keep"
| "rv32f_constopt rv_insn_fsqrts = opt_keep"
| "rv32f_constopt rv_insn_fsgnjs = opt_keep"
| "rv32f_constopt rv_insn_fsgnjns = opt_keep"
| "rv32f_constopt rv_insn_fsgnjxs = opt_keep"
| "rv32f_constopt rv_insn_fmins = opt_keep"
| "rv32f_constopt rv_insn_fmaxs = opt_keep"
| "rv32f_constopt rv_insn_fcvtws = opt_kill_nz"
| "rv32f_constopt rv_insn_fcvtwus = opt_kill_nz"
| "rv32f_constopt rv_insn_fmvxw = opt_kill_nz"
| "rv32f_constopt rv_insn_feqs = opt_kill_nz"
| "rv32f_constopt rv_insn_flts = opt_kill_nz"
| "rv32f_constopt rv_insn_fles = opt_kill_nz"
| "rv32f_constopt rv_insn_fclasss = opt_kill_nz"
| "rv32f_constopt rv_insn_fcvtsw = opt_keep"
| "rv32f_constopt rv_insn_fcvtswu = opt_keep"
| "rv32f_constopt rv_insn_fmvwx = opt_keep"

primrec rv32c_constopt :: "rv32c_insn \<Rightarrow> rv_insn \<Rightarrow> constopt_info \<Rightarrow> (rv_insn \<times> constopt_info) option" where
  "rv32c_constopt rv_insn_caddi4spn = constopt_caddi4spn"
| "rv32c_constopt rv_insn_clw = opt_kill"
| "rv32c_constopt rv_insn_csw = opt_keep"
| "rv32c_constopt rv_insn_cnop = opt_keep"
| "rv32c_constopt rv_insn_caddi = constopt_caddi"
| "rv32c_constopt rv_insn_cjal = constopt_cjal"
| "rv32c_constopt rv_insn_cli = constopt_cli"
| "rv32c_constopt rv_insn_caddi16sp = constopt_caddi16sp"
| "rv32c_constopt rv_insn_clui = constopt_clui"
| "rv32c_constopt rv_insn_csrli = constopt_csrli"
| "rv32c_constopt rv_insn_csrai = constopt_csrai"
| "rv32c_constopt rv_insn_candi = constopt_candi"
| "rv32c_constopt rv_insn_csub = constopt_csub"
| "rv32c_constopt rv_insn_cxor = constopt_cxor"
| "rv32c_constopt rv_insn_cor = constopt_cor"
| "rv32c_constopt rv_insn_cand = constopt_cand"
| "rv32c_constopt rv_insn_cj = opt_keep"
| "rv32c_constopt rv_insn_cbeqz = constopt_cbeqz"
| "rv32c_constopt rv_insn_cbnez = constopt_cbnez"
| "rv32c_constopt rv_insn_cslli = constopt_cslli"
| "rv32c_constopt rv_insn_clwsp = opt_kill"
| "rv32c_constopt rv_insn_cjr = opt_keep"
| "rv32c_constopt rv_insn_cmv = constopt_cmv"
| "rv32c_constopt rv_insn_cebreak = opt_keep"
| "rv32c_constopt rv_insn_cjalr = constopt_cjalr"
| "rv32c_constopt rv_insn_cadd = constopt_cadd"
| "rv32c_constopt rv_insn_cswsp = opt_keep"

primrec rv32fc_constopt :: "rv32fc_insn \<Rightarrow> rv_insn \<Rightarrow> constopt_info \<Rightarrow> (rv_insn \<times> constopt_info) option" where
  "rv32fc_constopt rv_insn_cflwsp = opt_keep"
| "rv32fc_constopt rv_insn_cfswsp = opt_keep"
| "rv32fc_constopt rv_insn_cflw = opt_keep"
| "rv32fc_constopt rv_insn_cfsw = opt_keep"

fun constopt :: "rv_insn \<Rightarrow> constopt_info \<Rightarrow> (rv_insn \<times> constopt_info) option" where
  "constopt ir info = (case ir_opcode ir of
      RV32I i \<Rightarrow> rv32i_constopt i ir info
    | RVPriv i \<Rightarrow> rvpriv_constopt i ir info
    | RVZifencei i \<Rightarrow> rvzifencei_constopt i ir info
    | RVZicsr i \<Rightarrow> rvzicsr_constopt i ir info
    | RVZba i \<Rightarrow> rvzba_constopt i ir info
    | RVZbb i \<Rightarrow> rvzbb_constopt i ir info
    | RVZbc i \<Rightarrow> rvzbc_constopt i ir info
    | RVZbs i \<Rightarrow> rvzbs_constopt i ir info
    | RV32M i \<Rightarrow> rv32m_constopt i ir info
    | RV32A i \<Rightarrow> rv32a_constopt i ir info
    | RV32F i \<Rightarrow> rv32f_constopt i ir info
    | RV32C i \<Rightarrow> rv32c_constopt i ir info
    | RV32FC i \<Rightarrow> rv32fc_constopt i ir info
    | Fuse i \<Rightarrow> None)"

definition constopt_init :: constopt_info where
  "constopt_init = \<lparr>is_constant = (\<lambda>r. r = 0), const_val = (\<lambda>_. 0)\<rparr>"

fun constopt_loop :: "rv_insn list \<Rightarrow> constopt_info \<Rightarrow> rv_insn list option" where
  "constopt_loop [] info = Some []"
| "constopt_loop (ir # irs) info =
     (case constopt ir info of
        None \<Rightarrow> None
      | Some (ir', info') \<Rightarrow> map_option ((#) ir') (constopt_loop irs info'))"

text \<open>The pass asserts that \<^verbatim>\<open>x0\<close> holds zero.\<close>

definition optimize_constant :: "riscv \<Rightarrow> rv_insn list \<Rightarrow> rv_insn list option" where
  "optimize_constant rv irs = (if X rv 0 = 0 then constopt_loop irs constopt_init else None)"

end
