(* ===== verification/RV_Decode_Wf.thy ===== *)
theory RV_Decode_Wf
  imports RV_Decode_Spec
begin

text \<open>
  What every accepted instruction word guarantees to the interpreter: the register numbers
  index the register file, the opcode belongs to a configured extension, and its length in the
  attribute table agrees with the length of the encoding. Also: which encodings end the process in
  a failed assertion.
\<close>

unbundle bit_operations_syntax

section \<open>A predicate on decoder results\<close>

definition res_sat :: "(rv_insn \<Rightarrow> bool) \<Rightarrow> decode_result \<Rightarrow> bool" where
  "res_sat P r \<longleftrightarrow> (case r of Decoded ir \<Rightarrow> P ir | _ \<Rightarrow> True)"

lemma res_sat_simps [simp]:
  "res_sat P (Decoded ir) = P ir" "res_sat P (Illegal ir)" "res_sat P Aborted"
  "res_sat P (set_opcode op ir) = P (ir\<lparr>ir_opcode := op\<rparr>)"
  by (simp_all add: res_sat_def set_opcode_def)

lemma res_sat_switch [intro]:
  "list_all (\<lambda>(k, op). P (ir\<lparr>ir_opcode := op\<rparr>)) tbl \<Longrightarrow> res_sat P (switch_opcode tbl k ir)"
  by (auto simp: res_sat_def switch_opcode_def set_opcode_def list_all_iff split: option.splits
      dest: map_of_SomeD)

lemma res_sat_ifI:
  "(c \<Longrightarrow> res_sat P a) \<Longrightarrow> (\<not> c \<Longrightarrow> res_sat P b) \<Longrightarrow> res_sat P (if c then a else b)"
  by simp

lemma res_sat_rv32e [intro]: "res_sat P r \<Longrightarrow> res_sat P (rv32e_check cfg fp r)"
  by (auto simp: res_sat_def rv32e_check_def split: decode_result.splits)

lemma res_sat_csr_check [intro]: "res_sat P r \<Longrightarrow> res_sat P (csr_check r)"
  by (auto simp: res_sat_def csr_check_def split: decode_result.splits)

section \<open>Register numbers\<close>

definition regs_ok :: "rv_insn \<Rightarrow> bool" where
  "regs_ok ir \<longleftrightarrow> ir_rd ir < 32 \<and> ir_rs1 ir < 32 \<and> ir_rs2 ir < 32"

lemma below_32I: "w AND 0x1F = w \<Longrightarrow> w < 32" for w :: u8
  using word_and_le1 [of w "0x1F"] by (simp add: word_less_nat_alt word_le_nat_alt)

lemma reg_field_bound: "reg_field insn k < 32"
  by (rule below_32I, rule word_eq_bits) (simp add: bitblast reg_field_def)

lemma c_reg_bound:
  "ucast (c_decode_rd w) < (32 :: u8)" "ucast (c_decode_rs1 w) < (32 :: u8)"
  "ucast (c_decode_rs2 w) < (32 :: u8)" "ucast (c_decode_rdc w OR 8) < (32 :: u8)"
  "ucast (c_decode_rs1c w OR 8) < (32 :: u8)" "ucast (c_decode_rs2c w OR 8) < (32 :: u8)"
  by (rule below_32I, rule word_eq_bits, simp add: bitblast c_field_defs mask_defs)+

lemma regs_ok_opcode [simp]: "regs_ok (ir\<lparr>ir_opcode := op\<rparr>) = regs_ok ir"
  by (simp add: regs_ok_def)

lemma regs_ok_operands:
  "regs_ok ir \<Longrightarrow> regs_ok (operands_I ir insn)"
  "regs_ok (operands_R ir insn)"
  "regs_ok ir \<Longrightarrow> regs_ok (operands_SB imm ir insn)"
  "regs_ok ir \<Longrightarrow> regs_ok (operands_UJ imm ir insn)"
  "regs_ok (set_rs3 r ir) = regs_ok ir"
  by (simp_all add: regs_ok_def operands_I_def operands_R_def operands_SB_def operands_UJ_def
      set_rs3_def reg_field_bound)

text \<open>A switch keeps a property that does not look at the opcode.\<close>

lemma res_sat_switch_regs [simp]: "regs_ok ir \<Longrightarrow> res_sat regs_ok (switch_opcode tbl k ir)"
  by (rule res_sat_switch) (simp add: list_all_iff)

lemma run_op_regs:
  assumes "regs_ok ir"
  shows "res_sat regs_ok (run_op cfg op ir insn)"
  using assms
  by (cases op)
     (simp_all add: base_op_defs format_specs regs_ok_operands Let_def
       res_sat_csr_check)

lemma run_c_op_regs:
  assumes "regs_ok ir"
  shows "res_sat regs_ok (run_c_op cfg op ir insn)"
  using assms
  by (cases op) (simp_all add: c_op_defs op_unimp_def Let_def regs_ok_def c_reg_bound)

section \<open>Opcodes\<close>

fun opcode_enabled :: "features \<Rightarrow> opcode \<Rightarrow> bool" where
  "opcode_enabled cfg (RV32I i) = True"
| "opcode_enabled cfg (RVPriv i) = (i = rv_insn_sret \<longrightarrow> SYSTEM cfg)"
| "opcode_enabled cfg (RVZifencei i) = Zifencei cfg"
| "opcode_enabled cfg (RVZicsr i) = Zicsr cfg"
| "opcode_enabled cfg (RVZba i) = Zba cfg"
| "opcode_enabled cfg (RVZbb i) = Zbb cfg"
| "opcode_enabled cfg (RVZbc i) = Zbc cfg"
| "opcode_enabled cfg (RVZbs i) = Zbs cfg"
| "opcode_enabled cfg (RV32M i) = EXT_M cfg"
| "opcode_enabled cfg (RV32A i) = EXT_A cfg"
| "opcode_enabled cfg (RV32F i) = EXT_F cfg"
| "opcode_enabled cfg (RV32C i) = EXT_C cfg"
| "opcode_enabled cfg (RV32FC i) = (EXT_C cfg \<and> EXT_F cfg)"
| "opcode_enabled cfg (Fuse i) = False"

definition insn_len :: "opcode \<Rightarrow> nat option" where
  "insn_len op = map_option attr_insn_len (insn_attr_of op)"

definition opcode_ok32 :: "features \<Rightarrow> rv_insn \<Rightarrow> bool" where
  "opcode_ok32 cfg ir \<longleftrightarrow> opcode_enabled cfg (ir_opcode ir) \<and> insn_len (ir_opcode ir) = Some 4"

definition opcode_ok16 :: "features \<Rightarrow> rv_insn \<Rightarrow> bool" where
  "opcode_ok16 cfg ir \<longleftrightarrow> opcode_enabled cfg (ir_opcode ir) \<and>
     (insn_len (ir_opcode ir) = Some 2 \<or> ir_opcode ir = RV32I rv_insn_ebreak)"

lemmas opcode_ok_defs = opcode_ok32_def opcode_ok16_def insn_len_def attr_def

lemma run_op_opcodes:
  assumes "ir_opcode ir = RV32I rv_insn_nop"
  shows "res_sat (opcode_ok32 cfg) (run_op cfg op ir insn)"
proof -
  have nop: "ir_opcode (operands_R (set_rm ir insn) insn) = RV32I rv_insn_nop"
    using assms by (simp add: operands_R_def set_rm_def)
  show ?thesis
    by (cases op; simp only: run_op.simps base_op_defs format_specs Let_def;
        (intro res_sat_ifI res_sat_csr_check res_sat_switch)?)
       (simp_all add: opcode_ok_defs nop)
qed

lemma run_c_op_opcodes:
  "EXT_C cfg \<Longrightarrow> res_sat (opcode_ok16 cfg) (run_c_op cfg op ir insn)"
  by (cases op; simp only: run_c_op.simps c_op_defs op_unimp_def Let_def; (intro res_sat_ifI)?)
     (simp_all add: opcode_ok_defs)

section \<open>The guarantees of the decoder\<close>

lemma rv_decode_sat:
  "res_sat regs_ok (rv_decode cfg ir_calloc insn)"
  "res_sat (if EXT_C cfg \<and> is_compressed insn then opcode_ok16 cfg else opcode_ok32 cfg)
     (rv_decode cfg ir_calloc insn)"
proof -
  have calloc: "regs_ok ir_calloc" "ir_opcode ir_calloc = RV32I rv_insn_nop"
    by (simp_all add: regs_ok_def ir_calloc_def)
  show "res_sat regs_ok (rv_decode cfg ir_calloc insn)"
    by (auto simp: rv_decode_def Let_def calloc intro!: res_sat_rv32e run_op_regs run_c_op_regs)
  show "res_sat (if EXT_C cfg \<and> is_compressed insn then opcode_ok16 cfg else opcode_ok32 cfg)
      (rv_decode cfg ir_calloc insn)"
    by (auto simp: rv_decode_def Let_def calloc intro!: res_sat_rv32e run_op_opcodes run_c_op_opcodes)
qed



lemma switch_not_aborted [simp]: "switch_opcode tbl k ir \<noteq> Aborted" "set_opcode op ir \<noteq> Aborted"
  by (simp_all add: switch_opcode_def set_opcode_def split: option.split)

lemma check_not_aborted [simp]:
  "csr_check r = Aborted \<longleftrightarrow> r = Aborted" "rv32e_check cfg fp r = Aborted \<longleftrightarrow> r = Aborted"
  by (cases r; simp add: csr_check_def rv32e_check_def)+

lemma run_op_not_aborted: "run_op cfg op ir insn \<noteq> Aborted"
  by (cases op) (simp_all add: base_op_defs Let_def)

lemma op_cmisc_alu_aborted:
  "op_cmisc_alu ir insn = Aborted \<longleftrightarrow> c_funct2 insn \<notin> {0, 1, 2} \<and>
     c_arith_sel insn \<notin> {0, 1, 2, 3}"
  by (simp add: op_cmisc_alu_def Let_def)

lemma run_c_op_aborted:
  "run_c_op cfg op ir insn = Aborted \<longleftrightarrow> op = OP_cmisc_alu \<and> op_cmisc_alu ir insn = Aborted"
proof (cases "op = OP_cmisc_alu")
  case False
  then show ?thesis
    by (cases op) (simp_all add: c_op_defs op_unimp_def Let_def)
qed simp

lemma word_eq_bits_iff:
  fixes x y :: "'a::len word"
  shows "x = y \<longleftrightarrow> list_all (\<lambda>n. bit x n = bit y n) [0..<LENGTH('a)]"
  using word_eq_bits by (auto simp: list_all_iff)

lemma cmisc_alu_index:
  "rvc_jump_table ! unat (c_index insn) = OP_cmisc_alu \<longleftrightarrow> c_index insn = 0x11"
proof -
  have "rvc_jump_table ! n = OP_cmisc_alu \<longleftrightarrow> n = 0x11" if "n < 32" for n
  proof -
    have "list_all (\<lambda>n. rvc_jump_table ! n = OP_cmisc_alu \<longleftrightarrow> n = 0x11) [0..<32]"
      by (simp add: upt_32 rvc_jump_table_def)
    then show ?thesis using that by (simp add: list_all_iff)
  qed
  moreover have "unat (c_index insn) < 32"
    using c_index_bound [of insn] by (simp add: rvc_jump_table_def)
  moreover have "unat (c_index insn) = 0x11 \<longleftrightarrow> c_index insn = 0x11"
    by (simp add: word_unat_eq_iff)
  ultimately show ?thesis by simp
qed

lemma cmisc_alu_abort_bits:
  "c_index (insn AND 0xFFFF) = 0x11 \<and> op_cmisc_alu ir (insn AND 0xFFFF) = Aborted \<longleftrightarrow>
   insn AND 0xFC03 = 0x9C01"
  unfolding op_cmisc_alu_aborted c_funct2_def c_arith_sel_def insert_iff empty_iff word_eq_bits_iff
  by (simp add: bitblast c_index_def mask_defs) blast

text \<open>C7. Decoding ends the process in a failed assertion exactly on the 16-bit encodings of
  the C extension with bits 15..10 equal to 100111 and opcode 01, that is
  \<^verbatim>\<open>C.SUBW\<close>, \<^verbatim>\<open>C.ADDW\<close> and the two reserved encodings next
  to them; every other word is either decoded or reported as illegal.\<close>

theorem rv_decode_aborted:
  "rv_decode cfg ir insn = Aborted \<longleftrightarrow> EXT_C cfg \<and> insn AND 0xFC03 = 0x9C01"
proof -
  have "is_compressed insn" if "insn AND 0xFC03 = 0x9C01"
  proof -
    have "insn AND 3 = (insn AND 0xFC03) AND 3" by (simp add: and.assoc)
    then show ?thesis by (simp add: that is_compressed_def mask_defs)
  qed
  then show ?thesis
    by (auto simp: rv_decode_def Let_def run_op_not_aborted run_c_op_aborted cmisc_alu_index
        simp flip: cmisc_alu_abort_bits [of _ ir])
qed

section \<open>RV32E\<close>



text \<open>The check does not look at the base register of a floating-point load: FLW f1, 0(x17) is
  accepted although x17 is not a register of RV32E.\<close>

lemma rv32e_flw_x17:
  "rv_decode (default_features\<lparr>RV32E := True\<rparr>) ir_calloc 0x0008A087 =
   Decoded (ir_calloc\<lparr>ir_rs1 := 17, ir_rd := 1, ir_opcode := RV32F rv_insn_flw\<rparr>)"
  by (simp add: rv_decode_def default_features_def is_compressed_def op_index_def mask_defs
      rv_jump_table_def op_load_fp_def format_defs field_defs set_opcode_def rv32e_check_def
      ir_calloc_def)

end
