(* ===== verification/RV_Constopt_Sound.thy ===== *)
theory RV_Constopt_Sound
  imports RV_Constopt RV_Decode_Wf
begin

text \<open>
  Constant propagation preserves the effect of a block on the hart. The knowledge of the pass is an
  abstract register file: it \<^emph>\<open>approximates\<close> a hart when every register it takes for
  constant holds the recorded value.
\<close>

unbundle bit_operations_syntax

section \<open>Knowledge and blocks\<close>

definition approx :: "constopt_info \<Rightarrow> riscv \<Rightarrow> bool" where
  "approx info rv \<longleftrightarrow> (\<forall>r. is_constant info r \<longrightarrow> X rv r = const_val info r) \<and>
     (is_constant info 0 \<longrightarrow> const_val info 0 = 0)"

definition is_cond_branch :: "opcode \<Rightarrow> bool" where
  "is_cond_branch op \<longleftrightarrow> op \<in> {RV32I rv_insn_beq, RV32I rv_insn_bne, RV32I rv_insn_blt,
     RV32I rv_insn_bge, RV32I rv_insn_bltu, RV32I rv_insn_bgeu}"

text \<open>
  What the pass relies on: the IR is fresh (no chained targets, not fused), a conditional branch has
  no destination, only \<^verbatim>\<open>nop\<close> and the loads may name \<^verbatim>\<open>x0\<close> as their
  destination, and \<^verbatim>\<open>sc.w\<close> writes its result to no other register.
\<close>

definition constopt_ok :: "rv_insn \<Rightarrow> bool" where
  "constopt_ok ir \<longleftrightarrow>
     ir_branch_taken ir = None \<and> ir_branch_untaken ir = None \<and>
     insn_attr_of (ir_opcode ir) \<noteq> None \<and>
     (is_cond_branch (ir_opcode ir) \<longrightarrow> ir_rd ir = 0) \<and>
     (ir_opcode ir = RV32A rv_insn_scw \<longrightarrow> ir_rd ir = 0) \<and>
     (x_dest ir = Some 0 \<longrightarrow> ir_opcode ir \<in> {RV32I rv_insn_nop, RV32I rv_insn_lb, RV32I rv_insn_lh,
        RV32I rv_insn_lw, RV32I rv_insn_lbu, RV32I rv_insn_lhu, RV32A rv_insn_scw})"

text \<open>A block as translation builds it: consecutive addresses, and a branch only at the end.\<close>

fun block_ok :: "u32 \<Rightarrow> rv_insn list \<Rightarrow> bool" where
  "block_ok pc [] \<longleftrightarrow> True"
| "block_ok pc (ir # irs) \<longleftrightarrow> ir_pc ir = pc \<and> constopt_ok ir \<and>
     (irs \<noteq> [] \<longrightarrow> \<not> insn_is_branch (ir_opcode ir)) \<and> block_ok (pc + ir_len ir) irs"

section \<open>Soundness of a rewrite\<close>

definition final :: "outcome \<Rightarrow> outcome" where
  "final r = (case r of Nextop c \<Rightarrow> finish c | s \<Rightarrow> s)"

definition sound_last :: "rv_insn \<Rightarrow> constopt_info \<Rightarrow> rv_insn \<Rightarrow> bool" where
  "sound_last ir info ir' \<longleftrightarrow> (\<forall>E c. approx info (c_rv c) \<longrightarrow> c_pc c = ir_pc ir \<longrightarrow>
     refines (final (impl E ir c)) (final (impl E ir' c)))"

definition sound :: "rv_insn \<Rightarrow> constopt_info \<Rightarrow> rv_insn \<Rightarrow> constopt_info \<Rightarrow> bool" where
  "sound ir info ir' info' \<longleftrightarrow> (\<forall>E c. approx info (c_rv c) \<longrightarrow> c_pc c = ir_pc ir \<longrightarrow>
     refines (impl E ir c) (impl E ir' c) \<and>
     (\<forall>c'. impl E ir c = Nextop c' \<longrightarrow> approx info' (c_rv c')))"

lemma refines_final: "refines r s \<Longrightarrow> refines (final r) (final s)"
proof (cases r)
  case (Nextop c)
  assume "refines r s"
  with Nextop obtain d where "s = Nextop d" "erase_ctx c = erase_ctx d"
    by (cases s) (auto simp: refines_def)
  with Nextop erase_finish [of c d] show ?thesis by (simp add: final_def refines_def)
qed (cases s; simp add: final_def refines_def finish_def)+

lemma sound_imp_sound_last: "sound ir info ir' info' \<Longrightarrow> sound_last ir info ir'"
  by (simp add: sound_def sound_last_def refines_final)

lemma approx_frame: "approx info rv \<Longrightarrow> x_frame None rv rv' \<Longrightarrow> approx info rv'"
  unfolding approx_def x_frame_def by auto

lemma approx_kill: "approx info rv \<Longrightarrow> x_frame (Some r) rv rv' \<Longrightarrow> approx (kill r info) rv'"
  unfolding approx_def x_frame_def kill_def by auto

lemma approx_set_const:
  "approx info rv \<Longrightarrow> r \<noteq> 0 \<Longrightarrow> approx (set_const r v info) (set_X r v rv)"
  by (auto simp: approx_def set_const_def set_X_def)

text \<open>An instruction that is kept, with the knowledge kept or its destination forgotten.\<close>

lemma sound_keep:
  assumes "insn_attr_of (ir_opcode ir) \<noteq> None" "x_dest ir = None"
  shows "sound ir info ir info"
proof -
  from assms(1) obtain a where a: "insn_attr_of (ir_opcode ir) = Some a" by blast
  show ?thesis
    unfolding sound_def
    using approx_frame [of info] impl_Nextop(1) [OF _ a] by (auto simp: assms(2))
qed

lemma sound_kill:
  assumes "insn_attr_of (ir_opcode ir) \<noteq> None" "x_dest ir = Some r"
  shows "sound ir info ir (kill r info)"
proof -
  from assms(1) obtain a where a: "insn_attr_of (ir_opcode ir) = Some a" by blast
  show ?thesis
    unfolding sound_def
    using approx_kill [of info _ r] impl_Nextop(1) [OF _ a] assms(2) by (auto simp: assms(2))
qed

lemma approx_kill_weaken: "approx info rv \<Longrightarrow> approx (kill r info) rv"
  by (auto simp: approx_def kill_def)

lemma sound_kill_none:
  "insn_attr_of (ir_opcode ir) \<noteq> None \<Longrightarrow> x_dest ir = None \<Longrightarrow> sound ir info ir (kill r info)"
  using sound_keep [of ir info] approx_kill_weaken [of info] unfolding sound_def by blast

text \<open>An instruction replaced by one that loads the constant it computes.\<close>

lemma sound_const:
  assumes "insn_attr_of (ir_opcode ir) = Some (attr b n t m)"
    and "insn_attr_of (ir_opcode ir') = Some (attr b' n t' m')" "r \<noteq> 0"
    and body': "\<And>E c. op_body (ir_opcode ir') E ir' c = alu (set_X r v) c"
    and body: "\<And>E (c::ctx). approx info (c_rv c) \<Longrightarrow> c_pc c = ir_pc ir \<Longrightarrow>
      op_body (ir_opcode ir) E ir c = alu (set_X r v) c \<or> op_body (ir_opcode ir) E ir c = Undef"
  shows "sound ir info ir' (set_const r v info)"
  unfolding sound_def
proof (intro allI impI conjI)
  fix E and c :: ctx assume ap: "approx info (c_rv c)" and pc: "c_pc c = ir_pc ir"
  let ?b = "op_body (ir_opcode ir) E ir (rvop_enter ir c)"
  have b: "?b = alu (set_X r v) (rvop_enter ir c) \<or> ?b = Undef"
    using body [of "rvop_enter ir c" E] ap pc by simp
  have "erase_ctx (rvop_enter ir c) = erase_ctx (rvop_enter ir' c)"
    by (simp add: erase_rvop_enter)
  with b show "refines (impl E ir c) (impl E ir' c)"
    by (auto simp: impl_def assms(1,2) rvop_def body' refines_def alu_def attr_def)
  fix c' assume "impl E ir c = Nextop c'"
  with b have "c_rv c' = set_X r v (c_rv c)"
    by (auto simp: impl_def assms(1) rvop_def alu_def)
  with ap assms(3) show "approx (set_const r v info) (c_rv c')"
    by (simp add: approx_set_const)
qed

lemma approxD: "approx info rv \<Longrightarrow> is_constant info r \<Longrightarrow> X rv r = const_val info r"
  by (simp add: approx_def)

lemma sound_opt_imm:
  assumes "opt_imm f ir info = Some (ir', info')"
    and "insn_attr_of (ir_opcode ir) = Some (attr b 4 t m)"
    and "x_dest ir = Some (ir_rd ir)" "ir_rd ir \<noteq> 0"
    and body: "\<And>E c. op_body (ir_opcode ir) E ir c =
      alu (\<lambda>rv. set_X (ir_rd ir) (f (X rv (ir_rs1 ir)) (ir_imm ir)) rv) c"
  shows "sound ir info ir' info'"
proof (cases "is_constant info (ir_rs1 ir)")
  case True
  with assms(1) have eq: "ir' = to_lui (f (const_val info (ir_rs1 ir)) (ir_imm ir)) ir"
    "info' = set_const (ir_rd ir) (f (const_val info (ir_rs1 ir)) (ir_imm ir)) info"
    by (simp_all add: opt_imm_def Let_def)
  show ?thesis
    unfolding eq(2)
    by (rule sound_const [OF assms(2)])
      (simp_all add: eq to_lui_def assms alu_def do_lui_def approxD [OF _ True])
next
  case False
  then have "ir' = ir" "info' = kill (ir_rd ir) info"
    using assms(1) by (auto simp: opt_imm_def)
  with sound_kill [of ir "ir_rd ir" info] assms(2,3) show ?thesis by simp
qed

lemma sound_opt_reg:
  assumes "opt_reg f ir info = Some (ir', info')"
    and "insn_attr_of (ir_opcode ir) = Some (attr b 4 t m)"
    and "x_dest ir = Some (ir_rd ir)" "ir_rd ir \<noteq> 0"
    and body: "\<And>E c. op_body (ir_opcode ir) E ir c =
      alu (\<lambda>rv. set_X (ir_rd ir) (f (X rv (ir_rs1 ir)) (X rv (ir_rs2 ir))) rv) c"
  shows "sound ir info ir' info'"
proof (cases "is_constant info (ir_rs1 ir) \<and> is_constant info (ir_rs2 ir)")
  case True
  let ?v = "f (const_val info (ir_rs1 ir)) (const_val info (ir_rs2 ir))"
  from True assms(1) have eq: "ir' = to_lui ?v ir" "info' = set_const (ir_rd ir) ?v info"
    by (simp_all add: opt_reg_def Let_def)
  show ?thesis
    unfolding eq(2)
    by (rule sound_const [OF assms(2)])
      (simp_all add: eq to_lui_def assms alu_def do_lui_def approxD [of info] True)
next
  case False
  then have "ir' = ir" "info' = kill (ir_rd ir) info"
    using assms(1) by (auto simp: opt_reg_def)
  with sound_kill [of ir "ir_rd ir" info] assms(2,3) show ?thesis by simp
qed

lemma do_clui_fun: "do_clui ir = set_X (ir_rd ir) (ir_imm ir)"
  by (rule ext) (simp add: do_clui_def)

lemma sound_to_clui:
  assumes "insn_attr_of (ir_opcode ir) = Some (attr b 2 t m)" "r \<noteq> 0"
    and "\<And>E (c::ctx). approx info (c_rv c) \<Longrightarrow>
      op_body (ir_opcode ir) E ir c = alu (set_X r v) c \<or> op_body (ir_opcode ir) E ir c = Undef"
  shows "sound ir info (fst (to_clui r v ir info)) (snd (to_clui r v ir info))"
  unfolding to_clui_def fst_conv snd_conv
  by (rule sound_const [OF assms(1)])
    (simp_all add: assms do_clui_fun)

lemma sound_opt_creg:
  assumes "opt_creg f ir info = Some (ir', info')"
    and "insn_attr_of (ir_opcode ir) = Some (attr b 2 t m)"
    and "x_dest ir = Some (ir_rd ir)" "ir_rd ir \<noteq> 0"
    and "\<And>E c. op_body (ir_opcode ir) E ir c =
      alu (\<lambda>rv. set_X (ir_rd ir) (f (X rv (ir_rs1 ir)) (X rv (ir_rs2 ir))) rv) c"
  shows "sound ir info ir' info'"
proof (cases "is_constant info (ir_rs1 ir) \<and> is_constant info (ir_rs2 ir)")
  case True
  let ?v = "f (const_val info (ir_rs1 ir)) (const_val info (ir_rs2 ir))"
  have "sound ir info (fst (to_clui (ir_rd ir) ?v ir info)) (snd (to_clui (ir_rd ir) ?v ir info))"
    by (rule sound_to_clui [OF assms(2,4)]) (simp add: assms(5) alu_def approxD [of info] True)
  with True assms(1) show ?thesis by (simp add: opt_creg_def)
next
  case False
  then have "ir' = ir" "info' = kill (ir_rd ir) info"
    using assms(1) by (auto simp: opt_creg_def)
  with sound_kill [of ir "ir_rd ir" info] assms(2,3) show ?thesis by simp
qed

text \<open>An update in place keeps the knowledge when the register is not constant.\<close>

lemma sound_unknown:
  assumes "insn_attr_of (ir_opcode ir) \<noteq> None" "x_dest ir = Some r" "\<not> is_constant info r"
  shows "sound ir info ir info"
proof -
  have "info = kill r info"
    using assms(3) by (simp add: kill_def fun_upd_idem)
  with sound_kill [OF assms(1,2), of info] show ?thesis by simp
qed

lemma sound_opt_update:
  assumes "opt_update r f ir info = Some (ir', info')"
    and "insn_attr_of (ir_opcode ir) = Some (attr b 2 t m)"
    and "x_dest ir = Some r" "r \<noteq> 0"
    and "\<And>E c. is_constant info r \<Longrightarrow>
      op_body (ir_opcode ir) E ir c = alu (\<lambda>rv. set_X r (f (X rv r)) rv) c"
  shows "sound ir info ir' info'"
proof (cases "is_constant info r")
  case True
  have "sound ir info (fst (to_clui r (f (const_val info r)) ir info)) (snd (to_clui r (f (const_val info r)) ir info))"
    by (rule sound_to_clui [OF assms(2,4)]) (simp add: assms(5) alu_def approxD [OF _ True] True)
  with True assms(1) show ?thesis by (simp add: opt_update_def)
next
  case False
  then have "ir' = ir" "info' = info"
    using assms(1) by (auto simp: opt_update_def)
  with sound_unknown [of ir r info] assms(2,3) False show ?thesis by simp
qed

lemma sound_no_next: "(\<And>E c c'. impl E ir c \<noteq> Nextop c') \<Longrightarrow> sound ir info ir info'"
  by (simp add: sound_def)

text \<open>A decided branch, at the end of a block.\<close>

lemma sound_last_branch:
  assumes "opt_branch_func ft ir info = Some (ir', info')" "constopt_ok ir" "ir_rd ir = 0"
    and "insn_attr_of (ir_opcode ir) = Some (attr b 4 t m)"
    and body: "\<And>E c. op_body (ir_opcode ir) E ir c =
      branch_func (ft (X (c_rv c) (ir_rs1 ir)) (X (c_rv c) (ir_rs2 ir))) ir c"
  shows "sound_last ir info ir'"
proof (cases "is_constant info (ir_rs1 ir) \<and> is_constant info (ir_rs2 ir)")
  case True
  then show ?thesis
    using assms(1,2) unfolding sound_last_def
    by (auto simp: opt_branch_func_def Let_def impl_def rvop_def body assms(3,4) attr_def do_jal_def
      branch_func_def constopt_ok_def final_def finish_def refines_def approxD [of info] split: if_splits)
next
  case False
  with assms(1) have "ir' = ir" by (auto simp: opt_branch_func_def)
  then show ?thesis by (simp add: sound_last_def)
qed

lemma sound_last_cbranch:
  assumes "opt_cbranch ft ir info = Some (ir', info')" "constopt_ok ir"
    and "insn_attr_of (ir_opcode ir) = Some (attr b 2 t m)"
    and body: "\<And>E c. op_body (ir_opcode ir) E ir c = cbranch (ft (X (c_rv c) (ir_rs1 ir))) ir c"
  shows "sound_last ir info ir'"
proof (cases "is_constant info (ir_rs1 ir)")
  case True
  then show ?thesis
    using assms(1,2) unfolding sound_last_def
    by (auto simp: opt_cbranch_def Let_def impl_def rvop_def body assms(3) attr_def do_cj_def
      cbranch_def constopt_ok_def final_def finish_def refines_def approxD [of info] split: if_splits)
next
  case False
  with assms(1) have "ir' = ir" by (auto simp: opt_cbranch_def)
  then show ?thesis by (simp add: sound_last_def)
qed

lemmas constopt_defs = constopt_lui_def constopt_auipc_def constopt_jal_def constopt_jalr_def
  constopt_beq_def constopt_bne_def constopt_blt_def constopt_bge_def constopt_bltu_def
  constopt_bgeu_def constopt_addi_def
  constopt_slti_def constopt_sltiu_def constopt_xori_def constopt_ori_def constopt_andi_def
  constopt_slli_def constopt_srli_def constopt_srai_def constopt_add_def constopt_sub_def
  constopt_sll_def constopt_slt_def constopt_sltu_def constopt_xor_def constopt_srl_def
  constopt_sra_def constopt_or_def constopt_and_def constopt_mul_def
  constopt_mulh_def constopt_mulhsu_def constopt_mulhu_def constopt_div_def constopt_divu_def
  constopt_rem_def constopt_remu_def
  constopt_caddi4spn_def constopt_caddi_def
  constopt_cjal_def constopt_cli_def constopt_caddi16sp_def constopt_clui_def constopt_csrli_def
  constopt_csrai_def constopt_candi_def constopt_csub_def constopt_cxor_def constopt_cor_def
  constopt_cand_def constopt_cbeqz_def constopt_cbnez_def constopt_cslli_def constopt_cmv_def constopt_cjalr_def
  constopt_cadd_def

section \<open>Every instruction\<close>

lemmas opt_defs = opt_keep_def opt_kill_def opt_kill_nz_def

lemma sound_jumps:
  "ir_opcode ir = RV32I rv_insn_jal \<Longrightarrow> sound ir info ir info'"
  "ir_opcode ir = RV32I rv_insn_jalr \<Longrightarrow> sound ir info ir info'"
  "ir_opcode ir = RV32C rv_insn_cjal \<Longrightarrow> sound ir info ir info'"
  "ir_opcode ir = RV32C rv_insn_cjalr \<Longrightarrow> sound ir info ir info'"
  by (rule sound_no_next; simp add: impl_def rvop_def do_jal_def do_jalr_def do_cjal_def do_cjalr_def
    Let_def finish_def)+

lemma sound_load_const:
  "ir_opcode ir = RV32I rv_insn_lui \<Longrightarrow> ir_rd ir \<noteq> 0 \<Longrightarrow>
     sound ir info ir (set_const (ir_rd ir) (ir_imm ir) info)"
  "ir_opcode ir = RV32I rv_insn_auipc \<Longrightarrow> ir_rd ir \<noteq> 0 \<Longrightarrow>
     sound ir info (to_lui (ir_imm ir + ir_pc ir) ir) (set_const (ir_rd ir) (ir_imm ir + ir_pc ir) info)"
  "ir_opcode ir = RV32C rv_insn_cli \<Longrightarrow> ir_rd ir \<noteq> 0 \<Longrightarrow>
     sound ir info ir (set_const (ir_rd ir) (ir_imm ir) info)"
  "ir_opcode ir = RV32C rv_insn_clui \<Longrightarrow> ir_rd ir \<noteq> 0 \<Longrightarrow>
     sound ir info ir (set_const (ir_rd ir) (ir_imm ir) info)"
  by (rule sound_const; simp add: to_lui_def alu_def do_lui_def do_auipc_def do_cli_def do_clui_def
    write_X_def)+

lemma approx_X0: "approx info rv \<Longrightarrow> x_frame (Some 0) rv rv' \<Longrightarrow> X rv' 0 = 0 \<Longrightarrow> approx info rv'"
  unfolding approx_def x_frame_def by (metis option.inject)

lemma sound_X0:
  assumes "insn_attr_of (ir_opcode ir) \<noteq> None" "x_dest ir = Some 0"
    and "\<And>E c c'. impl E ir c = Nextop c' \<Longrightarrow> X (c_rv c') 0 = 0"
  shows "sound ir info ir info"
proof -
  from assms(1) obtain a where a: "insn_attr_of (ir_opcode ir) = Some a" by blast
  show ?thesis
    unfolding sound_def
    using approx_X0 [of info] impl_Nextop(1) [OF _ a] assms(3) by (auto simp: assms(2))
qed

lemma sound_nop: "ir_opcode ir = RV32I rv_insn_nop \<Longrightarrow> sound ir info ir info"
  by (rule sound_X0) (auto simp: x_dest_def impl_def rvop_def alu_def do_nop_def set_X_def)

lemma sound_scw: "ir_opcode ir = RV32A rv_insn_scw \<Longrightarrow> ir_rd ir = 0 \<Longrightarrow> sound ir info ir info"
  by (rule sound_X0)
    (auto simp: x_dest_def impl_def rvop_def do_scw_def exec_defs Let_def set_X_def split: if_splits option.splits)

lemmas sound_simps = sound_keep sound_kill sound_kill_none sound_jumps sound_load_const sound_nop sound_scw

lemma sound_rv32i:
  assumes "ir_opcode ir = RV32I i" "constopt_ok ir" "\<not> is_cond_branch (RV32I i)"
    and "rv32i_constopt i ir info = Some (ir', info')"
  shows "sound ir info ir' info'"
  using assms
  by (cases i; simp only: rv32i_constopt.simps constopt_defs; (elim sound_opt_imm sound_opt_reg)?)
    (simp_all add: opt_defs Let_def sound_simps x_dest_def constopt_ok_def is_cond_branch_def alu_def
       from_option_def shift_func_def template_defs ac_simps,
     auto simp: sound_simps x_dest_def)

lemma sound_rvpriv:
  "ir_opcode ir = RVPriv i \<Longrightarrow> constopt_ok ir \<Longrightarrow> rvpriv_constopt i ir info = Some (ir', info') \<Longrightarrow>
   sound ir info ir' info'"
  by (cases i) (auto simp: constopt_defs opt_defs sound_simps x_dest_def constopt_ok_def nz_def)

lemma sound_rvzifencei:
  "ir_opcode ir = RVZifencei i \<Longrightarrow> constopt_ok ir \<Longrightarrow> rvzifencei_constopt i ir info = Some (ir', info') \<Longrightarrow>
   sound ir info ir' info'"
  by (cases i) (auto simp: constopt_defs opt_defs sound_simps x_dest_def constopt_ok_def nz_def)

lemma sound_kill_nz:
  "insn_attr_of (ir_opcode ir) \<noteq> None \<Longrightarrow> x_dest ir = nz r \<Longrightarrow> sound ir info ir (kill r info)"
  by (cases "r = 0") (simp_all add: nz_def sound_kill sound_kill_none)

lemma sound_rvzicsr:
  "ir_opcode ir = RVZicsr i \<Longrightarrow> constopt_ok ir \<Longrightarrow> rvzicsr_constopt i ir info = Some (ir', info') \<Longrightarrow>
   sound ir info ir' info'"
  by (cases i) (auto simp: constopt_defs opt_defs sound_kill_nz x_dest_def constopt_ok_def)

lemma sound_rvzba:
  "ir_opcode ir = RVZba i \<Longrightarrow> constopt_ok ir \<Longrightarrow> rvzba_constopt i ir info = Some (ir', info') \<Longrightarrow>
   sound ir info ir' info'"
  by (cases i) (auto simp: constopt_defs opt_defs sound_simps x_dest_def constopt_ok_def nz_def)

lemma sound_rvzbb:
  "ir_opcode ir = RVZbb i \<Longrightarrow> constopt_ok ir \<Longrightarrow> rvzbb_constopt i ir info = Some (ir', info') \<Longrightarrow>
   sound ir info ir' info'"
  by (cases i) (auto simp: constopt_defs opt_defs sound_simps x_dest_def constopt_ok_def nz_def)

lemma sound_rvzbc:
  "ir_opcode ir = RVZbc i \<Longrightarrow> constopt_ok ir \<Longrightarrow> rvzbc_constopt i ir info = Some (ir', info') \<Longrightarrow>
   sound ir info ir' info'"
  by (cases i) (auto simp: constopt_defs opt_defs sound_simps x_dest_def constopt_ok_def nz_def)

lemma sound_rvzbs:
  "ir_opcode ir = RVZbs i \<Longrightarrow> constopt_ok ir \<Longrightarrow> rvzbs_constopt i ir info = Some (ir', info') \<Longrightarrow>
   sound ir info ir' info'"
  by (cases i) (auto simp: constopt_defs opt_defs sound_simps x_dest_def constopt_ok_def nz_def)

lemma sound_rv32m:
  assumes "ir_opcode ir = RV32M i" "constopt_ok ir" "rv32m_constopt i ir info = Some (ir', info')"
  shows "sound ir info ir' info'"
  using assms
  by (cases i; simp only: rv32m_constopt.simps constopt_defs split: if_splits; (elim sound_opt_reg)?)
    (simp_all add: x_dest_def constopt_ok_def alu_def template_defs)

lemma sound_rv32a:
  "ir_opcode ir = RV32A i \<Longrightarrow> constopt_ok ir \<Longrightarrow> rv32a_constopt i ir info = Some (ir', info') \<Longrightarrow>
   sound ir info ir' info'"
  by (cases i) (auto simp: constopt_defs opt_defs sound_simps x_dest_def constopt_ok_def nz_def)

lemma sound_rv32f:
  "ir_opcode ir = RV32F i \<Longrightarrow> constopt_ok ir \<Longrightarrow> rv32f_constopt i ir info = Some (ir', info') \<Longrightarrow>
   sound ir info ir' info'"
  by (cases i) (auto simp: constopt_defs opt_defs sound_simps x_dest_def constopt_ok_def nz_def)

lemma sound_rv32fc:
  "ir_opcode ir = RV32FC i \<Longrightarrow> constopt_ok ir \<Longrightarrow> rv32fc_constopt i ir info = Some (ir', info') \<Longrightarrow>
   sound ir info ir' info'"
  by (cases i) (auto simp: constopt_defs opt_defs sound_simps x_dest_def constopt_ok_def nz_def)

lemma sound_caddi4spn:
  assumes "ir_opcode ir = RV32C rv_insn_caddi4spn" "ir_rd ir \<noteq> 0"
    and "constopt_caddi4spn ir info = Some (ir', info')"
  shows "sound ir info ir' info'"
proof (cases "is_constant info rv_reg_sp")
  case True
  let ?v = "const_val info rv_reg_sp + ucast (ucast (ir_imm ir) :: u16)"
  have "sound ir info (fst (to_clui (ir_rd ir) ?v ir info)) (snd (to_clui (ir_rd ir) ?v ir info))"
    by (rule sound_to_clui) (simp_all add: assms do_caddi4spn_def alu_def approxD [OF _ True])
  with True assms(3) show ?thesis by (simp add: constopt_caddi4spn_def)
qed (use assms in \<open>auto simp: constopt_caddi4spn_def sound_kill x_dest_def\<close>)

lemma sound_cmv:
  assumes "ir_opcode ir = RV32C rv_insn_cmv" "ir_rd ir \<noteq> 0" "constopt_cmv ir info = Some (ir', info')"
  shows "sound ir info ir' info'"
proof (cases "is_constant info (ir_rs2 ir)")
  case True
  let ?v = "const_val info (ir_rs2 ir)"
  have "sound ir info (fst (to_clui (ir_rd ir) ?v ir info)) (snd (to_clui (ir_rd ir) ?v ir info))"
    by (rule sound_to_clui) (simp_all add: assms do_cmv_def alu_def approxD [OF _ True])
  with True assms(3) show ?thesis by (simp add: constopt_cmv_def)
qed (use assms in \<open>auto simp: constopt_cmv_def sound_kill x_dest_def\<close>)

lemma sound_rv32c:
  assumes "ir_opcode ir = RV32C i" "constopt_ok ir" "i \<notin> {rv_insn_cbeqz, rv_insn_cbnez}"
    and "rv32c_constopt i ir info = Some (ir', info')"
  shows "sound ir info ir' info'"
proof (cases "i = rv_insn_caddi4spn \<or> i = rv_insn_cmv")
  case True
  with assms sound_caddi4spn [of ir info] sound_cmv [of ir info] show ?thesis
    by (auto simp: constopt_ok_def x_dest_def)
next
  case False
  with assms show ?thesis
    by (cases i; simp only: rv32c_constopt.simps constopt_defs Let_def split: if_splits;
        (elim sound_opt_update sound_opt_creg)?)
      (simp_all add: opt_defs sound_simps x_dest_def constopt_ok_def alu_def write_X_def template_defs Let_def,
       auto simp: sound_simps x_dest_def)
qed

section \<open>Soundness of the pass\<close>

lemma constopt_sound:
  assumes "constopt_ok ir" "\<not> is_cond_branch (ir_opcode ir)"
    and "ir_opcode ir \<notin> {RV32C rv_insn_cbeqz, RV32C rv_insn_cbnez}"
    and "constopt ir info = Some (ir', info')"
  shows "sound ir info ir' info'"
  using assms
  by (cases "ir_opcode ir")
    (auto simp: constopt_ok_def intro: sound_rv32i sound_rvpriv sound_rvzifencei sound_rvzicsr sound_rvzba
      sound_rvzbb sound_rvzbc sound_rvzbs sound_rv32m sound_rv32a sound_rv32f sound_rv32fc sound_rv32c)

lemma cond_branch_is_branch:
  "is_cond_branch op \<or> op \<in> {RV32C rv_insn_cbeqz, RV32C rv_insn_cbnez} \<Longrightarrow> insn_is_branch op"
  by (auto simp: is_cond_branch_def insn_is_branch_def attr_def)

lemma sound_last_cond_branch:
  assumes "constopt_ok ir" "constopt ir info = Some (ir', info')"
    and "is_cond_branch (ir_opcode ir) \<or> ir_opcode ir \<in> {RV32C rv_insn_cbeqz, RV32C rv_insn_cbnez}"
  shows "sound_last ir info ir'"
proof -
  have rd: "is_cond_branch (ir_opcode ir) \<Longrightarrow> ir_rd ir = 0"
    using assms(1) by (simp add: constopt_ok_def)
  from assms(3,2) show ?thesis
    unfolding is_cond_branch_def insert_iff empty_iff
    by (elim disjE; simp only: simp_thms constopt.simps opcode.case rv32i_constopt.simps rv32c_constopt.simps constopt_defs)
      ((erule sound_last_branch [OF _ assms(1) rd] sound_last_cbranch [OF _ assms(1)];
        simp add: is_cond_branch_def do_beq_def do_bne_def do_blt_def do_bge_def do_bltu_def do_bgeu_def
          do_cbeqz_def do_cbnez_def)+)
qed

lemma constopt_sound_last:
  "constopt_ok ir \<Longrightarrow> constopt ir info = Some (ir', info') \<Longrightarrow> sound_last ir info ir'"
  using sound_last_cond_branch [of ir info ir' info'] constopt_sound [of ir info ir' info']
    sound_imp_sound_last [of ir info ir' info']
  by blast

lemma exec_cong_refines:
  assumes "refines (impl E ir c) (impl E ir' c)"
    and "\<And>c'. impl E ir c = Nextop c' \<Longrightarrow> refines (exec E irs c') (exec E irs' c')"
  shows "refines (exec E (ir # irs) c) (exec E (ir' # irs') c)"
proof (cases "impl E ir c")
  case (Nextop c')
  with assms(1) obtain d where d: "impl E ir' c = Nextop d" "erase_ctx c' = erase_ctx d"
    by (cases "impl E ir' c") (auto simp: refines_def)
  have "refines (exec E irs' c') (exec E irs' d)"
    unfolding refines_def using em_exec [OF d(2)] by blast
  with assms(2) [OF Nextop] refines_trans show ?thesis by (auto simp: Nextop d(1))
qed (use assms(1) in \<open>cases "impl E ir' c"; simp add: refines_def\<close>)+

lemma exec_single: "exec E [ir] c = final (impl E ir c)"
  by (simp add: final_def split: outcome.splits)

lemma constopt_loop_sound:
  "block_ok (c_pc c) irs \<Longrightarrow> approx info (c_rv c) \<Longrightarrow> constopt_loop irs info = Some irs' \<Longrightarrow>
   refines (exec E irs c) (exec E irs' c)"
proof (induction irs arbitrary: c info irs')
  case (Cons ir irs)
  from Cons.prems(3) obtain ir' info' irs'' where
    ir': "constopt ir info = Some (ir', info')" "constopt_loop irs info' = Some irs''" "irs' = ir' # irs''"
    by (auto split: option.splits)
  from Cons.prems(1) have ok: "ir_pc ir = c_pc c" "constopt_ok ir" by simp_all
  show ?case
  proof (cases "irs = []")
    case True
    from constopt_sound_last [OF ok(2) ir'(1)] Cons.prems(2) ok(1)
    show ?thesis unfolding True sound_last_def using ir'(2,3) True by (simp del: exec.simps add: exec_single)
  next
    case False
    with Cons.prems(1) have nb: "\<not> insn_is_branch (ir_opcode ir)" by simp
    then have s: "sound ir info ir' info'"
      using constopt_sound [OF ok(2) _ _ ir'(1)] cond_branch_is_branch by blast
    then have r: "refines (impl E ir c) (impl E ir' c)"
      using Cons.prems(2) ok(1) unfolding sound_def by simp
    show ?thesis
      unfolding ir'(3)
    proof (rule exec_cong_refines [OF r])
      fix c'
      assume c': "impl E ir c = Nextop c'"
      from ok(2) obtain a where a: "insn_attr_of (ir_opcode ir) = Some a"
        by (auto simp: constopt_ok_def)
      from impl_Nextop(3) [OF c' a] Cons.prems(1) have "block_ok (c_pc c') irs"
        by (simp add: ir_len_def a)
      moreover from s c' Cons.prems(2) ok(1) have "approx info' (c_rv c')"
        unfolding sound_def by simp
      ultimately show "refines (exec E irs c') (exec E irs'' c')"
        by (rule Cons.IH) (rule ir'(2))
    qed
  qed
qed simp

lemma approx_init: "X rv 0 = 0 \<Longrightarrow> approx constopt_init rv"
  by (simp add: approx_def constopt_init_def)

section \<open>What the decoder delivers\<close>

text \<open>A decoded instruction: no chained targets, and only a few opcodes with destination
  \<^verbatim>\<open>x0\<close>.\<close>

definition fresh :: "rv_insn \<Rightarrow> bool" where
  "fresh ir \<longleftrightarrow> insn_attr_of (ir_opcode ir) \<noteq> None \<and> ir_branch_taken ir = None \<and> ir_branch_untaken ir = None \<and>
     (is_cond_branch (ir_opcode ir) \<longrightarrow> ir_rd ir = 0) \<and>
     (x_dest ir = Some 0 \<longrightarrow> ir_opcode ir \<in> {RV32I rv_insn_nop, RV32I rv_insn_lb, RV32I rv_insn_lh,
        RV32I rv_insn_lw, RV32I rv_insn_lbu, RV32I rv_insn_lhu, RV32A rv_insn_scw, RV32C rv_insn_cli})"

definition blank :: "rv_insn \<Rightarrow> bool" where
  "blank ir \<longleftrightarrow> ir_branch_taken ir = None \<and> ir_branch_untaken ir = None \<and> ir_rd ir = 0 \<and> ir_opcode ir = RV32I rv_insn_nop"

lemma run_op_fresh:
  assumes "blank ir"
  shows "res_sat fresh (run_op cfg op ir insn)"
  using assms
    by (cases op; simp only: run_op.simps base_op_defs format_specs Let_def;
        (intro res_sat_ifI res_sat_csr_check res_sat_switch)?)
       (simp_all add: fresh_def blank_def x_dest_def is_cond_branch_def nz_def operands_I_def operands_R_def operands_SB_def operands_UJ_def
      set_rs3_def set_rm_def)

lemma bit_nonzero: "bit w n \<Longrightarrow> w \<noteq> 0" for w :: "'a::len word"
  by auto

lemma c_reg_nonzero:
  "ucast (c_decode_rdc w OR 8) \<noteq> (0 :: u8)" "ucast (c_decode_rs1c w OR 8) \<noteq> (0 :: u8)"
  by (rule bit_nonzero [of _ 3], simp add: bitblast c_field_defs mask_defs)+

lemma c_srai_nonzero:
  assumes "c_funct2 insn = 1"
  shows "ucast (c_decode_rs1 (ucast insn)) \<noteq> (0 :: u8)"
proof (rule bit_nonzero [of _ 3])
  from assms have "bit (c_funct2 insn) 0" by simp
  then show "bit (ucast (c_decode_rs1 (ucast insn)) :: u8) 3"
    by (simp add: bitblast c_field_defs mask_defs c_funct2_def)
qed

lemma run_c_op_fresh:
  "blank ir \<Longrightarrow> res_sat fresh (run_c_op cfg op ir insn)"
  by (cases op; simp only: run_c_op.simps c_op_defs op_unimp_def Let_def; (intro res_sat_ifI)?)
     (simp_all add: fresh_def blank_def x_dest_def is_cond_branch_def nz_def c_reg_nonzero c_srai_nonzero)


lemma rv_decode_fresh: "res_sat fresh (rv_decode cfg ir_calloc insn)"
proof -
  have "blank ir_calloc" by (simp add: blank_def ir_calloc_def)
  then show ?thesis
    by (auto simp: rv_decode_def Let_def intro!: res_sat_rv32e run_op_fresh run_c_op_fresh)
qed

lemma x_dest_pc [simp]: "x_dest (ir\<lparr>ir_pc := pc\<rparr>) = x_dest ir"
  unfolding x_dest_def by (cases "ir_opcode ir") simp_all

lemma x_dest_cli: "ir_opcode ir = RV32C rv_insn_cli \<Longrightarrow> x_dest ir = Some (ir_rd ir)"
  by (simp add: x_dest_def)

text \<open>C14. Every accepted instruction word, decoded into a fresh IR, is one the constant propagation
  handles correctly, unless it is \<^verbatim>\<open>sc.w\<close> with a destination other than
  \<^verbatim>\<open>x0\<close> or \<^verbatim>\<open>c.li\<close> with destination \<^verbatim>\<open>x0\<close>:
  a conditional branch has no destination, and no other arithmetic instruction writes
  \<^verbatim>\<open>x0\<close>.\<close>

theorem rv_decode_constopt_ok:
  assumes "rv_decode cfg ir_calloc insn = Decoded ir"
    and "ir_opcode ir = RV32A rv_insn_scw \<Longrightarrow> ir_rd ir = 0"
    and "ir_opcode ir = RV32C rv_insn_cli \<Longrightarrow> ir_rd ir \<noteq> 0"
  shows "constopt_ok (ir\<lparr>ir_pc := pc\<rparr>)"
proof -
  from rv_decode_fresh [of cfg insn] assms(1) have "fresh ir" by simp
  then show ?thesis
    using assms(2,3) x_dest_cli [of ir] by (auto simp: fresh_def constopt_ok_def)
qed

theorem rv_decode_constopt_ok_witness:
  "constopt_ok ((ir_calloc\<lparr>ir_rd := 31, ir_imm := 0xFFFFF000, ir_opcode := RV32I rv_insn_lui\<rparr>)\<lparr>ir_pc := 64\<rparr>)"
  by (rule rv_decode_constopt_ok [of default_features "0xFFFFFFB7"])
    (simp_all add: rv_decode_def default_features_def is_compressed_def op_index_def mask_defs
      rv_jump_table_def op_lui_def format_defs field_defs set_opcode_def rv32e_check_def ir_calloc_def)

text \<open>C4. Constant propagation preserves the meaning of a block. For every block of consecutive
  instructions the pass handles, whatever the host callbacks, the softfloat library and the
  state of the emulator: if executing the block as it was translated is defined, then executing
  the rewritten block leaves the hart (registers, memory, CSRs, cycle counter, program counter,
  halt flag) in the same state and ends it in the same way.\<close>

theorem optimize_constant_refines:
  assumes "optimize_constant rv irs = Some irs'" "block_ok (PC rv) irs"
  shows "refines (run_block E irs rv em) (run_block E irs' rv em)"
proof -
  from assms(1) have "X rv 0 = 0" "constopt_loop irs constopt_init = Some irs'"
    by (auto simp: optimize_constant_def split: if_splits)
  with assms(2) constopt_loop_sound [of "start_ctx rv em" irs constopt_init irs' E] approx_init [of rv]
  show ?thesis by (simp add: run_block_def start_ctx_def)
qed

text \<open>\<^verbatim>\<open>lui x1, 0x1000; addi x2, x1, 4; beq x1, x1, 8\<close> becomes
  \<^verbatim>\<open>lui x1, 0x1000; lui x2, 0x1004; jal x0, 8\<close>.\<close>

theorem optimize_constant_refines_witness:
  "let irs = [ir_calloc\<lparr>ir_opcode := RV32I rv_insn_lui, ir_rd := 1, ir_imm := 0x1000\<rparr>,
      ir_calloc\<lparr>ir_opcode := RV32I rv_insn_addi, ir_rd := 2, ir_rs1 := 1, ir_imm := 4, ir_pc := 4\<rparr>,
      ir_calloc\<lparr>ir_opcode := RV32I rv_insn_beq, ir_rs1 := 1, ir_rs2 := 1, ir_imm := 8, ir_pc := 8\<rparr>];
    irs' = [ir_calloc\<lparr>ir_opcode := RV32I rv_insn_lui, ir_rd := 1, ir_imm := 0x1000\<rparr>,
      ir_calloc\<lparr>ir_opcode := RV32I rv_insn_lui, ir_rd := 2, ir_rs1 := 1, ir_imm := 0x1004, ir_pc := 4\<rparr>,
      ir_calloc\<lparr>ir_opcode := RV32I rv_insn_jal, ir_rs1 := 1, ir_rs2 := 1, ir_imm := 8, ir_pc := 8\<rparr>]
   in optimize_constant rv_blank irs = Some irs' \<and>
      (\<forall>E em. refines (run_block E irs rv_blank em) (run_block E irs' rv_blank em))"
proof -
  let ?irs = "[ir_calloc\<lparr>ir_opcode := RV32I rv_insn_lui, ir_rd := 1, ir_imm := 0x1000\<rparr>,
      ir_calloc\<lparr>ir_opcode := RV32I rv_insn_addi, ir_rd := 2, ir_rs1 := 1, ir_imm := 4, ir_pc := 4\<rparr>,
      ir_calloc\<lparr>ir_opcode := RV32I rv_insn_beq, ir_rs1 := 1, ir_rs2 := 1, ir_imm := 8, ir_pc := 8\<rparr>]"
  have opt: "optimize_constant rv_blank ?irs = Some
    [ir_calloc\<lparr>ir_opcode := RV32I rv_insn_lui, ir_rd := 1, ir_imm := 0x1000\<rparr>,
      ir_calloc\<lparr>ir_opcode := RV32I rv_insn_lui, ir_rd := 2, ir_rs1 := 1, ir_imm := 0x1004, ir_pc := 4\<rparr>,
      ir_calloc\<lparr>ir_opcode := RV32I rv_insn_jal, ir_rs1 := 1, ir_rs2 := 1, ir_imm := 8, ir_pc := 8\<rparr>]"
    by (simp add: optimize_constant_def rv_blank_def constopt_init_def constopt_lui_def constopt_addi_def
      constopt_beq_def opt_defs opt_imm_def opt_branch_func_def Let_def to_lui_def set_const_def ir_calloc_def)
  have ok: "block_ok (PC rv_blank) ?irs"
    by (simp add: rv_blank_def constopt_ok_def is_cond_branch_def x_dest_def ir_len_def attr_def
      insn_is_branch_def ir_calloc_def)
  show ?thesis
    unfolding Let_def using opt optimize_constant_refines [OF opt ok] by blast
qed


end
