(* ===== verification/RV_Fuse.thy ===== *)
theory RV_Fuse
  imports RV_Constopt_Sound
begin

text \<open>
  Macro-operation fusion, \<^verbatim>\<open>match_pattern\<close> of \<^verbatim>\<open>src/emulate.c\<close>: the
  patterns, the rewriting of the IR list, and the proof that the fused block has the effect of the
  original one. The list hanging off \<^verbatim>\<open>ir->next\<close> is the tail of the list of IRs.
\<close>

unbundle bit_operations_syntax

section \<open>The pass\<close>

definition remove_next_nth_ir :: "u8 \<Rightarrow> rv_insn list \<Rightarrow> rv_insn list" where
  "remove_next_nth_ir n next = drop (unat n) next"

fun count_while :: "(rv_insn \<Rightarrow> bool) \<Rightarrow> nat \<Rightarrow> rv_insn list \<Rightarrow> nat" where
  "count_while p count [] = count"
| "count_while p count (ir # irs) = (if p ir then count_while p (count + 1) irs else count)"

definition count_consecutive_insn :: "opcode \<Rightarrow> rv_insn list \<Rightarrow> nat" where
  "count_consecutive_insn op next = count_while (\<lambda>ir. ir_opcode ir = op) 1 next"

definition is_shift_imm :: "rv_insn \<Rightarrow> bool" where
  "is_shift_imm ir \<longleftrightarrow> ir_opcode ir = RV32I rv_insn_slli \<or> ir_opcode ir = RV32I rv_insn_srli \<or>
     ir_opcode ir = RV32I rv_insn_srai"

definition count_consecutive_shift :: "rv_insn list \<Rightarrow> nat" where
  "count_consecutive_shift next = count_while is_shift_imm 1 next"

text \<open>The prefix of an IR that \<^verbatim>\<open>memcpy\<close> copies into the fusion array.\<close>

definition opcode_fuse_of :: "rv_insn \<Rightarrow> opcode_fuse" where
  "opcode_fuse_of ir = \<lparr>fuse_imm = ir_imm ir, fuse_rd = ir_rd ir, fuse_rs1 = ir_rs1 ir,
     fuse_rs2 = ir_rs2 ir, fuse_opcode = ir_opcode ir\<rparr>"

text \<open>\<^verbatim>\<open>malloc\<close> is an oracle: whether the allocation for this IR and count succeeds. The
  count minus one is passed to \<^verbatim>\<open>remove_next_nth_ir\<close> as a \<^verbatim>\<open>uint8_t\<close>.\<close>

definition try_fuse_sequence ::
  "(rv_insn \<Rightarrow> nat \<Rightarrow> bool) \<Rightarrow> rv_insn \<Rightarrow> rv_insn list \<Rightarrow> nat \<Rightarrow> fuse_insn \<Rightarrow> rv_insn \<times> rv_insn list" where
  "try_fuse_sequence malloc ir next count fop =
     (if count \<le> 1 \<or> \<not> malloc ir count then (ir, next)
      else
        (ir\<lparr>ir_fuse := opcode_fuse_of ir # map opcode_fuse_of (take (count - 1) next),
            ir_opcode := Fuse fop, ir_imm2 := of_nat count\<rparr>,
         remove_next_nth_ir (of_nat (count - 1)) next))"

text \<open>The cases of the \<^verbatim>\<open>switch\<close> in \<^verbatim>\<open>match_pattern\<close>. \<open>next\<close> is not
  empty: the loop stops before the last IR.\<close>

definition fuse_lui ::
  "(rv_insn \<Rightarrow> nat \<Rightarrow> bool) \<Rightarrow> rv_insn \<Rightarrow> rv_insn \<Rightarrow> rv_insn list \<Rightarrow> rv_insn \<times> rv_insn list" where
  "fuse_lui malloc ir next_ir irs =
     (if ir_opcode next_ir = RV32I rv_insn_add then
        (if ir_rd ir = ir_rs2 next_ir \<or> ir_rd ir = ir_rs1 next_ir then
           (ir\<lparr>ir_opcode := Fuse rv_insn_fuse2, ir_rs2 := ir_rd next_ir,
               ir_rs1 := (if ir_rd ir = ir_rs2 next_ir then ir_rs1 next_ir else ir_rs2 next_ir)\<rparr>,
            remove_next_nth_ir 1 (next_ir # irs))
         else (ir, next_ir # irs))
      else if ir_opcode next_ir = RV32I rv_insn_addi then
        (if ir_rd ir \<noteq> rv_reg_zero \<and> ir_rd ir = ir_rs1 next_ir \<and> ir_rd ir = ir_rd next_ir then
           (ir\<lparr>ir_imm2 := ir_imm next_ir, ir_opcode := Fuse rv_insn_fuse8\<rparr>,
            remove_next_nth_ir 1 (next_ir # irs))
         else (ir, next_ir # irs))
      else if ir_opcode next_ir = RV32I rv_insn_lw then
        (if ir_rd ir \<noteq> rv_reg_zero \<and> ir_rd ir = ir_rs1 next_ir then
           (ir\<lparr>ir_imm2 := ir_imm next_ir, ir_rs2 := ir_rd next_ir, ir_opcode := Fuse rv_insn_fuse9\<rparr>,
            remove_next_nth_ir 1 (next_ir # irs))
         else (ir, next_ir # irs))
      else if ir_opcode next_ir = RV32I rv_insn_sw then
        (if ir_rd ir \<noteq> rv_reg_zero \<and> ir_rd ir = ir_rs1 next_ir then
           (ir\<lparr>ir_imm2 := ir_imm next_ir, ir_rs1 := ir_rs2 next_ir, ir_opcode := Fuse rv_insn_fuse10\<rparr>,
            remove_next_nth_ir 1 (next_ir # irs))
         else (ir, next_ir # irs))
      else if ir_opcode next_ir = RV32I rv_insn_lui then
        try_fuse_sequence malloc ir (next_ir # irs)
          (count_consecutive_insn (RV32I rv_insn_lui) (next_ir # irs)) rv_insn_fuse1
      else (ir, next_ir # irs))"

definition fuse_lw ::
  "(rv_insn \<Rightarrow> nat \<Rightarrow> bool) \<Rightarrow> rv_insn \<Rightarrow> rv_insn \<Rightarrow> rv_insn list \<Rightarrow> rv_insn \<times> rv_insn list" where
  "fuse_lw malloc ir next_ir irs =
     (if ir_opcode next_ir = RV32I rv_insn_addi \<and> ir_rs1 ir = ir_rs1 next_ir \<and>
         ir_rs1 next_ir = ir_rd next_ir \<and> ir_rd ir \<noteq> ir_rs1 ir then
        (ir\<lparr>ir_imm2 := ir_imm next_ir, ir_opcode := Fuse rv_insn_fuse11\<rparr>,
         remove_next_nth_ir 1 (next_ir # irs))
      else
        try_fuse_sequence malloc ir (next_ir # irs)
          (count_consecutive_insn (RV32I rv_insn_lw) (next_ir # irs)) rv_insn_fuse4)"

definition fuse_addi ::
  "features \<Rightarrow> (rv_insn \<Rightarrow> nat \<Rightarrow> bool) \<Rightarrow> rv_insn \<Rightarrow> rv_insn \<Rightarrow> rv_insn list \<Rightarrow> rv_insn \<times> rv_insn list" where
  "fuse_addi cfg malloc ir next_ir irs =
     (if \<not> RV32E cfg \<and> ir_rd ir = rv_reg_a7 \<and> ir_rs1 ir = rv_reg_zero \<and>
         ir_opcode next_ir = RV32I rv_insn_ecall then
        (ir\<lparr>ir_opcode := Fuse rv_insn_fuse6\<rparr>, remove_next_nth_ir 1 (next_ir # irs))
      else if ir_opcode next_ir = RV32I rv_insn_bne \<and> ir_rd ir \<noteq> rv_reg_zero \<and>
         ir_rd ir = ir_rs1 next_ir \<and> ir_rs2 next_ir = rv_reg_zero then
        (ir\<lparr>ir_imm2 := ir_imm next_ir, ir_opcode := Fuse rv_insn_fuse12,
            ir_branch_taken := ir_branch_taken next_ir, ir_branch_untaken := ir_branch_untaken next_ir\<rparr>,
         remove_next_nth_ir 1 (next_ir # irs))
      else
        try_fuse_sequence malloc ir (next_ir # irs)
          (count_consecutive_insn (RV32I rv_insn_addi) (next_ir # irs)) rv_insn_fuse7)"

definition fuse_at ::
  "features \<Rightarrow> (rv_insn \<Rightarrow> nat \<Rightarrow> bool) \<Rightarrow> rv_insn \<Rightarrow> rv_insn \<Rightarrow> rv_insn list \<Rightarrow> rv_insn \<times> rv_insn list" where
  "fuse_at cfg malloc ir next_ir irs =
     (if ir_opcode ir = RV32I rv_insn_lui then fuse_lui malloc ir next_ir irs
      else if ir_opcode ir = RV32I rv_insn_sw then
        try_fuse_sequence malloc ir (next_ir # irs)
          (count_consecutive_insn (RV32I rv_insn_sw) (next_ir # irs)) rv_insn_fuse3
      else if ir_opcode ir = RV32I rv_insn_lw then fuse_lw malloc ir next_ir irs
      else if is_shift_imm ir then
        try_fuse_sequence malloc ir (next_ir # irs) (count_consecutive_shift (next_ir # irs)) rv_insn_fuse5
      else if ir_opcode ir = RV32I rv_insn_addi then fuse_addi cfg malloc ir next_ir irs
      else (ir, next_ir # irs))"

lemmas fuse_defs = fuse_at_def fuse_lui_def fuse_lw_def fuse_addi_def

lemma fuse_at_length: "fuse_at cfg malloc ir next_ir irs = (ir', irs') \<Longrightarrow> length irs' \<le> Suc (length irs)"
  by (auto simp: fuse_defs try_fuse_sequence_def remove_next_nth_ir_def split: if_splits)

text \<open>The loop runs while the IR is not the last of the list.\<close>

function match_pattern :: "features \<Rightarrow> (rv_insn \<Rightarrow> nat \<Rightarrow> bool) \<Rightarrow> rv_insn list \<Rightarrow> rv_insn list" where
  "match_pattern cfg malloc [] = []"
| "match_pattern cfg malloc [ir] = [ir]"
| "match_pattern cfg malloc (ir # next_ir # irs) =
     (let (ir', irs') = fuse_at cfg malloc ir next_ir irs in ir' # match_pattern cfg malloc irs')"
  by pat_completeness auto
termination
  by (relation "measure (\<lambda>(_, _, irs). length irs)") (auto simp: le_imp_less_Suc fuse_at_length dest: sym)

section \<open>Instructions that are fused\<close>

definition is_trap :: "outcome \<Rightarrow> bool" where
  "is_trap r \<longleftrightarrow> (case r of Return b rv em \<Rightarrow> \<not> b | _ \<Rightarrow> False)"

text \<open>Like \<^const>\<open>refines\<close>, but an exception in the original is not compared.\<close>

definition refines_nt :: "outcome \<Rightarrow> outcome \<Rightarrow> bool" where
  "refines_nt r s \<longleftrightarrow> is_trap r \<or> refines r s"

text \<open>The effect of a fusable instruction on the hart; nothing when it is undefined or raises a
  misaligned-access exception.\<close>

definition misaligned :: "u32 \<Rightarrow> riscv \<Rightarrow> bool" where
  "misaligned addr rv \<longleftrightarrow> \<not> allow_misalign rv \<and> addr AND 3 \<noteq> 0"

definition fop :: "opcode_fuse \<Rightarrow> riscv \<Rightarrow> riscv option" where
  "fop f rv =
     (let x = X rv (fuse_rs1 f); y = X rv (fuse_rs2 f); addr = x + fuse_imm f in
      if fuse_opcode f = RV32I rv_insn_lui then Some (set_X (fuse_rd f) (fuse_imm f) rv)
      else if fuse_opcode f = RV32I rv_insn_addi then Some (set_X (fuse_rd f) (x + fuse_imm f) rv)
      else if fuse_opcode f = RV32I rv_insn_add then Some (set_X (fuse_rd f) (x + y) rv)
      else if fuse_opcode f = RV32I rv_insn_lw then
        (if misaligned addr rv then None
         else map_option (\<lambda>v. set_X (fuse_rd f) v rv) (ram_read_w (mem rv) addr))
      else if fuse_opcode f = RV32I rv_insn_sw then
        (if misaligned addr rv then None
         else map_option (\<lambda>m. rv\<lparr>mem := m\<rparr>) (ram_write_w (mem rv) addr y))
      else fuse_shift_exec f rv)"

definition fusable :: "rv_insn \<Rightarrow> bool" where
  "fusable ir \<longleftrightarrow> ir_opcode ir \<in> {RV32I rv_insn_lui, RV32I rv_insn_addi, RV32I rv_insn_add,
     RV32I rv_insn_lw, RV32I rv_insn_sw} \<or> is_shift_imm ir"

definition run_ops :: "opcode_fuse list \<Rightarrow> riscv \<Rightarrow> riscv option" where
  "run_ops fs rv = fold (\<lambda>f r. Option.bind r (fop f)) fs (Some rv)"

definition advance :: "nat \<Rightarrow> riscv \<Rightarrow> ctx \<Rightarrow> ctx" where
  "advance n rv c = c\<lparr>c_rv := rv, c_cycle := c_cycle c + of_nat n, c_pc := c_pc c + of_nat n * 4\<rparr>"

lemma fold_bind_None [simp]: "fold (\<lambda>f r. Option.bind r (g f)) fs None = None"
  by (induction fs) auto

lemma run_ops_simps [simp]:
  "run_ops [] rv = Some rv"
  "run_ops (f # fs) rv = Option.bind (fop f rv) (run_ops fs)"
  by (simp_all add: run_ops_def split: bind_split)

lemma fusable_step:
  assumes "fusable ir"
  shows "case fop (opcode_fuse_of ir) (c_rv c) of
      None \<Rightarrow> impl E ir c = Undef \<or> is_trap (impl E ir c)
    | Some rv \<Rightarrow> erase (impl E ir c) = erase (Nextop (advance 1 rv c))"
  using assms
  unfolding fusable_def insert_iff empty_iff is_shift_imm_def
  by (elim disjE)
    (simp_all add: impl_def rvop_def attr_def fop_def opcode_fuse_of_def advance_def template_defs
      exec_defs Let_def misaligned_def fuse_shift_exec_def shift_func_def erase_rvop_enter is_trap_def
      split: option.splits)

lemma refines_nt_refl [simp]: "refines_nt r r"
  by (simp add: refines_nt_def)

lemma erase_is_trap: "erase r = erase s \<Longrightarrow> is_trap r = is_trap s"
  by (cases r; cases s) (auto simp: is_trap_def)

lemma erase_Undef: "erase r = Undef \<longleftrightarrow> r = Undef"
  by (cases r) auto

lemma refines_nt_erase:
  assumes "refines_nt r s" "erase r' = erase r" "erase s' = erase s"
  shows "refines_nt r' s'"
  using assms erase_is_trap [OF assms(2)] erase_Undef [of r'] by (auto simp: refines_nt_def refines_def)

text \<open>Up to the emulator's statistics, an instruction that goes on to its successor can be skipped.\<close>

lemma exec_Nextop:
  assumes "erase (impl E ir c) = erase (Nextop c')"
  shows "erase (exec E (ir # irs) c) = erase (exec E irs c')"
proof -
  from assms obtain d where d: "impl E ir c = Nextop d" "erase_ctx d = erase_ctx c'"
    by (cases "impl E ir c") auto
  with em_exec [OF d(2)] show ?thesis by simp
qed

lemma advance_advance: "advance n rv' (advance m rv c) = advance (m + n) rv' c"
  by (simp add: advance_def algebra_simps)

lemma advance_sel [simp]: "c_rv (advance n rv c) = rv"
  by (simp add: advance_def)

text \<open>A sequence of fusable instructions, executed one by one.\<close>

lemma exec_fusable:
  assumes "\<forall>ir \<in> set irs. fusable ir"
  shows "case run_ops (map opcode_fuse_of irs) (c_rv c) of
      None \<Rightarrow> exec E (irs @ rest) c = Undef \<or> is_trap (exec E (irs @ rest) c)
    | Some rv \<Rightarrow> erase (exec E (irs @ rest) c) = erase (exec E rest (advance (length irs) rv c))"
  using assms
proof (induction irs arbitrary: c)
  case Nil
  then show ?case by (simp add: advance_def)
next
  case (Cons ir irs)
  then have f: "fusable ir" by simp
  show ?case
  proof (cases "fop (opcode_fuse_of ir) (c_rv c)")
    case None
    with fusable_step [OF f, where c = c and E = E] show ?thesis
      by (auto simp: is_trap_def split: outcome.splits)
  next
    case (Some rv)
    with fusable_step [OF f, where c = c and E = E] have step: "erase (impl E ir c) = erase (Nextop (advance 1 rv c))"
      by simp
    from Cons.prems have "\<forall>ir \<in> set irs. fusable ir" by simp
    from Cons.IH [OF this, of "advance 1 rv c"] exec_Nextop [OF step, of "irs @ rest"]
      erase_is_trap [of "exec E (ir # irs @ rest) c"] erase_Undef [of "exec E (ir # irs @ rest) c"]
    show ?thesis
      by (auto simp: Some advance_advance simp del: exec.simps split: option.splits)
  qed
qed

text \<open>What a fused operation owes to the sequence it replaces.\<close>

definition fuses :: "env \<Rightarrow> rv_insn list \<Rightarrow> rv_insn \<Rightarrow> bool" where
  "fuses E irs ir' \<longleftrightarrow> (\<forall>c rv. run_ops (map opcode_fuse_of irs) (c_rv c) = Some rv \<longrightarrow>
     erase (impl E ir' c) = erase (Nextop (advance (length irs) rv c)))"

definition x0_ok :: "rv_insn \<Rightarrow> bool" where
  "x0_ok ir \<longleftrightarrow> (x_dest ir = Some 0 \<longrightarrow> ir_opcode ir = RV32I rv_insn_nop)"

lemma fop_X0:
  "fusable ir \<Longrightarrow> x0_ok ir \<Longrightarrow> fop (opcode_fuse_of ir) rv = Some rv' \<Longrightarrow> X rv' 0 = X rv 0"
  by (auto simp: fusable_def is_shift_imm_def x0_ok_def x_dest_def fop_def opcode_fuse_of_def
    fuse_shift_exec_def Let_def set_X_def split: if_splits)

lemma run_ops_X0:
  "\<forall>ir \<in> set irs. fusable ir \<and> x0_ok ir \<Longrightarrow> run_ops (map opcode_fuse_of irs) rv = Some rv' \<Longrightarrow> X rv' 0 = X rv 0"
  by (induction irs arbitrary: rv) (auto simp: fop_X0 split: bind_splits)

lemma fuses_refines:
  assumes "fuses E irs ir'" "\<forall>ir \<in> set irs. fusable ir \<and> x0_ok ir" "X (c_rv c) 0 = 0"
    and IH: "\<And>d. X (c_rv d) 0 = 0 \<Longrightarrow> refines_nt (exec E rest d) (exec E rest' d)"
  shows "refines_nt (exec E (irs @ rest) c) (exec E (ir' # rest') c)"
proof (cases "run_ops (map opcode_fuse_of irs) (c_rv c)")
  case None
  with exec_fusable [of irs, where c = c and E = E and rest = rest] assms(2) show ?thesis by (auto simp: refines_nt_def)
next
  case (Some rv)
  with exec_fusable [of irs, where c = c and E = E and rest = rest] assms(2)
  have orig: "erase (exec E (irs @ rest) c) = erase (exec E rest (advance (length irs) rv c))" by simp
  from assms(1) Some have "erase (impl E ir' c) = erase (Nextop (advance (length irs) rv c))"
    unfolding fuses_def by blast
  then have fused: "erase (exec E (ir' # rest') c) = erase (exec E rest' (advance (length irs) rv c))"
    by (rule exec_Nextop)
  from run_ops_X0 [OF assms(2) Some] assms(3) have "X (c_rv (advance (length irs) rv c)) 0 = 0" by simp
  from refines_nt_erase [OF IH [OF this] orig fused] show ?thesis .
qed

section \<open>The fused operations\<close>

lemma sint_count:
  assumes "n < 2 ^ 31"
  shows "sint (of_nat n :: u32) = int n"
  using assms by (simp add: signed_of_nat signed_take_bit_int_eq_self)

lemma scast_count:
  assumes "n < 2 ^ 31"
  shows "(scast (of_nat n :: u32) :: u64) = of_nat n"
  using sint_count [OF assms] by (simp add: scast_eq)

lemma fuse_data_count:
  assumes "n \<le> length fs" "n < 2 ^ 31"
  shows "fuse_data (ir\<lparr>ir_fuse := fs, ir_opcode := op, ir_imm2 := of_nat n\<rparr>) = Some (take n fs)"
  using assms by (simp add: fuse_data_def sint_count Let_def)

text \<open>The IR of a fused run.\<close>

definition fused_run :: "fuse_insn \<Rightarrow> rv_insn list \<Rightarrow> rv_insn" where
  "fused_run i irs = (hd irs)\<lparr>ir_fuse := map opcode_fuse_of irs, ir_opcode := Fuse i,
     ir_imm2 := of_nat (length irs)\<rparr>"

lemma fused_run_sel [simp]:
  "ir_opcode (fused_run i irs) = Fuse i" "ir_imm2 (fused_run i irs) = of_nat (length irs)"
  "length irs < 2 ^ 31 \<Longrightarrow> fuse_data (fused_run i irs) = Some (map opcode_fuse_of irs)"
  by (simp_all add: fused_run_def fuse_data_count)

lemma erase_advance:
  "erase_ctx (c\<lparr>c_em := em, c_rv := rv, c_cycle := cy, c_pc := pc\<rparr>) = erase_ctx (c\<lparr>c_rv := rv, c_cycle := cy, c_pc := pc\<rparr>)"
  by (simp add: erase_ctx_def)

lemma run_ops_cong:
  "\<forall>f \<in> set fs. fop f = g f \<Longrightarrow> fold (\<lambda>f r. Option.bind r (g f)) fs (Some rv) = run_ops fs rv"
  unfolding run_ops_def by (rule fold_cong) auto

lemma fuses_alu:
  assumes "length irs < 2 ^ 31" "\<And>E ir c. fuse_impl i E ir c = fuse_alu g ir c"
    and "\<forall>f \<in> set (map opcode_fuse_of irs). fop f = g f"
  shows "fuses E irs (fused_run i irs)"
  unfolding fuses_def
proof (intro allI impI)
  fix c :: ctx and rv
  assume "run_ops (map opcode_fuse_of irs) (c_rv c) = Some rv"
  with run_ops_cong [OF assms(3), of "c_rv c"] assms(1)
  show "erase (impl E (fused_run i irs) c) = erase (Nextop (advance (length irs) rv c))"
    by (simp add: impl_def assms(2) fuse_alu_def fuse_simps advance_def scast_count erase_ctx_def)
qed

lemma fuse3_loop_run:
  "\<forall>f \<in> set fs. fuse_opcode f = RV32I rv_insn_sw \<Longrightarrow> run_ops fs (c_rv c) = Some rv \<Longrightarrow>
   fuse3_loop E fs c k = k (c\<lparr>c_rv := rv\<rparr>)"
  by (induction fs arbitrary: c)
    (auto simp: fop_def exec_defs misaligned_def Let_def split: bind_splits if_splits)

lemma fuse4_loop_run:
  "\<forall>f \<in> set fs. fuse_opcode f = RV32I rv_insn_lw \<Longrightarrow> run_ops fs (c_rv c) = Some rv \<Longrightarrow>
   fuse4_loop E fs c k = k (c\<lparr>c_rv := rv\<rparr>)"
  by (induction fs arbitrary: c)
    (auto simp: fop_def exec_defs misaligned_def Let_def split: bind_splits if_splits)

lemma fuses_lui_run:
  "\<forall>ir \<in> set irs. ir_opcode ir = RV32I rv_insn_lui \<Longrightarrow> length irs < 2 ^ 31 \<Longrightarrow>
   fuses E irs (fused_run rv_insn_fuse1 irs)"
  by (rule fuses_alu [where g = "\<lambda>f rv. Some (set_X (fuse_rd f) (fuse_imm f) rv)"])
    (auto simp: fun_eq_iff do_fuse1_def fop_def opcode_fuse_of_def)

lemma fuses_addi_run:
  "\<forall>ir \<in> set irs. ir_opcode ir = RV32I rv_insn_addi \<Longrightarrow> length irs < 2 ^ 31 \<Longrightarrow>
   fuses E irs (fused_run rv_insn_fuse7 irs)"
  by (rule fuses_alu [where g = "\<lambda>f rv. Some (set_X (fuse_rd f) (X rv (fuse_rs1 f) + fuse_imm f) rv)"])
    (auto simp: fun_eq_iff do_fuse7_def fop_def opcode_fuse_of_def)

lemma fuses_shift_run:
  "\<forall>ir \<in> set irs. is_shift_imm ir \<Longrightarrow> length irs < 2 ^ 31 \<Longrightarrow> fuses E irs (fused_run rv_insn_fuse5 irs)"
  by (rule fuses_alu [where g = fuse_shift_exec])
    (auto simp: fun_eq_iff do_fuse5_def fop_def opcode_fuse_of_def is_shift_imm_def)

lemma fuses_sw_run:
  "\<forall>ir \<in> set irs. ir_opcode ir = RV32I rv_insn_sw \<Longrightarrow> length irs < 2 ^ 31 \<Longrightarrow>
   fuses E irs (fused_run rv_insn_fuse3 irs)"
  unfolding fuses_def
  by (auto simp: impl_def do_fuse3_def fuse_simps advance_def scast_count erase_ctx_def opcode_fuse_of_def
    fuse3_loop_run [of "map opcode_fuse_of irs"])

lemma fuses_lw_run:
  "\<forall>ir \<in> set irs. ir_opcode ir = RV32I rv_insn_lw \<Longrightarrow> length irs < 2 ^ 31 \<Longrightarrow>
   fuses E irs (fused_run rv_insn_fuse4 irs)"
  unfolding fuses_def
  by (auto simp: impl_def do_fuse4_def fuse_simps advance_def scast_count erase_ctx_def opcode_fuse_of_def
    fuse4_loop_run [of "map opcode_fuse_of irs"])

text \<open>The pairs.\<close>

lemma fuses_pairs:
  fixes x y :: rv_insn
  shows "ir_opcode x = RV32I rv_insn_lui \<Longrightarrow> ir_opcode y = RV32I rv_insn_add \<Longrightarrow>
     ir_rd x = ir_rs2 y \<Longrightarrow>
     fuses E [x, y] (x\<lparr>ir_opcode := Fuse rv_insn_fuse2, ir_rs2 := ir_rd y, ir_rs1 := ir_rs1 y\<rparr>)"
    and "ir_opcode x = RV32I rv_insn_lui \<Longrightarrow> ir_opcode y = RV32I rv_insn_add \<Longrightarrow>
     ir_rd x = ir_rs1 y \<Longrightarrow>
     fuses E [x, y] (x\<lparr>ir_opcode := Fuse rv_insn_fuse2, ir_rs2 := ir_rd y, ir_rs1 := ir_rs2 y\<rparr>)"
    and "ir_opcode x = RV32I rv_insn_lui \<Longrightarrow> ir_opcode y = RV32I rv_insn_addi \<Longrightarrow>
     ir_rd x = ir_rs1 y \<Longrightarrow> ir_rd x = ir_rd y \<Longrightarrow>
     fuses E [x, y] (x\<lparr>ir_imm2 := ir_imm y, ir_opcode := Fuse rv_insn_fuse8\<rparr>)"
    and "ir_opcode x = RV32I rv_insn_lui \<Longrightarrow> ir_opcode y = RV32I rv_insn_lw \<Longrightarrow>
     ir_rd x = ir_rs1 y \<Longrightarrow>
     fuses E [x, y] (x\<lparr>ir_imm2 := ir_imm y, ir_rs2 := ir_rd y, ir_opcode := Fuse rv_insn_fuse9\<rparr>)"
    and "ir_opcode x = RV32I rv_insn_lui \<Longrightarrow> ir_opcode y = RV32I rv_insn_sw \<Longrightarrow>
     ir_rd x = ir_rs1 y \<Longrightarrow>
     fuses E [x, y] (x\<lparr>ir_imm2 := ir_imm y, ir_rs1 := ir_rs2 y, ir_opcode := Fuse rv_insn_fuse10\<rparr>)"
    and "ir_opcode x = RV32I rv_insn_lw \<Longrightarrow> ir_opcode y = RV32I rv_insn_addi \<Longrightarrow>
     ir_rs1 x = ir_rs1 y \<Longrightarrow> ir_rs1 y = ir_rd y \<Longrightarrow>
     fuses E [x, y] (x\<lparr>ir_imm2 := ir_imm y, ir_opcode := Fuse rv_insn_fuse11\<rparr>)"
  unfolding fuses_def
  by (auto simp: impl_def do_fuse2_def do_fuse8_def do_fuse9_def do_fuse10_def do_fuse11_def fop_def
    opcode_fuse_of_def fuse_simps advance_def erase_ctx_def misaligned_def set_X_def
    add.commute split: if_splits option.splits)

text \<open>The pairs that end a block.\<close>

lemma fuse6_refines:
  assumes "ir_opcode x = RV32I rv_insn_addi" "ir_opcode y = RV32I rv_insn_ecall"
    and "ir_rd x = rv_reg_a7" "ir_rs1 x = rv_reg_zero" "X (c_rv c) 0 = 0"
  shows "refines_nt (exec E [x, y] c) (exec E [x\<lparr>ir_opcode := Fuse rv_insn_fuse6\<rparr>] c)"
  using assms
  by (auto simp: refines_nt_def refines_def impl_def rvop_def do_addi_def do_ecall_def do_fuse6_def
    fuse_simps set_X_def attr_def is_trap_def add.commute split: option.splits)

lemma fuse12_refines:
  assumes "ir_opcode x = RV32I rv_insn_addi" "ir_opcode y = RV32I rv_insn_bne"
    and "ir_rd x = ir_rs1 y" "ir_rd x \<noteq> 0" "ir_rs2 y = rv_reg_zero" "X (c_rv c) 0 = 0"
    and "ir_branch_taken y = None" "ir_branch_untaken y = None"
  shows "refines_nt (exec E [x, y] c) (exec E [x\<lparr>ir_imm2 := ir_imm y, ir_opcode := Fuse rv_insn_fuse12,
     ir_branch_taken := None, ir_branch_untaken := None\<rparr>] c)"
  using assms
  by (auto simp: refines_nt_def refines_def impl_def rvop_def do_addi_def do_bne_def branch_func_def do_fuse12_def
    fuse_simps set_X_def attr_def algebra_simps split: option.splits)

section \<open>Soundness of the pass\<close>

text \<open>
  The blocks the pass handles: fresh IRs of plain instructions with a branch only at the end, of which
  only \<^verbatim>\<open>nop\<close> writes \<^verbatim>\<open>x0\<close>; and no run of more than 256 instructions
  that would be fused into one.
\<close>

fun fuse_ok :: "rv_insn list \<Rightarrow> bool" where
  "fuse_ok [] \<longleftrightarrow> True"
| "fuse_ok (ir # irs) \<longleftrightarrow> insn_attr_of (ir_opcode ir) \<noteq> None \<and> x0_ok ir \<and>
     ir_branch_taken ir = None \<and> ir_branch_untaken ir = None \<and>
     (irs \<noteq> [] \<longrightarrow> \<not> insn_is_branch (ir_opcode ir)) \<and> fuse_ok irs"

fun short_runs :: "rv_insn list \<Rightarrow> bool" where
  "short_runs [] \<longleftrightarrow> True"
| "short_runs (ir # irs) \<longleftrightarrow>
     length (takeWhile (\<lambda>x. ir_opcode x = ir_opcode ir) (ir # irs)) \<le> 256 \<and>
     length (takeWhile is_shift_imm (ir # irs)) \<le> 256 \<and> short_runs irs"

lemma fuse_ok_append: "fuse_ok (xs @ ys) \<Longrightarrow> fuse_ok ys"
  by (induction xs) auto

lemma short_runs_append: "short_runs (xs @ ys) \<Longrightarrow> short_runs ys"
  by (induction xs) auto

lemma fuse_ok_x0: "fuse_ok irs \<Longrightarrow> \<forall>ir \<in> set irs. x0_ok ir"
  by (induction irs) auto

lemma count_while_takeWhile: "count_while p n irs = n + length (takeWhile p irs)"
  by (induction irs arbitrary: n) auto

text \<open>A successful fusion of a run.\<close>

definition fused :: "fuse_insn \<Rightarrow> (rv_insn \<Rightarrow> bool) \<Rightarrow> rv_insn list \<Rightarrow> rv_insn \<Rightarrow> rv_insn list \<Rightarrow> bool" where
  "fused i p irs ir' irs' \<longleftrightarrow> (\<exists>xs. irs = xs @ irs' \<and> (\<forall>x \<in> set xs. p x) \<and> length xs < 2 ^ 31 \<and>
     ir' = fused_run i xs)"

lemma try_fuse_sequence_cases:
  assumes "try_fuse_sequence malloc ir next (count_while p 1 next) i = (ir', irs')"
    and "p ir" "length (takeWhile p (ir # next)) \<le> 256"
  shows "ir' = ir \<and> irs' = next \<or> fused i p (ir # next) ir' irs'"
proof (cases "takeWhile p next = [] \<or> \<not> malloc ir (count_while p 1 next)")
  case True
  with assms(1) show ?thesis by (auto simp: try_fuse_sequence_def count_while_takeWhile)
next
  case False
  let ?n = "length (takeWhile p next)"
  from assms(2,3) have n: "?n < 256" by simp
  then have u: "unat (of_nat ?n :: u8) = ?n" by (simp add: unat_of_nat)
  have "take ?n next = takeWhile p next" "drop ?n next = dropWhile p next"
    by (metis takeWhile_eq_take) (metis dropWhile_eq_drop)
  with False assms(1) u have "ir' = fused_run i (ir # takeWhile p next)" "irs' = dropWhile p next"
    by (auto simp: try_fuse_sequence_def count_while_takeWhile remove_next_nth_ir_def fused_run_def)
  moreover have "\<forall>x \<in> set (ir # takeWhile p next). p x"
    using assms(2) by (auto dest: set_takeWhileD)
  ultimately show ?thesis
    unfolding fused_def using n by (intro disjI2 exI [of _ "ir # takeWhile p next"]) simp
qed

text \<open>What one step of the pass does: nothing, a fusion covered by \<^const>\<open>fuses\<close>, or a fusion
  with the branch that ends the block.\<close>

definition fuses_prefix :: "env \<Rightarrow> rv_insn list \<Rightarrow> rv_insn \<Rightarrow> rv_insn list \<Rightarrow> bool" where
  "fuses_prefix E irs ir' irs' \<longleftrightarrow>
     (\<exists>xs. irs = xs @ irs' \<and> (\<forall>x \<in> set xs. fusable x) \<and> fuses E xs ir')"

definition ends_block :: "env \<Rightarrow> rv_insn list \<Rightarrow> rv_insn \<Rightarrow> rv_insn list \<Rightarrow> bool" where
  "ends_block E irs ir' irs' \<longleftrightarrow> irs' = [] \<and>
     (\<forall>c. X (c_rv c) 0 = 0 \<longrightarrow> refines_nt (exec E irs c) (exec E [ir'] c))"

lemma fused_prefix:
  "fused i p irs ir' irs' \<Longrightarrow> (\<And>x. p x \<Longrightarrow> fusable x) \<Longrightarrow>
   (\<And>xs. \<forall>x \<in> set xs. p x \<Longrightarrow> length xs < 2 ^ 31 \<Longrightarrow> fuses E xs (fused_run i xs)) \<Longrightarrow>
   fuses_prefix E irs ir' irs'"
  unfolding fused_def fuses_prefix_def by blast

lemma pair_prefix:
  "fusable x \<Longrightarrow> fusable y \<Longrightarrow> fuses E [x, y] ir' \<Longrightarrow> fuses_prefix E (x # y # irs) ir' irs"
  unfolding fuses_prefix_def by (intro exI [of _ "[x, y]"]) simp

lemma run_cases:
  assumes "try_fuse_sequence malloc ir next (count_while p 1 next) i = (ir', irs')"
    and "p ir" "length (takeWhile p (ir # next)) \<le> 256" "\<And>x. p x \<Longrightarrow> fusable x"
    and "\<And>xs. \<forall>x \<in> set xs. p x \<Longrightarrow> length xs < 2 ^ 31 \<Longrightarrow> fuses E xs (fused_run i xs)"
  shows "ir' = ir \<and> irs' = next \<or> fuses_prefix E (ir # next) ir' irs'"
  using try_fuse_sequence_cases [OF assms(1-3)] fused_prefix [OF _ assms(4,5)] by blast

lemma same_run_cases:
  assumes "try_fuse_sequence malloc ir next (count_consecutive_insn op next) i = (ir', irs')"
    and "ir_opcode ir = op" "short_runs (ir # next)"
    and "op \<in> {RV32I rv_insn_lui, RV32I rv_insn_addi, RV32I rv_insn_lw, RV32I rv_insn_sw}"
    and "\<And>xs. \<forall>x \<in> set xs. ir_opcode x = op \<Longrightarrow> length xs < 2 ^ 31 \<Longrightarrow> fuses E xs (fused_run i xs)"
  shows "ir' = ir \<and> irs' = next \<or> fuses_prefix E (ir # next) ir' irs'"
  by (rule run_cases [OF assms(1) [unfolded count_consecutive_insn_def]])
    (use assms(2-5) in \<open>auto simp: fusable_def\<close>)

lemma fuse_at_cases:
  assumes "fuse_at cfg malloc ir next_ir irs = (ir', irs')"
    and "fuse_ok (ir # next_ir # irs)" "short_runs (ir # next_ir # irs)"
  shows "ir' = ir \<and> irs' = next_ir # irs \<or> fuses_prefix E (ir # next_ir # irs) ir' irs' \<or>
    ends_block E (ir # next_ir # irs) ir' irs'"
proof -
  consider (lui) "ir_opcode ir = RV32I rv_insn_lui" | (sw) "ir_opcode ir = RV32I rv_insn_sw"
    | (lw) "ir_opcode ir = RV32I rv_insn_lw" | (shift) "is_shift_imm ir"
    | (addi) "ir_opcode ir = RV32I rv_insn_addi" | (other) "ir' = ir" "irs' = next_ir # irs"
    using assms(1) by (auto simp: fuse_at_def split: if_splits)
  then show ?thesis
  proof cases
    case lui
    with assms(1) have "fuse_lui malloc ir next_ir irs = (ir', irs')" by (simp add: fuse_at_def)
    then show ?thesis
      using lui same_run_cases [OF _ lui assms(3) _ fuses_lui_run, where malloc = malloc and ir' = ir' and irs' = irs' and E = E]
      by (auto simp: fuse_lui_def remove_next_nth_ir_def fusable_def intro!: pair_prefix fuses_pairs
        split: if_splits)
  next
    case sw
    with assms(1) same_run_cases [OF _ sw assms(3) _ fuses_sw_run, where malloc = malloc and ir' = ir' and irs' = irs' and E = E]
    show ?thesis by (auto simp: fuse_at_def)
  next
    case lw
    with assms(1) have "fuse_lw malloc ir next_ir irs = (ir', irs')" by (simp add: fuse_at_def)
    then show ?thesis
      using lw same_run_cases [OF _ lw assms(3) _ fuses_lw_run, where malloc = malloc and ir' = ir' and irs' = irs' and E = E]
      by (auto simp: fuse_lw_def remove_next_nth_ir_def fusable_def intro!: pair_prefix fuses_pairs
        split: if_splits)
  next
    case shift
    with assms(1) have "try_fuse_sequence malloc ir (next_ir # irs)
      (count_while is_shift_imm 1 (next_ir # irs)) rv_insn_fuse5 = (ir', irs')"
      by (auto simp: fuse_at_def count_consecutive_shift_def is_shift_imm_def)
    moreover have "length (takeWhile is_shift_imm (ir # next_ir # irs)) \<le> 256"
      using assms(3) by (simp only: short_runs.simps)
    moreover have "fusable x" if "is_shift_imm x" for x using that by (simp add: fusable_def)
    ultimately have "ir' = ir \<and> irs' = next_ir # irs \<or> fuses_prefix E (ir # next_ir # irs) ir' irs'"
      using shift run_cases [where p = is_shift_imm] fuses_shift_run by blast
    then show ?thesis by blast
  next
    case addi
    with assms(1) have f: "fuse_addi cfg malloc ir next_ir irs = (ir', irs')"
      by (simp add: fuse_at_def is_shift_imm_def)
    have branch: "irs = []" if "ir_opcode next_ir \<in> {RV32I rv_insn_ecall, RV32I rv_insn_bne}"
      using assms(2) that by (auto simp: insn_is_branch_def attr_def)
    show ?thesis
      using f branch assms(2) addi same_run_cases [OF _ addi assms(3) _ fuses_addi_run, where malloc = malloc and ir' = ir' and irs' = irs' and E = E]
      by (auto simp: fuse_addi_def ends_block_def remove_next_nth_ir_def simp del: exec.simps
        intro: fuse6_refines fuse12_refines split: if_splits)
  qed simp
qed

lemma impl_X0:
  assumes "impl E ir c = Nextop c'" "insn_attr_of (ir_opcode ir) \<noteq> None" "x0_ok ir" "X (c_rv c) 0 = 0"
  shows "X (c_rv c') 0 = 0"
proof (cases "ir_opcode ir = RV32I rv_insn_nop")
  case True
  with assms(1) show ?thesis by (auto simp: impl_def rvop_def alu_def do_nop_def set_X_def)
next
  case False
  from assms(2) obtain a where "insn_attr_of (ir_opcode ir) = Some a" by blast
  from impl_Nextop(1) [OF assms(1) this] False assms(3,4) show ?thesis
    by (auto simp: x_frame_def x0_ok_def)
qed

lemma keep_refines:
  assumes "insn_attr_of (ir_opcode ir) \<noteq> None" "x0_ok ir" "X (c_rv c) 0 = 0"
    and "\<And>d. X (c_rv d) 0 = 0 \<Longrightarrow> refines_nt (exec E irs d) (exec E irs' d)"
  shows "refines_nt (exec E (ir # irs) c) (exec E (ir # irs') c)"
  using assms(4) impl_X0 [OF _ assms(1-3)] by (cases "impl E ir c") simp_all

lemma match_pattern_sound:
  "X (c_rv c) 0 = 0 \<Longrightarrow> fuse_ok irs \<Longrightarrow> short_runs irs \<Longrightarrow>
   refines_nt (exec E irs c) (exec E (match_pattern cfg malloc irs) c)"
proof (induction cfg malloc irs arbitrary: c rule: match_pattern.induct)
  case (3 cfg malloc ir next_ir irs)
  obtain ir' irs' where f: "fuse_at cfg malloc ir next_ir irs = (ir', irs')" by fastforce
  note IH = "3.IH" [OF f [symmetric] refl]
  have mp: "match_pattern cfg malloc (ir # next_ir # irs) = ir' # match_pattern cfg malloc irs'"
    by (simp add: f)
  from fuse_at_cases [OF f "3.prems"(2,3), of E] show ?case
  proof (elim disjE conjE)
    assume "ir' = ir" "irs' = next_ir # irs"
    with IH "3.prems" show ?thesis
      unfolding mp by (auto intro!: keep_refines simp del: exec.simps)
  next
    assume "fuses_prefix E (ir # next_ir # irs) ir' irs'"
    then obtain xs where xs: "ir # next_ir # irs = xs @ irs'" "\<forall>x \<in> set xs. fusable x" "fuses E xs ir'"
      unfolding fuses_prefix_def by blast
    have "\<forall>x \<in> set xs. fusable x \<and> x0_ok x"
      using xs(2) fuse_ok_x0 [OF "3.prems"(2)] unfolding xs(1) by auto
    moreover from "3.prems"(2,3) have "fuse_ok irs'" "short_runs irs'"
      unfolding xs(1) by (auto dest: fuse_ok_append short_runs_append)
    ultimately show ?thesis
      unfolding mp unfolding xs(1) using IH xs(3) "3.prems"(1) by (intro fuses_refines) auto
  next
    assume "ends_block E (ir # next_ir # irs) ir' irs'"
    then show ?thesis unfolding mp using "3.prems"(1) by (simp add: ends_block_def del: exec.simps)
  qed
qed simp_all



section \<open>A run that is too long\<close>

text \<open>Fusing 257 consecutive \<^verbatim>\<open>addi\<close> asks \<^verbatim>\<open>remove_next_nth_ir\<close> to remove
  256 IRs; the \<^verbatim>\<open>uint8_t\<close> parameter makes that 0, and the 256 instructions that are part
  of the fused operation are executed again.\<close>

definition addi_x1 :: rv_insn where
  "addi_x1 = ir_calloc\<lparr>ir_opcode := RV32I rv_insn_addi, ir_rd := 1, ir_rs1 := 1, ir_imm := 1\<rparr>"

lemma addi_x1_sel [simp]:
  "ir_opcode addi_x1 = RV32I rv_insn_addi" "ir_rd addi_x1 = 1" "ir_rs1 addi_x1 = 1"
  "ir_branch_taken addi_x1 = None" "ir_branch_untaken addi_x1 = None"
  by (simp_all add: addi_x1_def ir_calloc_def)

lemma run_addi_x1:
  "run_ops (replicate n (opcode_fuse_of addi_x1)) rv = Some (set_X 1 (X rv 1 + of_nat n) rv)"
proof (induction n arbitrary: rv)
  case (Suc n)
  have "fop (opcode_fuse_of addi_x1) rv = Some (set_X 1 (X rv 1 + 1) rv)"
    by (simp add: fop_def opcode_fuse_of_def addi_x1_def ir_calloc_def)
  with Suc show ?case by (simp add: set_X_def algebra_simps)
qed (simp add: set_X_def)

lemma count_addi_x1: "count_while (\<lambda>ir. ir_opcode ir = RV32I rv_insn_addi) k (replicate n addi_x1) = k + n"
  by (simp add: count_while_takeWhile takeWhile_replicate)

lemma final_X_erase: "erase r = erase s \<Longrightarrow> final_X x r = final_X x s"
  by (cases r; cases s) (auto simp: final_X_def)

lemma exec_addi_x1:
  "erase (exec E (replicate n addi_x1) c) =
   erase (finish (advance n (set_X 1 (X (c_rv c) 1 + of_nat n) (c_rv c)) c))"
proof -
  have "\<forall>ir \<in> set (replicate n addi_x1). fusable ir" by (simp add: fusable_def)
  from exec_fusable [OF this, where c = c and E = E and rest = "[]"] show ?thesis
    by (simp add: run_addi_x1)
qed

lemma final_X_addi_x1: "final_X 1 (exec E (replicate n addi_x1) c) = Some (X (c_rv c) 1 + of_nat n)"
  using final_X_erase [OF exec_addi_x1 [of E n c], of 1] by (simp add: final_X_def finish_def set_X_def)

lemma fuse_addi_x1:
  assumes "1 < n" "n < 2 ^ 31"
  shows "fuse_at cfg (\<lambda>_ _. True) addi_x1 addi_x1 (replicate (n - 2) addi_x1) =
    (fused_run rv_insn_fuse7 (replicate n addi_x1), drop ((n - 1) mod 256) (replicate (n - 1) addi_x1))"
proof -
  obtain k where k: "n = Suc (Suc k)" using assms(1) by (metis less_natE plus_1_eq_Suc)
  have "unat (1 + of_nat k :: u8) = Suc k mod 256"
    using unat_of_nat [where 'a = 8, of "Suc k"] by simp
  then show ?thesis
    by (simp add: k fuse_at_def fuse_addi_def is_shift_imm_def try_fuse_sequence_def count_consecutive_insn_def
      count_addi_x1 remove_next_nth_ir_def unat_of_nat fused_run_def)
qed

lemma addi_x1_ok: "fuse_ok (replicate n addi_x1)" "n \<le> 256 \<Longrightarrow> short_runs (replicate n addi_x1)"
  by (induction n)
    (auto simp: x0_ok_def x_dest_def insn_is_branch_def attr_def is_shift_imm_def takeWhile_replicate)

text \<open>C21. A block of 257 instructions \<^verbatim>\<open>addi x1, x1, 1\<close> adds 257 to
  \<^verbatim>\<open>x1\<close>; after fusion it adds 513. (With \<^verbatim>\<open>x0\<close> zero, any callbacks and a
  \<^verbatim>\<open>malloc\<close> that succeeds.)\<close>

theorem fusion_repeats_run:
  assumes "X rv 0 = 0"
  shows "final_X 1 (run_block E (replicate 257 addi_x1) rv em) = Some (X rv 1 + 257) \<and>
    final_X 1 (run_block E (match_pattern cfg (\<lambda>_ _. True) (replicate 257 addi_x1)) rv em) =
      Some (X rv 1 + 513)"
proof -
  let ?c = "start_ctx rv em"
  let ?d = "advance 257 (set_X 1 (X rv 1 + 257) rv) ?c"
  let ?mp = "match_pattern cfg (\<lambda>_ _. True)"
  have "replicate 257 addi_x1 = addi_x1 # addi_x1 # replicate 255 addi_x1"
    by (simp add: numeral_eq_Suc)
  then have mp: "?mp (replicate 257 addi_x1) = fused_run rv_insn_fuse7 (replicate 257 addi_x1) #
      ?mp (replicate 256 addi_x1)"
    using fuse_addi_x1 [of 257 cfg] by simp
  have "fuses E (replicate 257 addi_x1) (fused_run rv_insn_fuse7 (replicate 257 addi_x1))"
    by (rule fuses_addi_run) simp_all
  then have "erase (impl E (fused_run rv_insn_fuse7 (replicate 257 addi_x1)) ?c) = erase (Nextop ?d)"
    unfolding fuses_def using run_addi_x1 [of 257 rv] by (simp add: start_ctx_def)
  from exec_Nextop [OF this] have fused:
    "erase (exec E (?mp (replicate 257 addi_x1)) ?c) = erase (exec E (?mp (replicate 256 addi_x1)) ?d)"
    unfolding mp .
  have rest: "final_X 1 (exec E (replicate 256 addi_x1) ?d) = Some (X rv 1 + 513)"
    using final_X_addi_x1 [of E 256 ?d] by (simp add: set_X_def)
  have not_trap: "\<not> is_trap (exec E (replicate 256 addi_x1) ?d)"
    unfolding erase_is_trap [OF exec_addi_x1] by (simp add: is_trap_def finish_def)
  have "refines_nt (exec E (replicate 256 addi_x1) ?d) (exec E (?mp (replicate 256 addi_x1)) ?d)"
    using assms by (intro match_pattern_sound addi_x1_ok) (simp_all add: set_X_def)
  then have "erase (exec E (replicate 256 addi_x1) ?d) = erase (exec E (?mp (replicate 256 addi_x1)) ?d)"
    using not_trap rest unfolding refines_nt_def refines_def by (auto simp only: final_X_def outcome.case option.distinct)
  from final_X_erase [OF this, of 1] final_X_erase [OF fused, of 1] rest final_X_addi_x1 [of E 257 ?c]
  show ?thesis by (simp add: run_block_def start_ctx_def)
qed

theorem fusion_repeats_run_witness:
  "\<forall>E. final_X 1 (run_block E (replicate 257 addi_x1) rv_blank emu_init) = Some 257 \<and>
    final_X 1 (run_block E (match_pattern default_features (\<lambda>_ _. True) (replicate 257 addi_x1)) rv_blank
      emu_init) = Some 513"
proof
  fix E
  have x: "X rv_blank 0 = 0" "X rv_blank 1 = 0" by (simp_all add: rv_blank_def)
  from fusion_repeats_run [OF x(1), of E emu_init default_features]
  show "final_X 1 (run_block E (replicate 257 addi_x1) rv_blank emu_init) = Some 257 \<and>
    final_X 1 (run_block E (match_pattern default_features (\<lambda>_ _. True) (replicate 257 addi_x1)) rv_blank
      emu_init) = Some 513"
    unfolding x(2) add_0 .
qed

end
