(* ===== verification/RV_Block_Map.thy ===== *)
theory RV_Block_Map
  imports RV_Run
begin

text \<open>
  The block map of the interpreter: translated blocks in an open-addressing hash table with linear
  probing (\<^verbatim>\<open>block_insert\<close>, \<^verbatim>\<open>block_find\<close> of \<^verbatim>\<open>src/emulate.c\<close>,
  \<^verbatim>\<open>block_map_init\<close>, \<^verbatim>\<open>block_map_clear\<close> of \<^verbatim>\<open>src/riscv.c\<close>). The probe
  loops have no exit but the one at an empty or matching slot, so they are partial functions: not
  returning is \<open>None\<close>.
\<close>

unbundle bit_operations_syntax

section \<open>Blocks and the table\<close>

text \<open>A translated block. \<^verbatim>\<open>ir_head\<close>, \<^verbatim>\<open>ir_tail\<close> and \<^verbatim>\<open>n_insn\<close>
  are the list of its IRs.\<close>

record block =
  pc_start :: u32
  pc_end :: u32
  block_irs :: "rv_insn list"

record block_map =
  block_capacity :: u32
  bm_size :: u32
  bm_map :: "block option list"

abbreviation BLOCK_MAP_CAPACITY_BITS :: nat where "BLOCK_MAP_CAPACITY_BITS \<equiv> 10"

definition block_map_init :: "nat \<Rightarrow> block_map" where
  "block_map_init bits =
     \<lparr>block_capacity = push_bit bits 1, bm_size = 0, bm_map = replicate (2 ^ bits) None\<rparr>"

text \<open>The IRs and blocks go back to their pools.\<close>

definition block_map_clear :: "block_map \<Rightarrow> block_map" where
  "block_map_clear m = m\<lparr>bm_size := 0, bm_map := map (\<lambda>_. None) (bm_map m)\<rparr>"

definition map_hash :: "u32 \<Rightarrow> u32" where
  "map_hash val =
     drop_bit (32 - BLOCK_MAP_CAPACITY_BITS) (val * 0x61C88647) AND (push_bit BLOCK_MAP_CAPACITY_BITS 1 - 1)"

partial_function (option) block_insert_loop :: "block_map \<Rightarrow> block \<Rightarrow> u32 \<Rightarrow> block_map option" where
  "block_insert_loop m b index =
     (let k = unat (index AND (block_capacity m - 1)) in
      if bm_map m ! k = None
      then Some (m\<lparr>bm_map := (bm_map m)[k := Some b], bm_size := bm_size m + 1\<rparr>)
      else block_insert_loop m b (index + 1))"

definition block_insert :: "block_map \<Rightarrow> block \<Rightarrow> block_map option" where
  "block_insert m b = block_insert_loop m b (map_hash (pc_start b))"

partial_function (option) block_find_loop :: "block_map \<Rightarrow> u32 \<Rightarrow> u32 \<Rightarrow> block option option" where
  "block_find_loop m addr index =
     (case bm_map m ! unat (index AND (block_capacity m - 1)) of
        None \<Rightarrow> Some None
      | Some b \<Rightarrow> if pc_start b = addr then Some (Some b) else block_find_loop m addr (index + 1))"

definition block_find :: "block_map \<Rightarrow> u32 \<Rightarrow> block option option" where
  "block_find m addr = block_find_loop m addr (map_hash addr)"

section \<open>The interface of a table of blocks\<close>

text \<open>
  What the interpreter relies on. A lookup always returns; a new block with room for it is
  found afterwards, and every other lookup is unchanged.
\<close>

locale block_table =
  fixes empty :: "'t"
    and insert :: "'t \<Rightarrow> block \<Rightarrow> 't option"
    and find :: "'t \<Rightarrow> u32 \<Rightarrow> block option option"
    and inv :: "'t \<Rightarrow> bool"
    and room :: "'t \<Rightarrow> bool"
    and clear :: "'t \<Rightarrow> 't"
  assumes inv_empty: "inv empty"
    and find_empty: "find empty a = Some None"
    and find_total: "inv t \<Longrightarrow> \<exists>r. find t a = Some r"
    and find_pc: "inv t \<Longrightarrow> find t a = Some (Some b) \<Longrightarrow> pc_start b = a"
    and insert_total: "inv t \<Longrightarrow> room t \<Longrightarrow> find t (pc_start b) = Some None \<Longrightarrow>
      \<exists>t'. insert t b = Some t' \<and> inv t' \<and>
        (\<forall>a. find t' a = (if a = pc_start b then Some (Some b) else find t a))"
    and clear: "inv t \<Longrightarrow> inv (clear t) \<and> room (clear t) \<and> find (clear t) a = Some None"
begin

text \<open>The cache discipline of \<^verbatim>\<open>block_find_or_translate\<close>: look up, make room, insert.\<close>

lemma insert_missing:
  assumes "inv t" "find t (pc_start b) = Some None"
  shows "\<exists>t'. insert (if room t then t else clear t) b = Some t' \<and> inv t' \<and>
    find t' (pc_start b) = Some (Some b) \<and>
    (\<forall>a b'. find t' a = Some (Some b') \<longrightarrow> b' = b \<or> find t a = Some (Some b'))"
proof -
  let ?t = "if room t then t else clear t"
  have t: "inv ?t" "room ?t" "find ?t (pc_start b) = Some None"
    using assms clear [OF assms(1)] by auto
  have "find ?t a = Some (Some b') \<Longrightarrow> find t a = Some (Some b')" for a b'
    using clear [OF assms(1), of a] by (auto split: if_splits)
  with insert_total [OF t] show ?thesis by (metis option.inject)
qed

end

section \<open>Probing\<close>

definition slot :: "u32 \<Rightarrow> nat \<Rightarrow> nat" where
  "slot a j = (unat (map_hash a) + j) mod 1024"

lemma unat_and_1023: "unat (w AND 1023 :: u32) = unat w mod 1024"
proof -
  have "w AND 1023 = take_bit 10 w" by (simp add: take_bit_eq_mask mask_eq_exp_minus_1)
  then show ?thesis by (simp add: take_bit_eq_mod unat_mod)
qed

lemma probe_index: "unat ((map_hash a + of_nat j) AND (1024 - 1)) = slot a j"
proof -
  have "unat (map_hash a + of_nat j) mod 1024 = slot a j"
    by (simp add: unat_word_ariths unat_of_nat slot_def mod_simps mod_mod_cancel)
  then show ?thesis by (simp add: unat_and_1023)
qed

lemma slot_less [simp]: "slot a j < 1024"
  by (simp add: slot_def)

lemma slot_onto:
  assumes "i < 1024"
  shows "\<exists>j < 1024. slot a j = i"
proof -
  have "(x + (i + 1024 - x mod 1024) mod 1024) mod 1024 = i" for x :: nat
  proof -
    have "(x + y mod 1024) mod 1024 = (x mod 1024 + y) mod 1024" for y by (simp add: mod_simps)
    moreover have "x mod 1024 + (i + 1024 - x mod 1024) = i + 1024"
      using mod_less_divisor [of 1024 x] by linarith
    ultimately show ?thesis using assms by simp
  qed
  then show ?thesis
    by (intro exI [of _ "(i + 1024 - unat (map_hash a) mod 1024) mod 1024"]) (simp add: slot_def)
qed

lemma next_index: "map_hash a + of_nat j + 1 = map_hash a + of_nat (Suc j)"
  by simp

definition cell :: "block_map \<Rightarrow> u32 \<Rightarrow> nat \<Rightarrow> block option" where
  "cell m a j = bm_map m ! slot a j"

text \<open>The slots before the one at distance \<open>k\<close> hold blocks with another address.\<close>

definition passes :: "block_map \<Rightarrow> u32 \<Rightarrow> nat \<Rightarrow> bool" where
  "passes m a k \<longleftrightarrow> (\<forall>l < k. \<exists>b. cell m a l = Some b \<and> pc_start b \<noteq> a)"

lemma find_loop_cell:
  assumes "block_capacity m = 1024"
  shows "block_find_loop m a (map_hash a + of_nat j) =
    (case cell m a j of
       None \<Rightarrow> Some None
     | Some b \<Rightarrow> if pc_start b = a then Some (Some b) else block_find_loop m a (map_hash a + of_nat (Suc j)))"
  by (subst block_find_loop.simps)
    (simp only: assms probe_index cell_def next_index)

lemma find_loop_passes:
  assumes "block_capacity m = 1024" "passes m a k"
  shows "block_find m a = block_find_loop m a (map_hash a + of_nat k)"
  using assms(2)
proof (induction k)
  case (Suc k)
  then obtain b where "cell m a k = Some b" "pc_start b \<noteq> a" "passes m a k"
    by (auto simp: passes_def)
  with Suc.IH find_loop_cell [OF assms(1), of a k] show ?case by simp
qed (simp add: block_find_def)

lemma insert_loop_cell:
  assumes "block_capacity m = 1024"
  shows "block_insert_loop m b (map_hash a + of_nat j) =
    (if cell m a j = None
     then Some (m\<lparr>bm_map := (bm_map m)[slot a j := Some b], bm_size := bm_size m + 1\<rparr>)
     else block_insert_loop m b (map_hash a + of_nat (Suc j)))"
  by (subst block_insert_loop.simps)
    (simp only: assms probe_index cell_def next_index Let_def)

lemma insert_loop_filled:
  assumes "block_capacity m = 1024" "\<forall>l < k. cell m (pc_start b) l \<noteq> None"
  shows "block_insert m b = block_insert_loop m b (map_hash (pc_start b) + of_nat k)"
  using assms(2)
proof (induction k)
  case (Suc k)
  with insert_loop_cell [OF assms(1), of b "pc_start b" k] show ?case by simp
qed (simp add: block_insert_def)

section \<open>The invariant\<close>

definition filled :: "block_map \<Rightarrow> nat" where
  "filled m = length (filter (\<lambda>x. x \<noteq> None) (bm_map m))"

definition bm_wf :: "block_map \<Rightarrow> bool" where
  "bm_wf m \<longleftrightarrow> block_capacity m = 1024 \<and> length (bm_map m) = 1024 \<and> unat (bm_size m) = filled m \<and>
     filled m < 1024 \<and>
     (\<forall>i < 1024. \<forall>b. bm_map m ! i = Some b \<longrightarrow> (\<exists>j. slot (pc_start b) j = i \<and> passes m (pc_start b) j))"

lemma empty_cell:
  assumes "bm_wf m"
  shows "\<exists>j. cell m a j = None"
proof -
  have "filter (\<lambda>x. x \<noteq> None) (bm_map m) \<noteq> bm_map m"
    using assms by (auto simp: bm_wf_def filled_def)
  then obtain x where "x \<in> set (bm_map m)" "x = None"
    by (metis (mono_tags, lifting) filter_True)
  then obtain i where "i < 1024" "bm_map m ! i = None"
    using assms by (auto simp: bm_wf_def in_set_conv_nth)
  with slot_onto [of i a] show ?thesis by (auto simp: cell_def)
qed

text \<open>The block with a given address, as a set of cells.\<close>

definition holds :: "block_map \<Rightarrow> block \<Rightarrow> bool" where
  "holds m b \<longleftrightarrow> (\<exists>i < 1024. bm_map m ! i = Some b)"

lemma find_result:
  assumes "bm_wf m"
  shows "\<exists>r. block_find m a = Some r \<and> (\<forall>b. r = Some b \<longleftrightarrow> holds m b \<and> pc_start b = a)"
proof -
  let ?P = "\<lambda>j. \<forall>b. cell m a j = Some b \<longrightarrow> pc_start b = a"
  define k where "k = (LEAST j. ?P j)"
  from empty_cell [OF assms, of a] have "\<exists>j. ?P j" by (metis option.distinct(1))
  then have k: "?P k" unfolding k_def by (rule LeastI_ex)
  have "\<not> ?P l" if "l < k" for l using not_less_Least [of l ?P] that unfolding k_def .
  then have pk: "passes m a k" by (auto simp: passes_def)
  have cap: "block_capacity m = 1024" using assms by (simp add: bm_wf_def)
  have r: "block_find m a = Some (cell m a k)"
    using find_loop_passes [OF cap pk] find_loop_cell [OF cap, of a k] k by (auto split: option.splits)
  have "cell m a k = Some b" if b: "holds m b" "pc_start b = a" for b
  proof -
    from b assms obtain j where j: "cell m a j = Some b" "passes m a j"
      by (auto simp: holds_def bm_wf_def cell_def)
    have "j = k"
    proof (rule linorder_cases [of j k])
      assume "j < k"
      with pk j(1) b(2) show ?thesis by (auto simp: passes_def)
    next
      assume "k < j"
      with j(2) k show ?thesis by (auto simp: passes_def)
    qed
    with j(1) show ?thesis by simp
  qed
  moreover have "holds m b \<and> pc_start b = a" if "cell m a k = Some b" for b
    using that k by (auto simp: holds_def cell_def intro: slot_less)
  ultimately show ?thesis using r by blast
qed

lemma filled_update:
  assumes "i < length (bm_map m)" "bm_map m ! i = None"
  shows "filled (m\<lparr>bm_map := (bm_map m)[i := Some b], bm_size := n\<rparr>) = Suc (filled m)"
proof -
  let ?n = "\<lambda>xs :: block option list. length (filter (\<lambda>x. x \<noteq> None) xs)"
  have "bm_map m = take i (bm_map m) @ None # drop (Suc i) (bm_map m)"
    using id_take_nth_drop [OF assms(1)] assms(2) by simp
  from arg_cong [OF this, of ?n]
  have "filled m = ?n (take i (bm_map m)) + ?n (drop (Suc i) (bm_map m))"
    unfolding filled_def filter_append length_append by simp
  then show ?thesis
    unfolding filled_def by (simp add: upd_conv_take_nth_drop [OF assms(1)])
qed

lemma cell_update:
  assumes "length (bm_map m) = 1024"
  shows "cell (m\<lparr>bm_map := (bm_map m)[i := Some b], bm_size := n\<rparr>) a j =
    (if slot a j = i then Some b else cell m a j)"
  using assms slot_less [of a j] by (auto simp: cell_def nth_list_update)

lemma passes_update:
  assumes "length (bm_map m) = 1024" "bm_map m ! i = None" "passes m a k"
  shows "passes (m\<lparr>bm_map := (bm_map m)[i := Some b], bm_size := n\<rparr>) a k"
  using assms(2,3) unfolding passes_def cell_update [OF assms(1)] by (auto simp: cell_def)

lemma insert_result:
  assumes "bm_wf m" "filled m < 1023" "\<nexists>b'. holds m b' \<and> pc_start b' = pc_start b"
  shows "\<exists>m'. block_insert m b = Some m' \<and> bm_wf m' \<and> (\<forall>b'. holds m' b' \<longleftrightarrow> b' = b \<or> holds m b')"
proof -
  let ?a = "pc_start b"
  from assms(1) have cap: "block_capacity m = 1024" and len: "length (bm_map m) = 1024"
    and size: "unat (bm_size m) = filled m"
    and inv: "\<And>i b. i < 1024 \<Longrightarrow> bm_map m ! i = Some b \<Longrightarrow>
      \<exists>j. slot (pc_start b) j = i \<and> passes m (pc_start b) j"
    by (auto simp: bm_wf_def)
  define k where "k = (LEAST j. cell m ?a j = None)"
  from empty_cell [OF assms(1), of ?a] have k: "cell m ?a k = None"
    unfolding k_def by (rule LeastI_ex)
  have before: "\<forall>l < k. cell m ?a l \<noteq> None"
    unfolding k_def using not_less_Least by blast
  let ?i = "slot ?a k"
  let ?m = "m\<lparr>bm_map := (bm_map m)[?i := Some b], bm_size := bm_size m + 1\<rparr>"
  have res: "block_insert m b = Some ?m"
    using insert_loop_filled [OF cap before] insert_loop_cell [OF cap, of b ?a k] k by simp
  have empty: "bm_map m ! ?i = None" using k by (simp add: cell_def)
  have filled: "filled ?m = Suc (filled m)" 
    using empty len by (intro filled_update) simp_all
  have "unat (bm_size m + 1) = Suc (unat (bm_size m))"
    using assms(2) size by (simp add: unat_word_ariths)
  then have size': "unat (bm_size ?m) = filled ?m" using filled size by simp
  have new: "passes m ?a k"
    unfolding passes_def
  proof (intro allI impI)
    fix l
    assume "l < k"
    with before obtain b' where "cell m ?a l = Some b'" by blast
    moreover from this have "holds m b'" unfolding holds_def cell_def using slot_less by blast
    ultimately show "\<exists>b'. cell m ?a l = Some b' \<and> pc_start b' \<noteq> ?a" using assms(3) by blast
  qed
  have "\<exists>j. slot (pc_start b') j = i \<and> passes ?m (pc_start b') j"
    if "i < 1024" "bm_map ?m ! i = Some b'" for i b'
  proof (cases "i = ?i")
    case True
    with that len have "b' = b" by simp
    with True passes_update [OF len empty new] show ?thesis by blast
  next
    case False
    with that len inv [of i b'] passes_update [OF len empty] show ?thesis by auto
  qed
  then have "bm_wf ?m"
    using cap len size' filled assms(2) by (auto simp: bm_wf_def)
  moreover have "holds ?m b' \<longleftrightarrow> b' = b \<or> holds m b'" for b'
    using len empty slot_less [of ?a k] by (auto simp: holds_def nth_list_update intro: exI [of _ ?i] split: if_splits)
  ultimately show ?thesis using res by blast
qed

section \<open>The block map implements the interface\<close>

text \<open>The test \<^verbatim>\<open>map->size * 1.25 > map->block_capacity\<close> that makes
  \<^verbatim>\<open>block_find_or_translate\<close> clear the map; the product is exact in \<^verbatim>\<open>double\<close>.\<close>

definition nearly_full :: "block_map \<Rightarrow> bool" where
  "nearly_full m \<longleftrightarrow> 5 * unat (bm_size m) > 4 * unat (block_capacity m)"

lemma bm_wf_empty:
  assumes "block_capacity m = 1024" "bm_size m = 0" "bm_map m = replicate 1024 None"
  shows "bm_wf m" "block_find m a = Some None"
proof -
  show wf: "bm_wf m" using assms by (simp add: bm_wf_def filled_def)
  have "\<not> holds m b" for b by (simp add: holds_def assms)
  with find_result [OF wf, of a] show "block_find m a = Some None" by (metis not_None_eq)
qed

lemma block_find_holds:
  assumes "bm_wf m"
  shows "block_find m a = Some (Some b) \<longleftrightarrow> holds m b \<and> pc_start b = a"
    and "block_find m a = Some None \<longleftrightarrow> (\<nexists>b. holds m b \<and> pc_start b = a)"
  using find_result [OF assms, of a] by (metis not_None_eq option.inject)+

lemma block_insert_find:
  assumes "bm_wf m" "\<not> nearly_full m" "block_find m (pc_start b) = Some None"
  shows "\<exists>m'. block_insert m b = Some m' \<and> bm_wf m' \<and>
    (\<forall>a. block_find m' a = (if a = pc_start b then Some (Some b) else block_find m a))"
proof -
  have "filled m < 1023" using assms(1,2) by (simp add: bm_wf_def nearly_full_def)
  with insert_result [OF assms(1)] block_find_holds(2) [OF assms(1)] assms(3)
  obtain m' where m': "block_insert m b = Some m'" "bm_wf m'" "\<And>b'. holds m' b' \<longleftrightarrow> b' = b \<or> holds m b'"
    by metis
  have "block_find m' a = (if a = pc_start b then Some (Some b) else block_find m a)" for a
  proof -
    obtain r where r: "block_find m a = Some r" "\<And>b. r = Some b \<longleftrightarrow> holds m b \<and> pc_start b = a"
      using find_result [OF assms(1), of a] by blast
    obtain r' where r': "block_find m' a = Some r'" "\<And>b. r' = Some b \<longleftrightarrow> holds m' b \<and> pc_start b = a"
      using find_result [OF m'(2), of a] by blast
    show ?thesis
    proof (cases "a = pc_start b")
      case True
      with r' m'(3) have "r' = Some b" by simp
      with True r'(1) show ?thesis by simp
    next
      case False
      then have "r' = Some x \<longleftrightarrow> r = Some x" for x using r(2) r'(2) m'(3) by auto
      then have "r' = r" by (cases r; cases r') auto
      with False r(1) r'(1) show ?thesis by simp
    qed
  qed
  with m'(1,2) show ?thesis by blast
qed

interpretation bmap: block_table "block_map_init BLOCK_MAP_CAPACITY_BITS" block_insert block_find bm_wf
  "\<lambda>m. \<not> nearly_full m" block_map_clear
proof
  fix m a b
  show "bm_wf (block_map_init BLOCK_MAP_CAPACITY_BITS)"
    "block_find (block_map_init BLOCK_MAP_CAPACITY_BITS) a = Some None"
    by (auto intro!: bm_wf_empty simp: block_map_init_def)
  assume m: "bm_wf m"
  show "\<exists>r. block_find m a = Some r" using find_result [OF m, of a] by blast
  show "block_find m a = Some (Some b) \<Longrightarrow> pc_start b = a" using block_find_holds(1) [OF m] by blast
  show "\<not> nearly_full m \<Longrightarrow> block_find m (pc_start b) = Some None \<Longrightarrow>
    \<exists>m'. block_insert m b = Some m' \<and> bm_wf m' \<and>
      (\<forall>a. block_find m' a = (if a = pc_start b then Some (Some b) else block_find m a))"
    using block_insert_find [OF m] .
  show "bm_wf (block_map_clear m) \<and> \<not> nearly_full (block_map_clear m) \<and>
    block_find (block_map_clear m) a = Some None"
    using bm_wf_empty(1) [of "block_map_clear m"] bm_wf_empty(2) [of "block_map_clear m" a] m
    by (simp add: block_map_clear_def bm_wf_def nearly_full_def map_replicate_const)
qed

text \<open>C18. Looking up an address in a well-formed block map always returns, whatever the address:
  the map is never full, so the probe loop reaches an empty slot. What it returns is the block
  stored for that address, if there is one.\<close>

theorem block_find_terminates:
  assumes "bm_wf m"
  shows "\<exists>r. block_find m a = Some r \<and> (\<forall>b. r = Some b \<longleftrightarrow> Some b \<in> set (bm_map m) \<and> pc_start b = a)"
proof -
  have "holds m b \<longleftrightarrow> Some b \<in> set (bm_map m)" for b
    using assms by (auto simp: holds_def bm_wf_def in_set_conv_nth)
  with find_result [OF assms, of a] show ?thesis by simp
qed

text \<open>C19. The cache discipline of the interpreter: for a block whose address is not in a well-formed
  map, insertion (into the map, or into the cleared map when it is more than four fifths full)
  returns a well-formed map in which the block is found under its address, and in which
  nothing else is found that was not found before.\<close>

theorem block_insert_lookup:
  assumes "bm_wf m" "block_find m (pc_start b) = Some None"
  shows "\<exists>m'. block_insert (if nearly_full m then block_map_clear m else m) b = Some m' \<and> bm_wf m' \<and>
    block_find m' (pc_start b) = Some (Some b) \<and>
    (\<forall>a b'. block_find m' a = Some (Some b') \<longrightarrow> b' = b \<or> block_find m a = Some (Some b'))"
  using bmap.insert_missing [OF assms] by (cases "nearly_full m") simp_all

theorem block_find_terminates_witness:
  "\<exists>r. block_find (block_map_init BLOCK_MAP_CAPACITY_BITS) 0x1000 = Some r \<and>
     (\<forall>b. r = Some b \<longleftrightarrow>
       Some b \<in> set (bm_map (block_map_init BLOCK_MAP_CAPACITY_BITS)) \<and> pc_start b = 0x1000)"
  using block_find_terminates [OF bmap.inv_empty] .

theorem block_insert_lookup_witness:
  "\<exists>m. block_insert (block_map_init BLOCK_MAP_CAPACITY_BITS)
       \<lparr>pc_start = 0x1000, pc_end = 0x1004, block_irs = [ir_calloc]\<rparr> = Some m \<and>
     block_find m 0x1000 = Some (Some \<lparr>pc_start = 0x1000, pc_end = 0x1004, block_irs = [ir_calloc]\<rparr>)"
proof -
  let ?m = "block_map_init BLOCK_MAP_CAPACITY_BITS"
  let ?b = "\<lparr>pc_start = 0x1000, pc_end = 0x1004, block_irs = [ir_calloc]\<rparr>"
  have "\<not> nearly_full ?m" by (simp add: nearly_full_def block_map_init_def)
  then show ?thesis
    using block_insert_lookup [OF bmap.inv_empty bmap.find_empty, of ?b] by auto
qed

text \<open>Without the invariant the loop need not end: in a full map the search for an address that is
  not there never returns.\<close>

definition full_without :: "block_map \<Rightarrow> u32 \<Rightarrow> bool" where
  "full_without m a \<longleftrightarrow> block_capacity m = 1024 \<and> length (bm_map m) = 1024 \<and>
     (\<forall>x \<in> set (bm_map m). \<exists>b. x = Some b \<and> pc_start b \<noteq> a)"

lemma block_find_loop_full: "block_find_loop m a i = Some r \<Longrightarrow> \<not> full_without m a"
proof (rule block_find_loop.raw_induct [where P = "\<lambda>m a i r. \<not> full_without m a"])
  fix loop :: "block_map \<Rightarrow> u32 \<Rightarrow> u32 \<Rightarrow> block option option" and m a i r
  assume IH: "\<And>m a i r. loop m a i = Some r \<Longrightarrow> \<not> full_without m a"
    and step: "(case bm_map m ! unat (i AND (block_capacity m - 1)) of None \<Rightarrow> Some None
      | Some b \<Rightarrow> if pc_start b = a then Some (Some b) else loop m a (i + 1)) = Some r"
  show "\<not> full_without m a"
  proof
    assume full: "full_without m a"
    then have "unat (i AND (block_capacity m - 1)) < length (bm_map m)"
      by (simp add: full_without_def unat_and_1023)
    then have "bm_map m ! unat (i AND (block_capacity m - 1)) \<in> set (bm_map m)" by (rule nth_mem)
    with full obtain b where "bm_map m ! unat (i AND (block_capacity m - 1)) = Some b" "pc_start b \<noteq> a"
      unfolding full_without_def by blast
    with step have "loop m a (i + 1) = Some r" by simp
    with IH full show False by blast
  qed
qed

lemma block_find_full: "full_without m a \<Longrightarrow> block_find m a = None"
  unfolding block_find_def
  using block_find_loop_full [of m a "map_hash a"] by (cases "block_find_loop m a (map_hash a)") auto

end
