(* ===== verification/RV_Block.thy ===== *)
theory RV_Block
  imports RV_Fuse RV_Block_Map
begin

text \<open>
  From guest memory to an executable block: \<^verbatim>\<open>block_translate\<close> and
  \<^verbatim>\<open>block_find_or_translate\<close> of \<^verbatim>\<open>src/emulate.c\<close>, and what their result is.
\<close>

unbundle bit_operations_syntax

section \<open>Translation\<close>

text \<open>
  Whether the allocations of a translation succeed: the IR with the given index from its pool, and
  the branch history table of an indirect jump.
\<close>

record allocator =
  ir_alloc :: "nat \<Rightarrow> bool"
  table_alloc :: bool
  block_mp_alloc :: bool
  fuse_malloc :: "rv_insn \<Rightarrow> nat \<Rightarrow> bool"

text \<open>How the loop of \<^verbatim>\<open>block_translate\<close> ends: with the IRs translated so far, or with an
  allocation failure.\<close>

datatype translation = Stop riscv "rv_insn list" u32 | Fail

definition insn_size :: "u32 \<Rightarrow> u32" where
  "insn_size insn = (if is_compressed insn then 2 else 4)"

text \<open>
  \<open>irs\<close> are the IRs translated so far and \<open>pc\<close> is \<^verbatim>\<open>block->pc_end\<close>. The result is
  \<open>None\<close> when the fetch leaves the guest memory, the decoder fails an assertion, the trap
  handler is undefined, or the loop does not end.
\<close>

partial_function (option) translate_loop ::
  "features \<Rightarrow> env \<Rightarrow> allocator \<Rightarrow> riscv \<Rightarrow> u32 \<Rightarrow> rv_insn list \<Rightarrow> translation option" where
  "translate_loop cfg E al rv pc irs =
     (case memory_ifetch (mem rv) pc of
        None \<Rightarrow> None
      | Some insn \<Rightarrow>
          if insn = 0 then Some (Stop rv irs pc)
          else
            (case rv_decode cfg ir_calloc insn of
               Aborted \<Rightarrow> None
             | Illegal _ \<Rightarrow>
                 map_option (\<lambda>rv. Stop rv irs pc)
                   (set_cause_and_tval_then_trap (on_trap E) ILLEGAL_INSN insn
                      (rv\<lparr>compressed := is_compressed insn\<rparr>))
             | Decoded ir \<Rightarrow>
                 if insn_is_branch (ir_opcode ir) then
                   (if insn_is_indirect_branch (ir_opcode ir) \<and> \<not> table_alloc al then Some Fail
                    else Some (Stop rv (irs @ [ir\<lparr>ir_pc := pc\<rparr>]) (pc + insn_size insn)))
                 else if ir_alloc al (Suc (length irs)) then
                   translate_loop cfg E al rv (pc + insn_size insn) (irs @ [ir\<lparr>ir_pc := pc\<rparr>])
                 else Some Fail))"

text \<open>The block, if any, and the hart, which the handler of an illegal instruction may have changed.\<close>

definition block_translate ::
  "features \<Rightarrow> env \<Rightarrow> allocator \<Rightarrow> riscv \<Rightarrow> (block option \<times> riscv) option" where
  "block_translate cfg E al rv =
     (if \<not> ir_alloc al 0 then Some (None, rv)
      else
        (case translate_loop cfg E al rv (PC rv) [] of
           None \<Rightarrow> None
         | Some Fail \<Rightarrow> Some (None, rv)
         | Some (Stop rv' irs pc) \<Rightarrow>
             if irs = [] then Some (None, rv')
             else Some (Some \<lparr>pc_start = PC rv, pc_end = pc, block_irs = irs\<rparr>, rv')))"

definition block_find_or_translate ::
  "features \<Rightarrow> env \<Rightarrow> allocator \<Rightarrow> riscv \<Rightarrow> block_map \<Rightarrow> u32 option \<Rightarrow>
     (block option \<times> riscv \<times> block_map \<times> u32 option) option" where
  "block_find_or_translate cfg E al rv m prev =
     (case block_find m (PC rv) of
        None \<Rightarrow> None
      | Some (Some b) \<Rightarrow> Some (Some b, rv, m, prev)
      | Some None \<Rightarrow>
          (let (m, prev) = (if nearly_full m then (block_map_clear m, None) else (m, prev)) in
           if \<not> block_mp_alloc al then Some (None, rv, m, prev)
           else
             (case block_translate cfg E al rv of
                None \<Rightarrow> None
              | Some (None, rv') \<Rightarrow> Some (None, rv', m, prev)
              | Some (Some b, rv') \<Rightarrow>
                  (case optimize_constant rv' (block_irs b) of
                     None \<Rightarrow> None
                   | Some irs \<Rightarrow>
                       (let b' = b\<lparr>block_irs := match_pattern cfg (fuse_malloc al) irs\<rparr> in
                        map_option (\<lambda>m'. (Some b', rv', m', prev)) (block_insert m b'))))))"

section \<open>A block as the guest memory has it\<close>

text \<open>The address after a list of IRs that are the decoded instructions at consecutive addresses.\<close>

fun decode_chain :: "features \<Rightarrow> memory \<Rightarrow> u32 \<Rightarrow> rv_insn list \<Rightarrow> u32 option" where
  "decode_chain cfg m pc [] = Some pc"
| "decode_chain cfg m pc (ir # irs) =
     (case memory_ifetch m pc of
        None \<Rightarrow> None
      | Some insn \<Rightarrow>
          (case rv_decode cfg ir_calloc insn of
             Decoded ir0 \<Rightarrow>
               if insn \<noteq> 0 \<and> ir = ir0\<lparr>ir_pc := pc\<rparr> then decode_chain cfg m (pc + insn_size insn) irs
               else None
           | _ \<Rightarrow> None))"

abbreviation straight :: "rv_insn list \<Rightarrow> bool" where
  "straight irs \<equiv> list_all (\<lambda>ir. \<not> insn_is_branch (ir_opcode ir)) irs"

text \<open>Why translation stops at an address.\<close>

definition ends_at :: "features \<Rightarrow> memory \<Rightarrow> rv_insn list \<Rightarrow> u32 \<Rightarrow> bool" where
  "ends_at cfg m irs pc \<longleftrightarrow> irs \<noteq> [] \<and> insn_is_branch (ir_opcode (last irs)) \<or>
     memory_ifetch m pc = Some 0 \<or>
     (\<exists>insn ir. memory_ifetch m pc = Some insn \<and> rv_decode cfg ir_calloc insn = Illegal ir)"

lemma decode_chain_append:
  "decode_chain cfg m pc (xs @ ys) = Option.bind (decode_chain cfg m pc xs) (\<lambda>pc'. decode_chain cfg m pc' ys)"
  by (induction xs arbitrary: pc) (auto split: option.splits decode_result.splits)

lemma straight_butlast: "straight irs \<Longrightarrow> straight (butlast irs)"
  by (auto simp: list_all_iff dest: in_set_butlastD)

definition stops_ok :: "features \<Rightarrow> u32 \<Rightarrow> riscv \<Rightarrow> u32 \<Rightarrow> rv_insn list \<Rightarrow> translation \<Rightarrow> bool" where
  "stops_ok cfg pc0 rv pc irs r \<longleftrightarrow> (case r of
      Fail \<Rightarrow> True
    | Stop rv' irs' pc' \<Rightarrow>
        decode_chain cfg (mem rv) pc0 irs = Some pc \<longrightarrow> straight irs \<longrightarrow>
        decode_chain cfg (mem rv) pc0 irs' = Some pc' \<and> straight (butlast irs') \<and>
        ends_at cfg (mem rv) irs' pc')"

lemma translate_loop_stops: "translate_loop cfg E al rv pc irs = Some r \<Longrightarrow> stops_ok cfg pc0 rv pc irs r"
proof (rule translate_loop.raw_induct [where P = "\<lambda>cfg E al rv pc irs. stops_ok cfg pc0 rv pc irs"])
  fix loop :: "features \<Rightarrow> env \<Rightarrow> allocator \<Rightarrow> riscv \<Rightarrow> u32 \<Rightarrow> rv_insn list \<Rightarrow> translation option"
    and cfg E al rv pc irs r
  assume IH: "\<And>cfg E al rv pc irs r. loop cfg E al rv pc irs = Some r \<Longrightarrow> stops_ok cfg pc0 rv pc irs r"
  assume step: "(case memory_ifetch (mem rv) pc of
        None \<Rightarrow> None
      | Some insn \<Rightarrow>
          if insn = 0 then Some (Stop rv irs pc)
          else
            (case rv_decode cfg ir_calloc insn of
               Decoded ir \<Rightarrow>
                 if insn_is_branch (ir_opcode ir) then
                   (if insn_is_indirect_branch (ir_opcode ir) \<and> \<not> table_alloc al then Some Fail
                    else Some (Stop rv (irs @ [ir\<lparr>ir_pc := pc\<rparr>]) (pc + insn_size insn)))
                 else if ir_alloc al (Suc (length irs)) then
                   loop cfg E al rv (pc + insn_size insn) (irs @ [ir\<lparr>ir_pc := pc\<rparr>])
                 else Some Fail
             | Illegal _ \<Rightarrow>
                 map_option (\<lambda>rv. Stop rv irs pc)
                   (set_cause_and_tval_then_trap (on_trap E) ILLEGAL_INSN insn
                      (rv\<lparr>compressed := is_compressed insn\<rparr>))
             | Aborted \<Rightarrow> None)) = Some r"
  then obtain insn where i: "memory_ifetch (mem rv) pc = Some insn" by (cases "memory_ifetch (mem rv) pc") auto
  show "stops_ok cfg pc0 rv pc irs r"
  proof (cases "insn = 0 \<or> (\<exists>ir. rv_decode cfg ir_calloc insn = Illegal ir)")
    case True
    then have "\<exists>rv'. r = Stop rv' irs pc" using step i by (auto split: if_splits)
    then show ?thesis using True i by (auto simp: stops_ok_def ends_at_def straight_butlast)
  next
    case False
    with step i obtain ir where ir: "rv_decode cfg ir_calloc insn = Decoded ir"
      by (cases "rv_decode cfg ir_calloc insn") auto
    let ?irs = "irs @ [ir\<lparr>ir_pc := pc\<rparr>]" and ?pc = "pc + insn_size insn"
    have chain: "decode_chain cfg (mem rv) pc0 ?irs = Some ?pc"
      if "decode_chain cfg (mem rv) pc0 irs = Some pc"
      using that False by (simp add: decode_chain_append i ir)
    show ?thesis
    proof (cases "insn_is_branch (ir_opcode ir)")
      case True
      with step i ir False chain show ?thesis
        by (auto simp: stops_ok_def ends_at_def split: if_splits)
    next
      case nb: False
      with step i ir False have "r = Fail \<or> loop cfg E al rv ?pc ?irs = Some r" by (auto split: if_splits)
      then show ?thesis
      proof
        assume "loop cfg E al rv ?pc ?irs = Some r"
        from IH [OF this] chain nb show ?thesis by (cases r) (simp_all add: stops_ok_def)
      qed (simp add: stops_ok_def)
    qed
  qed
qed

lemma translate_loop_complete:
  assumes "decode_chain cfg (mem rv) pc ys = Some pc'" "straight (butlast ys)"
    and "if ys \<noteq> [] \<and> insn_is_branch (ir_opcode (last ys)) then table_alloc al
      else memory_ifetch (mem rv) pc' = Some 0"
    and "\<And>n. ir_alloc al n"
  shows "translate_loop cfg E al rv pc irs = Some (Stop rv (irs @ ys) pc')"
  using assms(1-3)
proof (induction ys arbitrary: pc irs)
  case Nil
  then show ?case by (subst translate_loop.simps) simp
next
  case (Cons ir ys)
  from Cons.prems(1) obtain insn ir0 where i: "memory_ifetch (mem rv) pc = Some insn" "insn \<noteq> 0"
    "rv_decode cfg ir_calloc insn = Decoded ir0" "ir = ir0\<lparr>ir_pc := pc\<rparr>"
    "decode_chain cfg (mem rv) (pc + insn_size insn) ys = Some pc'"
    by (auto split: option.splits decode_result.splits if_splits)
  show ?case
  proof (cases "insn_is_branch (ir_opcode ir)")
    case True
    with Cons.prems(2) have "ys = []" by (cases ys) auto
    with True Cons.prems i show ?thesis by (subst translate_loop.simps) simp
  next
    case False
    have "translate_loop cfg E al rv (pc + insn_size insn) (irs @ [ir]) =
      Some (Stop rv ((irs @ [ir]) @ ys) pc')"
      using False Cons.prems(2,3) i(5) by (intro Cons.IH) (auto split: if_splits)
    with False i assms(4) show ?thesis by (subst translate_loop.simps) simp
  qed
qed

section \<open>An example\<close>

text \<open>\<^verbatim>\<open>lui x1, 0x1; addi x2, x1, 4; jal x0, 0\<close> at address 0.\<close>

definition rv_example :: riscv where
  "rv_example = rv_blank\<lparr>mem := \<lparr>mem_base = (\<lambda>i. if i < 12
     then [0xB7, 0x10, 0, 0, 0x13, 0x81, 0x40, 0, 0x6F, 0, 0, 0] ! i else 0), mem_size = 4096\<rparr>\<rparr>"

definition irs_example :: "rv_insn list" where
  "irs_example = [ir_calloc\<lparr>ir_imm := 0x1000, ir_rd := 1, ir_opcode := RV32I rv_insn_lui\<rparr>,
     ir_calloc\<lparr>ir_imm := 4, ir_rd := 2, ir_rs1 := 1, ir_opcode := RV32I rv_insn_addi, ir_pc := 4\<rparr>,
     ir_calloc\<lparr>ir_opcode := RV32I rv_insn_jal, ir_pc := 8\<rparr>]"

definition al_example :: allocator where
  "al_example = \<lparr>ir_alloc = (\<lambda>_. True), table_alloc = True, block_mp_alloc = True,
     fuse_malloc = (\<lambda>_ _. True)\<rparr>"

lemma fetch_example:
  "memory_ifetch (mem rv_example) 0 = Some 0x000010B7" "memory_ifetch (mem rv_example) 4 = Some 0x00408113"
  "memory_ifetch (mem rv_example) 8 = Some 0x0000006F"
  by (simp_all add: rv_example_def memory_ifetch_def load_bytes_def bytes_to_word_def upt_rec)

lemma decode_example:
  "rv_decode default_features ir_calloc 0x000010B7 =
     Decoded (ir_calloc\<lparr>ir_imm := 0x1000, ir_rd := 1, ir_opcode := RV32I rv_insn_lui\<rparr>)"
  "rv_decode default_features ir_calloc 0x00408113 =
     Decoded (ir_calloc\<lparr>ir_imm := 4, ir_rd := 2, ir_rs1 := 1, ir_opcode := RV32I rv_insn_addi\<rparr>)"
  "rv_decode default_features ir_calloc 0x0000006F = Decoded (ir_calloc\<lparr>ir_opcode := RV32I rv_insn_jal\<rparr>)"
  by (simp_all add: rv_decode_def default_features_def is_compressed_def op_index_def mask_defs
      rv_jump_table_def op_lui_def op_op_imm_def op_jal_def format_defs field_defs set_opcode_def
      rv32e_check_def ir_calloc_def Let_def)

lemma pc_example: "PC rv_example = 0"
  by (simp add: rv_example_def rv_blank_def)

lemma chain_example:
  "decode_chain default_features (mem rv_example) (PC rv_example) irs_example = Some 12"
  "straight (butlast irs_example)" "insn_is_branch (ir_opcode (last irs_example))"
  by (simp_all add: irs_example_def pc_example fetch_example decode_example insn_size_def
      is_compressed_def mask_defs insn_is_branch_def attr_def) (simp add: ir_calloc_def)

lemma translate_example:
  "block_translate default_features E al_example rv_example =
     Some (Some \<lparr>pc_start = 0, pc_end = 12, block_irs = irs_example\<rparr>, rv_example)"
proof -
  have al: "\<And>n. ir_alloc al_example n" "table_alloc al_example" by (simp_all add: al_example_def)
  from translate_loop_complete [OF chain_example(1,2) _ al(1), of E "[]"] chain_example(3) al
  show ?thesis by (simp add: block_translate_def irs_example_def pc_example)
qed

section \<open>What translation does\<close>

lemma block_translate_stops:
  assumes "block_translate cfg E al rv = Some (Some b, rv')"
  shows "pc_start b = PC rv \<and> block_irs b \<noteq> [] \<and> stops_ok cfg (PC rv) rv (PC rv) [] (Stop rv' (block_irs b) (pc_end b))"
proof -
  from assms obtain irs pc where l: "translate_loop cfg E al rv (PC rv) [] = Some (Stop rv' irs pc)"
    "irs \<noteq> []" "b = \<lparr>pc_start = PC rv, pc_end = pc, block_irs = irs\<rparr>"
    by (auto simp: block_translate_def split: if_splits option.splits translation.splits)
  from translate_loop_stops [OF l(1), of "PC rv"] l(2,3) show ?thesis by simp
qed

text \<open>C16. A translated block is what the guest memory holds: its IRs are the decoded instructions at
  consecutive addresses from the program counter up to its end address, with a branch at most in
  the last place; and it is as long as possible, since it ends with a branch, or where the memory
  holds zero or an illegal instruction.\<close>

theorem block_translate_faithful:
  assumes "block_translate cfg E al rv = Some (Some b, rv')"
  shows "pc_start b = PC rv \<and> block_irs b \<noteq> [] \<and>
    decode_chain cfg (mem rv) (PC rv) (block_irs b) = Some (pc_end b) \<and>
    straight (butlast (block_irs b)) \<and> ends_at cfg (mem rv) (block_irs b) (pc_end b)"
  using block_translate_stops [OF assms] by (simp add: stops_ok_def)

theorem block_translate_faithful_witness:
  "decode_chain default_features (mem rv_example) (PC rv_example) irs_example = Some 12 \<and>
   ends_at default_features (mem rv_example) irs_example 12"
  using block_translate_faithful [OF translate_example] by (simp add: pc_example)

text \<open>C17. Translation succeeds: when the allocations succeed and the guest memory holds, from the
  program counter on, a sequence of legal instructions that ends with a branch or before a zero
  word, \<^verbatim>\<open>block_translate\<close> returns the block of exactly these instructions and leaves the
  hart as it is.\<close>

theorem block_translate_complete:
  assumes "irs \<noteq> []" "decode_chain cfg (mem rv) (PC rv) irs = Some pc" "straight (butlast irs)"
    and "insn_is_branch (ir_opcode (last irs)) \<or> memory_ifetch (mem rv) pc = Some 0"
    and "\<And>n. ir_alloc al n" "table_alloc al"
  shows "block_translate cfg E al rv = Some (Some \<lparr>pc_start = PC rv, pc_end = pc, block_irs = irs\<rparr>, rv)"
proof -
  have "if irs \<noteq> [] \<and> insn_is_branch (ir_opcode (last irs)) then table_alloc al
      else memory_ifetch (mem rv) pc = Some 0"
    using assms(1,4,6) by auto
  from translate_loop_complete [OF assms(2,3) this assms(5), of E "[]"] assms(1) show ?thesis
    by (simp add: block_translate_def assms(5))
qed

theorem block_translate_complete_witness:
  "\<forall>E. block_translate default_features E al_example rv_example =
     Some (Some \<lparr>pc_start = PC rv_example, pc_end = 12, block_irs = irs_example\<rparr>, rv_example)"
proof
  fix E
  show "block_translate default_features E al_example rv_example =
     Some (Some \<lparr>pc_start = PC rv_example, pc_end = 12, block_irs = irs_example\<rparr>, rv_example)"
    using chain_example
    by (intro block_translate_complete) (simp_all add: irs_example_def al_example_def)
qed

section \<open>Translated blocks and the optimisations\<close>

text \<open>The instructions both passes handle: not \<^verbatim>\<open>sc.w\<close>, and nothing but
  \<^verbatim>\<open>nop\<close> that writes \<^verbatim>\<open>x0\<close>.\<close>

definition plain :: "rv_insn \<Rightarrow> bool" where
  "plain ir \<longleftrightarrow> ir_opcode ir \<noteq> RV32A rv_insn_scw \<and> x0_ok ir"

lemma decoded_constopt_ok:
  assumes "rv_decode cfg ir_calloc insn = Decoded ir" "plain (ir\<lparr>ir_pc := pc\<rparr>)"
  shows "constopt_ok (ir\<lparr>ir_pc := pc\<rparr>)"
  using rv_decode_fresh [of cfg insn] assms by (auto simp: fresh_def constopt_ok_def plain_def x0_ok_def)

lemma decoded_len:
  assumes "EXT_C cfg" "rv_decode cfg ir_calloc insn = Decoded ir" "\<not> insn_is_branch (ir_opcode ir)"
  shows "ir_len (ir\<lparr>ir_pc := pc\<rparr>) = insn_size insn"
proof -
  have "ir_opcode ir \<noteq> RV32I rv_insn_ebreak" using assms(3) by (auto simp: insn_is_branch_def attr_def)
  with rv_decode_sat(2) [of cfg insn] assms(1,2) show ?thesis
    by (auto simp: opcode_ok16_def opcode_ok32_def insn_len_def ir_len_def insn_size_def split: if_splits)
qed

lemma decode_chain_block_ok:
  assumes "EXT_C cfg"
  shows "decode_chain cfg m pc irs = Some pc' \<Longrightarrow> straight (butlast irs) \<Longrightarrow> list_all plain irs \<Longrightarrow>
    block_ok pc irs"
proof (induction irs arbitrary: pc)
  case (Cons ir irs)
  from Cons.prems(1) obtain insn ir0 where i: "rv_decode cfg ir_calloc insn = Decoded ir0"
    "ir = ir0\<lparr>ir_pc := pc\<rparr>" "decode_chain cfg m (pc + insn_size insn) irs = Some pc'"
    by (auto split: option.splits decode_result.splits if_splits)
  have ok: "constopt_ok ir" using decoded_constopt_ok i Cons.prems(3) by simp
  show ?case
  proof (cases "irs = []")
    case True
    with ok i show ?thesis by simp
  next
    case False
    with Cons.prems(2) have nb: "\<not> insn_is_branch (ir_opcode ir)" by simp
    with False Cons.prems i ok Cons.IH [of "pc + insn_size insn"] decoded_len [OF assms i(1), of pc]
    show ?thesis by simp
  qed
qed simp

text \<open>Constant propagation turns such a block into one that fusion handles.\<close>

definition fuse_ready :: "rv_insn \<Rightarrow> bool" where
  "fuse_ready ir \<longleftrightarrow> insn_attr_of (ir_opcode ir) \<noteq> None \<and> x0_ok ir \<and> ir_branch_taken ir = None \<and>
     ir_branch_untaken ir = None"

lemmas rewrite_defs = opt_defs opt_imm_def opt_reg_def opt_creg_def opt_update_def opt_branch_func_def
  opt_cbranch_def to_lui_def to_clui_def fuse_ready_def x0_ok_def x_dest_def insn_is_branch_def attr_def nz_def

lemma constopt_fuse_ready_rv32i:
  "ir_opcode ir = RV32I i \<Longrightarrow> fuse_ready ir \<Longrightarrow> constopt_ok ir \<Longrightarrow> rv32i_constopt i ir info = Some (ir', info') \<Longrightarrow>
   fuse_ready ir' \<and> insn_is_branch (ir_opcode ir') = insn_is_branch (ir_opcode ir)"
  by (cases i) (auto simp: constopt_defs rewrite_defs constopt_ok_def is_cond_branch_def Let_def split: if_splits)

lemma constopt_fuse_ready_rv32m:
  "ir_opcode ir = RV32M i \<Longrightarrow> fuse_ready ir \<Longrightarrow> rv32m_constopt i ir info = Some (ir', info') \<Longrightarrow>
   fuse_ready ir' \<and> insn_is_branch (ir_opcode ir') = insn_is_branch (ir_opcode ir)"
  by (cases i) (auto simp: constopt_defs rewrite_defs Let_def split: if_splits)

lemma constopt_fuse_ready_rv32c:
  "ir_opcode ir = RV32C i \<Longrightarrow> fuse_ready ir \<Longrightarrow> rv32c_constopt i ir info = Some (ir', info') \<Longrightarrow>
   fuse_ready ir' \<and> insn_is_branch (ir_opcode ir') = insn_is_branch (ir_opcode ir)"
  by (cases i) (auto simp: constopt_defs rewrite_defs Let_def split: if_splits)

lemma constopt_kept:
  "rvpriv_constopt i1 ir info = Some (ir', info') \<Longrightarrow> ir' = ir"
  "rvzifencei_constopt i2 ir info = Some (ir', info') \<Longrightarrow> ir' = ir"
  "rvzicsr_constopt i3 ir info = Some (ir', info') \<Longrightarrow> ir' = ir"
  "rvzba_constopt i4 ir info = Some (ir', info') \<Longrightarrow> ir' = ir"
  "rvzbb_constopt i5 ir info = Some (ir', info') \<Longrightarrow> ir' = ir"
  "rvzbc_constopt i6 ir info = Some (ir', info') \<Longrightarrow> ir' = ir"
  "rvzbs_constopt i7 ir info = Some (ir', info') \<Longrightarrow> ir' = ir"
  "rv32a_constopt i8 ir info = Some (ir', info') \<Longrightarrow> ir' = ir"
  "rv32f_constopt i9 ir info = Some (ir', info') \<Longrightarrow> ir' = ir"
  "rv32fc_constopt i10 ir info = Some (ir', info') \<Longrightarrow> ir' = ir"
  apply (cases i1; simp add: opt_defs)
  apply (cases i2; simp add: opt_defs)
  apply (cases i3; simp add: opt_defs)
  apply (cases i4; simp add: opt_defs)
  apply (cases i5; simp add: opt_defs)
  apply (cases i6; simp add: opt_defs)
  apply (cases i7; simp add: opt_defs)
  apply (cases i8; simp add: opt_defs)
  apply (cases i9; simp add: opt_defs)
  apply (cases i10; simp add: opt_defs)
  done

lemma constopt_fuse_ready:
  assumes "constopt ir info = Some (ir', info')" "fuse_ready ir" "constopt_ok ir"
  shows "fuse_ready ir' \<and> insn_is_branch (ir_opcode ir') = insn_is_branch (ir_opcode ir)"
  using assms constopt_fuse_ready_rv32i [of ir _ info ir' info'] constopt_fuse_ready_rv32m [of ir _ info ir' info']
    constopt_fuse_ready_rv32c [of ir _ info ir' info']
  by (cases "ir_opcode ir") (auto dest: constopt_kept)

lemma constopt_loop_fuse_ok:
  "constopt_loop irs info = Some irs' \<Longrightarrow> block_ok pc irs \<Longrightarrow> list_all x0_ok irs \<Longrightarrow>
   fuse_ok irs' \<and> length irs' = length irs"
proof (induction irs arbitrary: info irs' pc)
  case (Cons ir irs)
  from Cons.prems(1) obtain ir' info' irs'' where i: "constopt ir info = Some (ir', info')"
    "constopt_loop irs info' = Some irs''" "irs' = ir' # irs''"
    by (auto split: option.splits)
  from Cons.prems(2,3) have "fuse_ready ir" "constopt_ok ir" by (simp_all add: fuse_ready_def constopt_ok_def)
  from constopt_fuse_ready [OF i(1) this] Cons.IH [OF i(2)] Cons.prems(2,3) i(3) show ?case
    by (auto simp: fuse_ready_def)
qed simp

lemma short_runs_length: "length irs \<le> 256 \<Longrightarrow> short_runs irs"
  by (induction irs) (auto intro: order_trans [OF length_takeWhile_le] le_trans [OF length_takeWhile_le])

lemma optimize_constant_run:
  assumes "optimize_constant rv irs = Some irs'" "block_ok (PC rv) irs"
  shows "X rv 0 = 0" "constopt_loop irs constopt_init = Some irs'"
    "refines (run_block E irs rv em) (run_block E irs' rv em)"
proof -
  from assms(1) show x0: "X rv 0 = 0" and l: "constopt_loop irs constopt_init = Some irs'"
    by (auto simp: optimize_constant_def split: if_splits)
  with assms(2) constopt_loop_sound [of "start_ctx rv em" irs constopt_init irs' E] approx_init [of rv]
  show "refines (run_block E irs rv em) (run_block E irs' rv em)" by (simp add: run_block_def start_ctx_def)
qed

lemma is_trap_erase: "erase r = erase s \<Longrightarrow> is_trap r = is_trap s"
  by (cases r; cases s) (simp_all add: is_trap_def)

lemma refines_nt_trans:
  assumes "refines r s" "refines_nt s t" "\<not> is_trap r"
  shows "refines r t"
  using assms is_trap_erase [of r s] by (cases r; cases s) (auto simp: refines_nt_def refines_def)

lemma optimise_fuse_refines:
  assumes "optimize_constant rv irs = Some irs'" "block_ok (PC rv) irs" "list_all x0_ok irs"
    and "length irs \<le> 256" "\<not> is_trap (run_block E irs rv em)"
  shows "refines (run_block E irs rv em) (run_block E (match_pattern cfg malloc irs') rv em)"
proof -
  note o = optimize_constant_run [OF assms(1,2)]
  have "fuse_ok irs'" "short_runs irs'"
    using constopt_loop_fuse_ok [OF o(2) assms(2,3)] assms(4) by (auto intro: short_runs_length)
  then have "refines_nt (run_block E irs' rv em) (run_block E (match_pattern cfg malloc irs') rv em)"
    using match_pattern_sound [of "start_ctx rv em" irs' E cfg malloc] o(1)
    by (simp add: run_block_def start_ctx_def)
  with o(3) assms(5) show ?thesis by (blast intro: refines_nt_trans)
qed

lemma find_or_translate_miss:
  assumes "block_find_or_translate cfg E al rv m prev = Some (Some b', rv', m', prev')"
    "block_find m (PC rv) = Some None" "block_translate cfg E al rv = Some (Some b, rv1)"
  shows "\<exists>irs. optimize_constant rv1 (block_irs b) = Some irs \<and>
    b' = b\<lparr>block_irs := match_pattern cfg (fuse_malloc al) irs\<rparr> \<and> rv' = rv1 \<and>
    block_insert (if nearly_full m then block_map_clear m else m) b' = Some m'"
  using assms by (auto simp: block_find_or_translate_def Let_def split: if_splits option.splits)


lemma pipeline_example:
  "optimize_constant rv_example irs_example = Some (irs_example[1 :=
     ir_calloc\<lparr>ir_imm := 0x1004, ir_rd := 2, ir_rs1 := 1, ir_opcode := RV32I rv_insn_lui, ir_pc := 4\<rparr>])"
  "list_all plain irs_example" "length irs_example \<le> 256"
  "run_block E irs_example rv_example em \<noteq> Undef" "\<not> is_trap (run_block E irs_example rv_example em)"
  subgoal by (simp add: irs_example_def optimize_constant_def rv_example_def rv_blank_def constopt_init_def constopt_lui_def
    constopt_addi_def constopt_jal_def opt_defs opt_imm_def Let_def to_lui_def set_const_def ir_calloc_def)
  subgoal by (simp add: irs_example_def plain_def x0_ok_def x_dest_def nz_def attr_def insn_is_branch_def ir_calloc_def)
  subgoal by (simp add: irs_example_def)
  subgoal by (simp add: irs_example_def run_block_def impl_def rvop_def do_lui_def do_addi_def do_jal_def
    exec_defs set_X_def start_ctx_def rv_example_def rv_blank_def ir_calloc_def attr_def)
  subgoal by (simp add: irs_example_def run_block_def impl_def rvop_def do_lui_def do_addi_def do_jal_def is_trap_def
    exec_defs set_X_def start_ctx_def rv_example_def rv_blank_def ir_calloc_def attr_def)
  done


section \<open>Illegal instructions\<close>

lemma translate_loop_prefix:
  assumes "\<And>n. ir_alloc al n"
  shows "decode_chain cfg (mem rv) pc ys = Some pc' \<Longrightarrow> straight ys \<Longrightarrow>
    translate_loop cfg E al rv pc irs = translate_loop cfg E al rv pc' (irs @ ys)"
proof (induction ys arbitrary: pc irs)
  case (Cons ir ys)
  from Cons.prems(1) obtain insn ir0 where i: "memory_ifetch (mem rv) pc = Some insn" "insn \<noteq> 0"
    "rv_decode cfg ir_calloc insn = Decoded ir0" "ir = ir0\<lparr>ir_pc := pc\<rparr>"
    "decode_chain cfg (mem rv) (pc + insn_size insn) ys = Some pc'"
    by (auto split: option.splits decode_result.splits if_splits)
  have "translate_loop cfg E al rv pc irs = translate_loop cfg E al rv (pc + insn_size insn) (irs @ [ir])"
    using Cons.prems(2) i assms by (subst translate_loop.simps) simp
  with Cons.IH [OF i(5), of "irs @ [ir]"] Cons.prems(2) show ?case by simp
qed simp

lemma translate_loop_illegal:
  assumes "memory_ifetch (mem rv) pc = Some insn" "insn \<noteq> 0" "rv_decode cfg ir_calloc insn = Illegal ir"
  shows "translate_loop cfg E al rv pc irs = map_option (\<lambda>rv. Stop rv irs pc)
    (set_cause_and_tval_then_trap (on_trap E) ILLEGAL_INSN insn (rv\<lparr>compressed := is_compressed insn\<rparr>))"
  using assms by (subst translate_loop.simps) simp

lemma trap_machine_mode:
  assumes "priv_mode rv = RV_PRIV_M_MODE" "csr rv csr_mtvec \<noteq> 0" "csr rv csr_mtvec AND 3 = 0"
  shows "\<exists>rv'. set_cause_and_tval_then_trap (trap_handler cfg) cause tval rv = Some rv' \<and>
    csr rv' csr_mepc = PC rv \<and> csr rv' csr_mcause = cause \<and> csr rv' csr_mtval = tval \<and>
    PC rv' = csr rv csr_mtvec AND NOT 3 \<and> X rv' = X rv \<and> mem rv' = mem rv"
proof -
  have "\<not> (3::u32) \<le> 1" by (simp add: word_le_nat_alt)
  with assms show ?thesis
    by (simp add: set_cause_and_tval_then_trap_def set_cause_and_tval_def trap_handler_def
      set_csr_def goto_vector_def Let_def)
qed

text \<open>C20. An illegal instruction raises its exception when the block before it is translated, not
  when it is reached. With a trap vector installed in machine mode, \<^verbatim>\<open>block_translate\<close> enters the
  handler with the address of the \<^emph>\<open>first\<close> instruction of the block in \<^verbatim>\<open>mepc\<close>, none of the
  instructions before the illegal one having been executed, and still returns the block of these
  instructions; \<^verbatim>\<open>rv_step\<close> then runs them with the program counter at the trap vector.
  The architecture wants the instructions before it executed and its own address in \<^verbatim>\<open>mepc\<close>.\<close>

theorem illegal_insn_mid_block:
  assumes "irs \<noteq> []" "decode_chain cfg (mem rv) (PC rv) irs = Some pc" "straight irs"
    and "memory_ifetch (mem rv) pc = Some insn" "insn \<noteq> 0" "rv_decode cfg ir_calloc insn = Illegal ir"
    and "\<And>n. ir_alloc al n" "on_trap E = trap_handler cfg"
    and "priv_mode rv = RV_PRIV_M_MODE" "csr rv csr_mtvec \<noteq> 0" "csr rv csr_mtvec AND 3 = 0"
  shows "\<exists>rv'. block_translate cfg E al rv = Some (Some \<lparr>pc_start = PC rv, pc_end = pc, block_irs = irs\<rparr>, rv') \<and>
    csr rv' csr_mepc = PC rv \<and> csr rv' csr_mcause = ILLEGAL_INSN \<and> csr rv' csr_mtval = insn \<and>
    PC rv' = csr rv csr_mtvec AND NOT 3 \<and> X rv' = X rv \<and> mem rv' = mem rv"
  using translate_loop_prefix [OF assms(7,2,3), of E "[]"] translate_loop_illegal [OF assms(4-6), of E al irs]
    trap_machine_mode [of "rv\<lparr>compressed := is_compressed insn\<rparr>" cfg ILLEGAL_INSN insn] assms(1,7-11)
  by (auto simp: block_translate_def)

text \<open>\<^verbatim>\<open>lui x1, 0x1; .word 0xffffffff\<close>\<close>

definition rv_illegal :: riscv where
  "rv_illegal = rv_blank\<lparr>mem := \<lparr>mem_base = (\<lambda>i. if i < 4 then [0xB7, 0x10, 0, 0] ! i else 0xFF), mem_size = 4096\<rparr>,
     csr := (\<lambda>_. 0)(csr_mtvec := 0x100), priv_mode := RV_PRIV_M_MODE\<rparr>"

lemma fetch_illegal:
  "memory_ifetch (mem rv_illegal) 0 = Some 0x000010B7" "memory_ifetch (mem rv_illegal) 4 = Some 0xFFFFFFFF"
  by (simp_all add: rv_illegal_def memory_ifetch_def load_bytes_def bytes_to_word_def upt_rec)

theorem illegal_insn_mid_block_witness:
  "\<forall>lib clock sys. \<exists>rv' b.
     block_translate default_features (user_io default_features lib clock sys) al_example rv_illegal = Some (Some b, rv') \<and>
     map ir_opcode (block_irs b) = [RV32I rv_insn_lui] \<and> csr rv' csr_mepc = 0 \<and> PC rv' = 0x100"
proof (intro allI)
  fix lib clock sys
  let ?E = "user_io default_features lib clock sys"
  have E: "on_trap ?E = trap_handler default_features" by (simp add: user_io_def)
  let ?irs = "[ir_calloc\<lparr>ir_imm := 0x1000, ir_rd := 1, ir_opcode := RV32I rv_insn_lui, ir_pc := 0\<rparr>]"
  have pc: "PC rv_illegal = 0" by (simp add: rv_illegal_def rv_blank_def)
  have c: "decode_chain default_features (mem rv_illegal) (PC rv_illegal) ?irs = Some 4" "straight ?irs"
    by (simp_all add: pc fetch_illegal decode_example insn_size_def is_compressed_def mask_defs
      insn_is_branch_def attr_def)
  have "rv_decode default_features ir_calloc 0xFFFFFFFF = Illegal ir_calloc"
    by (simp add: rv_decode_def default_features_def is_compressed_def op_index_def mask_defs
      rv_jump_table_def op_unimp_def rv32e_check_def Let_def)
  from illegal_insn_mid_block [OF _ c fetch_illegal(2) _ this _ E, of al_example]
  show "\<exists>rv' b. block_translate default_features ?E al_example rv_illegal = Some (Some b, rv') \<and>
        map ir_opcode (block_irs b) = [RV32I rv_insn_lui] \<and> csr rv' csr_mepc = 0 \<and> PC rv' = 0x100"
    by (auto simp: pc al_example_def rv_illegal_def rv_blank_def)
qed

end
