(* ===== verification/RV_Flow.thy ===== *)
theory RV_Flow
  imports RV_Block
begin

text \<open>
  Control flow of a translated block. Only the last operation of a block may transfer control; every
  other one passes on to its successor, at a distance that depends on the operation alone, or leaves
  the block with an exception. The links to other blocks decide how control gets to its destination,
  not which destination it is.
\<close>

unbundle bit_operations_syntax

section \<open>Where control goes\<close>

text \<open>The operations that may leave a block.\<close>

definition flow :: "rv_insn \<Rightarrow> bool" where
  "flow ir \<longleftrightarrow> insn_is_branch (ir_opcode ir) \<or>
     ir_opcode ir \<in> {RVPriv rv_insn_wfi, Fuse rv_insn_fuse6, Fuse rv_insn_fuse12}"

definition op_len :: "rv_insn \<Rightarrow> u32" where
  "op_len ir = (case ir_opcode ir of
      Fuse i \<Rightarrow> if i \<in> {rv_insn_fuse1, rv_insn_fuse3, rv_insn_fuse4, rv_insn_fuse5, rv_insn_fuse7}
        then ir_imm2 ir * 4 else 8
    | _ \<Rightarrow> ir_len ir)"

definition same_flow :: "emu \<Rightarrow> emu \<Rightarrow> bool" where
  "same_flow em em' \<longleftrightarrow> last_pc em' = last_pc em \<and> is_branch_taken em' = is_branch_taken em"

text \<open>Control passes on by \<open>n\<close>, or the block is left by an exception.\<close>

definition goes :: "u32 \<Rightarrow> ctx \<Rightarrow> outcome \<Rightarrow> bool" where
  "goes n c r \<longleftrightarrow> (case r of
      Nextop c' \<Rightarrow> c_pc c' = c_pc c + n \<and> same_flow (c_em c) (c_em c')
    | Return b rv em \<Rightarrow> \<not> b
    | Undef \<Rightarrow> True
    | _ \<Rightarrow> False)"

lemma same_flow_refl [simp]: "same_flow em em"
  by (simp add: same_flow_def)

lemma trace_flow [simp]:
  "last_pc (rv_trace_record em n p t a) = last_pc em"
  "is_branch_taken (rv_trace_record em n p t a) = is_branch_taken em"
  by (simp_all add: rv_trace_record_def Let_def split: option.split)

lemma goes_simps [simp]:
  "goes n c (Nextop c') \<longleftrightarrow> c_pc c' = c_pc c + n \<and> same_flow (c_em c) (c_em c')"
  "goes n c (Return b rv em) \<longleftrightarrow> \<not> b" "goes n c Undef"
  by (simp_all add: goes_def)

lemma trace_mem_em [simp]: "same_flow em (c_em (trace_mem a c)) = same_flow em (c_em c)"
  by (simp add: trace_mem_def same_flow_def)

lemma c_em_write [simp]: "c_em (write_X r v c) = c_em c" "c_em (write_F r v c) = c_em c"
  by (simp_all add: write_X_def write_F_def)

lemma goes_alu [simp]: "goes 0 c (alu f c)"
  by (simp add: alu_def)

lemma goes_from_option [simp]: "goes 0 c (from_option r c)"
  by (simp add: from_option_def split: option.split)

lemma goes_read_mem [simp]:
  "(\<And>v. goes n c (k v)) \<Longrightarrow> goes n c (read_mem rd a c' k)"
  by (simp add: read_mem_def split: option.split)

lemma goes_write_mem [simp]:
  "(\<And>m. goes n c (k (c'\<lparr>c_rv := (c_rv c')\<lparr>mem := m\<rparr>\<rparr>))) \<Longrightarrow> goes n c (write_mem wr a v c' k)"
  by (simp add: write_mem_def split: option.split)

lemma goes_misalign [simp]: "goes n c k \<Longrightarrow> goes n c (exc_misalign_handler E msk cause cmp a c' k)"
  by (simp add: exc_misalign_handler_def split: option.split)

lemma goes_fp [simp]: "goes 0 c (fp_arith rm op wr c)" "goes 0 c (fp_compare cmp ir c)"
  by (simp_all add: fp_arith_def fp_compare_def Let_def split: option.split prod.split)

lemma goes_amo_op [simp]: "goes 0 c (amo_op f E ir c)"
  unfolding amo_op_def Let_def by simp

lemmas branch_defs = insn_is_branch_def attr_def

lemma goes_rv32i: "\<not> insn_is_branch (RV32I i) \<Longrightarrow> goes 0 c (rv32i_body i E ir c)"
  by (cases i) (simp_all add: branch_defs template_defs Let_def)

lemma goes_rvpriv: "i \<noteq> rv_insn_wfi \<Longrightarrow> \<not> insn_is_branch (RVPriv i) \<Longrightarrow> goes 0 c (rvpriv_body i E ir c)"
  by (cases i) (simp_all add: branch_defs template_defs Let_def)

lemma goes_rvzifencei: "\<not> insn_is_branch (RVZifencei i) \<Longrightarrow> goes 0 c (rvzifencei_body i E ir c)"
  by (cases i) (simp_all add: branch_defs template_defs Let_def)

lemma goes_rvzicsr: "goes 0 c (rvzicsr_body i E ir c)"
  by (cases i) (simp_all add: branch_defs template_defs Let_def split: prod.split)

lemma goes_rvzba: "goes 0 c (rvzba_body i E ir c)"
  by (cases i) (simp_all add: template_defs)

lemma goes_rvzbb: "goes 0 c (rvzbb_body i E ir c)"
  by (cases i) (simp_all add: template_defs Let_def)

lemma goes_rvzbc: "goes 0 c (rvzbc_body i E ir c)"
  by (cases i) (simp_all add: template_defs)

lemma goes_rvzbs: "goes 0 c (rvzbs_body i E ir c)"
  by (cases i) (simp_all add: template_defs)

lemma goes_rv32m: "goes 0 c (rv32m_body i E ir c)"
  by (cases i) (simp_all add: template_defs)

lemma goes_rv32a: "goes 0 c (rv32a_body i E ir c)"
  by (cases i) (simp_all add: template_defs Let_def)

lemma goes_rv32f: "goes 0 c (rv32f_body i E ir c)"
  by (cases i) (simp_all add: template_defs Let_def split: prod.split)

lemma goes_rv32c: "\<not> insn_is_branch (RV32C i) \<Longrightarrow> goes 0 c (rv32c_body i E ir c)"
  by (cases i) (simp_all add: branch_defs template_defs Let_def)

lemma goes_rv32fc: "goes 0 c (rv32fc_body i E ir c)"
  by (cases i) (simp_all add: template_defs Let_def)

lemma goes_next_or_stop [simp]:
  "goes n c (fuse_next_or_stop n c') \<longleftrightarrow> c_pc c' = c_pc c \<and> same_flow (c_em c) (c_em c')"
  by (simp add: fuse_next_or_stop_def)

lemma fuse_enter_flow [simp]:
  "c_pc (fuse_enter ir n c) = c_pc c" "same_flow em (c_em (fuse_enter ir n c)) = same_flow em (c_em c)"
  by (simp_all add: fuse_enter_def count_insn_def same_flow_def)

lemma goes_fuse_alu [simp]: "goes (ir_imm2 ir * 4) c (fuse_alu op ir c)"
  by (simp add: fuse_alu_def Let_def split: option.split)

lemma goes_fuse3_loop:
  "c_pc d = c_pc c \<Longrightarrow> same_flow (c_em c) (c_em d) \<Longrightarrow> goes n c (fuse3_loop E fs d (fuse_next_or_stop n))"
  by (induction fs arbitrary: d) (simp_all add: Let_def)

lemma goes_fuse4_loop:
  "c_pc d = c_pc c \<Longrightarrow> same_flow (c_em c) (c_em d) \<Longrightarrow> goes n c (fuse4_loop E fs d (fuse_next_or_stop n))"
  by (induction fs arbitrary: d) (simp_all add: Let_def)

lemma goes_fuse:
  "i \<notin> {rv_insn_fuse6, rv_insn_fuse12} \<Longrightarrow>
   goes (if i \<in> {rv_insn_fuse1, rv_insn_fuse3, rv_insn_fuse4, rv_insn_fuse5, rv_insn_fuse7}
     then ir_imm2 ir * 4 else 8) c (fuse_impl i E ir c)"
  by (cases i) (simp_all add: do_fuse1_def do_fuse2_def do_fuse3_def do_fuse4_def do_fuse5_def do_fuse7_def do_fuse8_def
      do_fuse9_def do_fuse10_def do_fuse11_def goes_fuse3_loop goes_fuse4_loop Let_def split: option.split)

lemma rvop_enter_flow: "same_flow (c_em c) (c_em (rvop_enter ir c))"
  by (simp add: rvop_enter_def count_insn_def same_flow_def)

lemma goes_rvop:
  assumes "\<And>c. goes 0 c (body c)"
  shows "goes (of_nat n) c (rvop n body ir c)"
  using assms [of "rvop_enter ir c"] rvop_enter_flow [of c ir]
  by (cases "body (rvop_enter ir c)") (auto simp: rvop_def goes_def same_flow_def)

lemma goes_op_body:
  "\<not> flow ir \<Longrightarrow> insn_attr_of (ir_opcode ir) \<noteq> None \<Longrightarrow> goes 0 c (op_body (ir_opcode ir) E ir c)"
  unfolding flow_def
  by (cases "ir_opcode ir") (simp_all add: goes_rv32i goes_rvpriv goes_rvzifencei goes_rvzicsr goes_rvzba
    goes_rvzbb goes_rvzbc goes_rvzbs goes_rv32m goes_rv32a goes_rv32f goes_rv32c goes_rv32fc
    del: rv32i_body.simps rvpriv_body.simps rvzifencei_body.simps rvzicsr_body.simps rvzba_body.simps
    rvzbb_body.simps rvzbc_body.simps rvzbs_body.simps rv32m_body.simps rv32a_body.simps rv32f_body.simps
    rv32c_body.simps rv32fc_body.simps)

lemma attr_None: "insn_attr_of op = None \<longleftrightarrow> (\<exists>i. op = Fuse i)"
  by (cases op) simp_all

lemma goes_impl:
  assumes "\<not> flow ir"
  shows "goes (op_len ir) c (impl E ir c)"
proof (cases "insn_attr_of (ir_opcode ir)")
  case None
  then obtain i where i: "ir_opcode ir = Fuse i" by (auto simp: attr_None)
  with assms goes_fuse [of i ir c E] None show ?thesis by (simp add: impl_def op_len_def flow_def)
next
  case (Some a)
  then have "op_len ir = of_nat (attr_insn_len a)"
    by (cases "ir_opcode ir") (simp_all add: op_len_def ir_len_def)
  with goes_rvop [of "op_body (ir_opcode ir) E ir" "attr_insn_len a" c ir] goes_op_body [OF assms] Some
  show ?thesis by (simp add: impl_def)
qed

section \<open>The last operation of a block\<close>

text \<open>The jumps and branches that may continue in another block, and where they go.\<close>

abbreviation direct_ops :: "opcode set" where
  "direct_ops \<equiv> {RV32I rv_insn_jal, RV32C rv_insn_cj, RV32C rv_insn_cjal}"

abbreviation cond_ops :: "opcode set" where
  "cond_ops \<equiv> {RV32C rv_insn_cbeqz, RV32C rv_insn_cbnez, Fuse rv_insn_fuse12}"

definition disp :: "rv_insn \<Rightarrow> u32" where
  "disp ir = (if ir_opcode ir = Fuse rv_insn_fuse12 then 4 + ir_imm2 ir else ir_imm ir)"

definition tail_ok :: "rv_insn \<Rightarrow> ctx \<Rightarrow> outcome \<Rightarrow> bool" where
  "tail_ok ir c r \<longleftrightarrow> (let op = ir_opcode ir in case r of
      Nextop c' \<Rightarrow> c_pc c' = c_pc c + op_len ir \<and> last_pc (c_em c') = last_pc (c_em c) \<and> op \<notin> direct_ops \<and>
        (op \<in> cond_ops \<longrightarrow> \<not> is_branch_taken (c_em c'))
    | Return b rv em \<Rightarrow> b \<longrightarrow> last_pc em = last_pc (c_em c) \<and>
        (op \<in> direct_ops \<longrightarrow> PC rv = c_pc c + disp ir) \<and>
        (op \<in> cond_ops \<longrightarrow> PC rv = (if is_branch_taken em then c_pc c + disp ir else c_pc c + op_len ir))
    | Taken c' \<Rightarrow> op \<in> direct_ops \<union> cond_ops \<and> ir_branch_taken ir \<noteq> None \<and>
        c_pc c' = c_pc c + disp ir \<and> last_pc (c_em c') = c_pc c'
    | Untaken c' \<Rightarrow> op \<in> cond_ops \<and> ir_branch_untaken ir \<noteq> None \<and>
        c_pc c' = c_pc c + op_len ir \<and> last_pc (c_em c') = c_pc c'
    | Indirect c' \<Rightarrow> last_pc (c_em c') = last_pc (c_em c) \<and> op \<notin> direct_ops \<union> cond_ops
    | End_op c' \<Rightarrow> False
    | Undef \<Rightarrow> True)"

lemma goes_tail_ok:
  assumes "ir_opcode ir \<notin> direct_ops \<union> cond_ops" "goes (op_len ir) c r"
  shows "tail_ok ir c r"
  using assms by (cases r) (auto simp: tail_ok_def goes_def same_flow_def Let_def)

lemma tail_rvzicsr:
  assumes "ir_opcode ir = RVZicsr i"
  shows "tail_ok ir c (impl E ir c)"
proof (rule goes_tail_ok)
  show "goes (op_len ir) c (impl E ir c)"
    using goes_rvop [of "rvzicsr_body i E ir" "attr_insn_len (rvzicsr_insn_attr i)" c ir] goes_rvzicsr assms
    by (simp add: impl_def op_len_def ir_len_def)
qed (use assms in simp)

lemma enter_flow [simp]:
  "last_pc (c_em (rvop_enter ir c)) = last_pc (c_em c)"
  using rvop_enter_flow [of c ir] by (simp add: same_flow_def)

lemmas flow_defs = finish_def callback_def branch_func_def cbranch_def set_last_pc_def write_X_def write_F_def

lemma tail_rv32i: "ir_opcode ir = RV32I i \<Longrightarrow> insn_is_branch (RV32I i) \<Longrightarrow> tail_ok ir c (impl E ir c)"
  by (cases i) (auto simp: impl_def rvop_def branch_defs template_defs flow_defs Let_def tail_ok_def op_len_def ir_len_def
      disp_def prof_on_jal_def split: option.split)

lemma tail_rvpriv: "ir_opcode ir = RVPriv i \<Longrightarrow> flow ir \<Longrightarrow> tail_ok ir c (impl E ir c)"
  by (cases i) (auto simp: impl_def rvop_def flow_def branch_defs template_defs flow_defs Let_def tail_ok_def
    split: option.split)

lemma tail_rvzifencei: "ir_opcode ir = RVZifencei i \<Longrightarrow> tail_ok ir c (impl E ir c)"
  by (cases i) (auto simp: impl_def rvop_def template_defs flow_defs Let_def tail_ok_def)

lemma tail_rv32c: "ir_opcode ir = RV32C i \<Longrightarrow> insn_is_branch (RV32C i) \<Longrightarrow> tail_ok ir c (impl E ir c)"
  by (cases i) (auto simp: impl_def rvop_def branch_defs template_defs flow_defs Let_def tail_ok_def op_len_def ir_len_def
      disp_def split: option.split)

lemma tail_fuse: "ir_opcode ir = Fuse i \<Longrightarrow> flow ir \<Longrightarrow> tail_ok ir c (impl E ir c)"
  by (cases i) (auto simp: impl_def flow_def branch_defs do_fuse6_def do_fuse12_def fuse_simps Let_def tail_ok_def
      op_len_def disp_def split: option.split)

lemma never_branch [simp]:
  "\<not> insn_is_branch (RVZba i2)" "\<not> insn_is_branch (RVZbb i3)"
  "\<not> insn_is_branch (RVZbc i4)" "\<not> insn_is_branch (RVZbs i5)" "\<not> insn_is_branch (RV32M i6)"
  "\<not> insn_is_branch (RV32A i7)" "\<not> insn_is_branch (RV32F i8)" "\<not> insn_is_branch (RV32FC i9)"
  subgoal by (cases i2) (simp_all add: branch_defs)
  subgoal by (cases i3) (simp_all add: branch_defs)
  subgoal by (cases i4) (simp_all add: branch_defs)
  subgoal by (cases i5) (simp_all add: branch_defs)
  subgoal by (cases i6) (simp_all add: branch_defs)
  subgoal by (cases i7) (simp_all add: branch_defs)
  subgoal by (cases i8) (simp_all add: branch_defs)
  subgoal by (cases i9) (simp_all add: branch_defs)
  done

lemma tail_impl: "tail_ok ir c (impl E ir c)"
proof (cases "flow ir")
  case True
  then show ?thesis
    by (cases "ir_opcode ir") (auto intro: tail_rv32i tail_rvpriv tail_rvzifencei tail_rvzicsr tail_rv32c tail_fuse
      simp: flow_def)
next
  case False
  then have "ir_opcode ir \<notin> direct_ops \<union> cond_ops" by (auto simp: flow_def branch_defs)
  then show ?thesis by (rule goes_tail_ok) (rule goes_impl [OF False])
qed

section \<open>Where a block goes\<close>

definition no_flow :: "rv_insn list \<Rightarrow> bool" where
  "no_flow irs \<longleftrightarrow> list_all (\<lambda>ir. \<not> flow ir) irs"

definition span :: "rv_insn list \<Rightarrow> u32" where
  "span irs = sum_list (map op_len irs)"

text \<open>A block either stops before its last operation, by an exception, or runs it.\<close>

lemma exec_to_last:
  assumes "no_flow xs"
  shows "exec E (xs @ [ir]) c = Undef \<or> (\<exists>rv em. exec E (xs @ [ir]) c = Return False rv em) \<or>
    (\<exists>d. exec E (xs @ [ir]) c = exec E [ir] d \<and> c_pc d = c_pc c + span xs \<and> same_flow (c_em c) (c_em d))"
  using assms
proof (induction xs arbitrary: c)
  case (Cons x xs)
  from goes_impl [of x c E] Cons.prems have g: "goes (op_len x) c (impl E x c)" by (simp add: no_flow_def)
  show ?case
  proof (cases "impl E x c")
    case (Nextop c')
    then have step: "exec E ((x # xs) @ [ir]) c = exec E (xs @ [ir]) c'" by simp
    have "no_flow xs" using Cons.prems by (simp add: no_flow_def)
    note IH = Cons.IH [OF this, of c']
    have "c_pc c' + span xs = c_pc c + span (x # xs)" "same_flow (c_em c) (c_em c')"
      using g Nextop by (simp_all add: span_def)
    moreover have "same_flow em em'' " if "same_flow em em'" "same_flow em' em''" for em em' em''
      using that by (simp add: same_flow_def)
    ultimately show ?thesis unfolding step using IH by metis
  qed (use g in \<open>auto simp: goes_def\<close>)
qed (auto simp: span_def simp del: exec.simps)

lemma exec_last:
  assumes "irs \<noteq> []" "no_flow (butlast irs)"
  obtains "exec E irs c = Undef" | rv em where "exec E irs c = Return False rv em"
  | d where "c_pc d = c_pc c + span (butlast irs)" "same_flow (c_em c) (c_em d)"
      "exec E irs c = (case impl E (last irs) d of Nextop c' \<Rightarrow> finish c' | r \<Rightarrow> r)"
      "tail_ok (last irs) d (impl E (last irs) d)"
proof -
  have "exec E [ir] d = (case impl E ir d of Nextop c' \<Rightarrow> finish c' | r \<Rightarrow> r)" for ir d
    by (simp split: outcome.split)
  with exec_to_last [OF assms(2), of E "last irs" c] tail_impl [of "last irs" _ E] append_butlast_last_id [OF assms(1)]
  show thesis using that by (metis (no_types))
qed

definition taken_target :: "u32 \<Rightarrow> rv_insn list \<Rightarrow> u32" where
  "taken_target pc irs = pc + span (butlast irs) + disp (last irs)"

lemma span_snoc: "irs \<noteq> [] \<Longrightarrow> span irs = span (butlast irs) + op_len (last irs)"
  by (induction irs rule: rev_induct) (simp_all add: span_def)

lemma exec_Taken:
  assumes "irs \<noteq> []" "no_flow (butlast irs)" "exec E irs c = Taken c'"
  shows "ir_opcode (last irs) \<in> direct_ops \<union> cond_ops" "ir_branch_taken (last irs) \<noteq> None"
    "c_pc c' = taken_target (c_pc c) irs" "last_pc (c_em c') = c_pc c'"
  by (rule exec_last [OF assms(1,2), of E c];
    use assms(3) in \<open>auto simp: tail_ok_def taken_target_def finish_def Let_def split: outcome.splits\<close>)+

lemma exec_Untaken:
  assumes "irs \<noteq> []" "no_flow (butlast irs)" "exec E irs c = Untaken c'"
  shows "ir_opcode (last irs) \<in> cond_ops" "ir_branch_untaken (last irs) \<noteq> None"
    "c_pc c' = c_pc c + span irs" "last_pc (c_em c') = c_pc c'"
  by (rule exec_last [OF assms(1,2), of E c];
    use assms(3) in \<open>auto simp: tail_ok_def span_snoc [OF assms(1)] finish_def Let_def split: outcome.splits\<close>)+

lemma exec_Indirect:
  assumes "irs \<noteq> []" "no_flow (butlast irs)" "exec E irs c = Indirect c'"
  shows "ir_opcode (last irs) \<notin> direct_ops \<union> cond_ops" "last_pc (c_em c') = last_pc (c_em c)"
  by (rule exec_last [OF assms(1,2), of E c];
    use assms(3) in \<open>auto simp: tail_ok_def same_flow_def finish_def Let_def split: outcome.splits\<close>)+

lemma exec_Return:
  assumes "irs \<noteq> []" "no_flow (butlast irs)" "exec E irs c = Return True rv em"
  shows "last_pc em = last_pc (c_em c)"
    "ir_opcode (last irs) \<in> direct_ops \<Longrightarrow> PC rv = taken_target (c_pc c) irs"
    "ir_opcode (last irs) \<in> cond_ops \<Longrightarrow>
      PC rv = (if is_branch_taken em then taken_target (c_pc c) irs else c_pc c + span irs)"
  by (rule exec_last [OF assms(1,2), of E c];
    use assms(3) in \<open>auto simp: tail_ok_def taken_target_def span_snoc [OF assms(1)] same_flow_def finish_def Let_def
      split: outcome.splits\<close>)+

lemma exec_outcomes:
  assumes "irs \<noteq> []" "no_flow (butlast irs)"
  shows "exec E irs c \<noteq> Nextop c'" "exec E irs c \<noteq> End_op c'"
  by (rule exec_last [OF assms(1,2), of E c]; auto simp: tail_ok_def finish_def Let_def split: outcome.splits)+

section \<open>A block without its links\<close>

definition unlink_ir :: "rv_insn \<Rightarrow> rv_insn" where
  "unlink_ir ir = ir\<lparr>ir_branch_taken := None, ir_branch_untaken := None\<rparr>"

lemma unlink_sel [simp]:
  "ir_opcode (unlink_ir ir) = ir_opcode ir" "ir_imm (unlink_ir ir) = ir_imm ir" "ir_imm2 (unlink_ir ir) = ir_imm2 ir"
  "ir_rd (unlink_ir ir) = ir_rd ir" "ir_rs1 (unlink_ir ir) = ir_rs1 ir" "ir_rs2 (unlink_ir ir) = ir_rs2 ir"
  "ir_rs3 (unlink_ir ir) = ir_rs3 ir" "ir_rm (unlink_ir ir) = ir_rm ir" "ir_shamt (unlink_ir ir) = ir_shamt ir"
  "ir_fuse (unlink_ir ir) = ir_fuse ir" "ir_pc (unlink_ir ir) = ir_pc ir"
  "ir_branch_taken (unlink_ir ir) = None" "ir_branch_untaken (unlink_ir ir) = None"
  by (simp_all add: unlink_ir_def ir_rs3_def)

lemma unlink_helpers [simp]:
  "fp_compare f (unlink_ir ir) = fp_compare f ir" "amo_op g E (unlink_ir ir) = amo_op g E ir"
  "shift_func (unlink_ir ir) = shift_func ir" "fuse_data (unlink_ir ir) = fuse_data ir"
  "rvop_enter (unlink_ir ir) = rvop_enter ir" "fuse_enter (unlink_ir ir) = fuse_enter ir"
  by (simp_all add: fun_eq_iff fp_compare_def amo_op_def shift_func_def fuse_data_def rvop_enter_def fuse_enter_def
    Let_def cong: if_cong)

text \<open>The operations that look at the links.\<close>

abbreviation link_ops :: "opcode set" where
  "link_ops \<equiv> direct_ops \<union> cond_ops \<union> {RV32I rv_insn_beq, RV32I rv_insn_bne, RV32I rv_insn_blt,
     RV32I rv_insn_bge, RV32I rv_insn_bltu, RV32I rv_insn_bgeu}"

lemma unlink_rv32i: "RV32I i \<notin> link_ops \<Longrightarrow> rv32i_body i E (unlink_ir ir) c = rv32i_body i E ir c"
  by (cases i) (simp_all add: template_defs alu_def Let_def cong: if_cong)

lemma unlink_rvpriv: "rvpriv_body i E (unlink_ir ir) c = rvpriv_body i E ir c"
  by (cases i) (simp_all add: template_defs alu_def Let_def cong: if_cong)

lemma unlink_rvzifencei: "rvzifencei_body i E (unlink_ir ir) c = rvzifencei_body i E ir c"
  by (cases i) (simp_all add: template_defs alu_def Let_def cong: if_cong)

lemma unlink_rvzicsr: "rvzicsr_body i E (unlink_ir ir) c = rvzicsr_body i E ir c"
  by (cases i) (simp_all add: template_defs alu_def Let_def cong: if_cong)

lemma unlink_rvzb:
  "rvzba_body i1 E (unlink_ir ir) c = rvzba_body i1 E ir c" "rvzbb_body i2 E (unlink_ir ir) c = rvzbb_body i2 E ir c"
  "rvzbc_body i3 E (unlink_ir ir) c = rvzbc_body i3 E ir c" "rvzbs_body i4 E (unlink_ir ir) c = rvzbs_body i4 E ir c"
  subgoal by (cases i1) (simp_all add: template_defs alu_def Let_def cong: if_cong)
  subgoal by (cases i2) (simp_all add: template_defs alu_def Let_def cong: if_cong)
  subgoal by (cases i3) (simp_all add: template_defs alu_def Let_def cong: if_cong)
  subgoal by (cases i4) (simp_all add: template_defs alu_def Let_def cong: if_cong)
  done

lemma unlink_rv32m: "rv32m_body i E (unlink_ir ir) c = rv32m_body i E ir c"
  by (cases i) (simp_all add: template_defs alu_def Let_def cong: if_cong)

lemma unlink_rv32a: "rv32a_body i E (unlink_ir ir) c = rv32a_body i E ir c"
  by (cases i) (simp_all add: template_defs alu_def Let_def cong: if_cong)

lemma unlink_rv32f: "rv32f_body i E (unlink_ir ir) c = rv32f_body i E ir c"
  by (cases i) (simp_all add: template_defs alu_def Let_def cong: if_cong)

lemma unlink_rv32c: "RV32C i \<notin> link_ops \<Longrightarrow> rv32c_body i E (unlink_ir ir) c = rv32c_body i E ir c"
  by (cases i) (simp_all add: template_defs alu_def Let_def cong: if_cong)

lemma unlink_rv32fc: "rv32fc_body i E (unlink_ir ir) c = rv32fc_body i E ir c"
  by (cases i) (simp_all add: template_defs alu_def Let_def cong: if_cong)

lemma unlink_fuse: "i \<noteq> rv_insn_fuse12 \<Longrightarrow> fuse_impl i E (unlink_ir ir) c = fuse_impl i E ir c"
  by (cases i) (simp_all add: do_fuse1_def do_fuse2_def do_fuse3_def do_fuse4_def do_fuse5_def do_fuse6_def do_fuse7_def
    do_fuse8_def do_fuse9_def do_fuse10_def do_fuse11_def fuse_alu_def Let_def cong: option.case_cong)

text \<open>An end of the block in which every transfer of control returns to \<^verbatim>\<open>rv_step\<close>.\<close>

fun stop :: "outcome \<Rightarrow> outcome" where
  "stop (Nextop c) = finish c"
| "stop (End_op c) = finish c"
| "stop (Taken c) = finish c"
| "stop (Untaken c) = finish c"
| "stop (Indirect c) = finish c"
| "stop (Return b rv em) = Return b rv em"
| "stop Undef = Undef"

lemma unlink_body:
  "ir_opcode ir \<notin> link_ops \<Longrightarrow> op_body (ir_opcode ir) E (unlink_ir ir) = op_body (ir_opcode ir) E ir"
  by (cases "ir_opcode ir") (simp_all add: fun_eq_iff unlink_rv32i unlink_rvpriv unlink_rvzifencei unlink_rvzicsr unlink_rvzb
    unlink_rv32m unlink_rv32a unlink_rv32f unlink_rv32c unlink_rv32fc unlink_fuse
    del: rv32i_body.simps rvpriv_body.simps rvzifencei_body.simps rvzicsr_body.simps rvzba_body.simps
    rvzbb_body.simps rvzbc_body.simps rvzbs_body.simps rv32m_body.simps rv32a_body.simps rv32f_body.simps
    rv32c_body.simps rv32fc_body.simps fuse_impl.simps)

lemma unlink_impl: "ir_opcode ir \<notin> link_ops \<Longrightarrow> impl E (unlink_ir ir) c = impl E ir c"
  using unlink_body [of ir E] by (simp add: impl_def rvop_def split: option.split)

lemma stop_unlink_rv32i:
  "ir_opcode ir = RV32I i \<Longrightarrow> RV32I i \<in> link_ops \<Longrightarrow> erase (stop (impl E (unlink_ir ir) c)) = erase (stop (impl E ir c))"
  by (cases i) (auto simp: impl_def rvop_def template_defs flow_defs Let_def attr_def)

lemma stop_unlink_rv32c:
  "ir_opcode ir = RV32C i \<Longrightarrow> RV32C i \<in> link_ops \<Longrightarrow> erase (stop (impl E (unlink_ir ir) c)) = erase (stop (impl E ir c))"
  by (cases i) (auto simp: impl_def rvop_def template_defs flow_defs Let_def attr_def)

lemma stop_unlink: "erase (stop (impl E (unlink_ir ir) c)) = erase (stop (impl E ir c))"
proof (cases "ir_opcode ir \<in> link_ops")
  case True
  show ?thesis
  proof (cases "ir_opcode ir")
    case (RV32I i)
    with True show ?thesis by (intro stop_unlink_rv32i) simp_all
  next
    case (RV32C i)
    with True show ?thesis by (intro stop_unlink_rv32c) simp_all
  next
    case (Fuse i)
    with True have "i = rv_insn_fuse12" by auto
    with Fuse show ?thesis by (auto simp: impl_def do_fuse12_def Let_def flow_defs)
  qed (use True in auto)
next
  case False
  show ?thesis by (simp only: unlink_impl [OF False])
qed

lemma stop_exec_unlink:
  assumes "no_flow (butlast irs)"
  shows "erase (stop (exec E (map unlink_ir irs) c)) = erase (stop (exec E irs c))"
  using assms
proof (induction irs arbitrary: c)
  case (Cons ir irs)
  show ?case
  proof (cases "irs = []")
    case True
    have "stop (exec E [ir] c) = stop (impl E ir c)" for ir by (cases "impl E ir c") (simp_all add: finish_def)
    with True stop_unlink [of E ir c] show ?thesis by simp
  next
    case False
    with Cons.prems have ir: "ir_opcode ir \<notin> link_ops" "no_flow (butlast irs)"
      by (auto simp: no_flow_def flow_def branch_defs)
    with unlink_impl [OF ir(1), of E c] Cons.IH [OF ir(2)] show ?thesis by (cases "impl E ir c") simp_all
  qed
qed simp

end
