(* ===== verification/RV_Chain.thy ===== *)
theory RV_Chain
  imports RV_Flow
begin

text \<open>
  Block chaining leaves the hart alone. While a chain of blocks runs, the cycle counter and the program
  counter live in the arguments \<^verbatim>\<open>cycle\<close> and \<^verbatim>\<open>PC\<close> of the emulation functions and
  the fields \<^verbatim>\<open>rv->csr_cycle\<close> and \<^verbatim>\<open>rv->PC\<close> are out of date. No instruction but
  \<^verbatim>\<open>uret\<close>, \<^verbatim>\<open>hret\<close> and \<^verbatim>\<open>mret\<close> depends on these fields.
\<close>

unbundle bit_operations_syntax

section \<open>Outcomes up to the fields that are out of date\<close>

definition settle_rv :: "riscv \<Rightarrow> riscv" where
  "settle_rv rv = rv\<lparr>csr_cycle := 0, PC := 0\<rparr>"

definition settle_ctx :: "ctx \<Rightarrow> ctx" where
  "settle_ctx c = c\<lparr>c_em := emu_init, c_rv := settle_rv (c_rv c)\<rparr>"

fun settle :: "outcome \<Rightarrow> outcome" where
  "settle (Nextop c) = Nextop (settle_ctx c)"
| "settle (End_op c) = End_op (settle_ctx c)"
| "settle (Return b rv em) = Return b rv emu_init"
| "settle (Taken c) = Taken (settle_ctx c)"
| "settle (Untaken c) = Untaken (settle_ctx c)"
| "settle (Indirect c) = Indirect (settle_ctx c)"
| "settle Undef = Undef"

definition stale_ok :: "(ctx \<Rightarrow> outcome) \<Rightarrow> bool" where
  "stale_ok f \<longleftrightarrow> (\<forall>c. settle (f c) = settle (f (settle_ctx c)))"

lemma settle_ctx_simps [simp]:
  "c_rv (settle_ctx c) = settle_rv (c_rv c)" "c_cycle (settle_ctx c) = c_cycle c" "c_pc (settle_ctx c) = c_pc c"
  "settle_ctx (c\<lparr>c_em := em\<rparr>) = settle_ctx c"
  "settle_ctx (c\<lparr>c_rv := rv\<rparr>) = c\<lparr>c_em := emu_init, c_rv := settle_rv rv\<rparr>"
  "settle_ctx (c\<lparr>c_pc := pc\<rparr>) = (settle_ctx c)\<lparr>c_pc := pc\<rparr>"
  "settle_ctx (c\<lparr>c_cycle := n\<rparr>) = (settle_ctx c)\<lparr>c_cycle := n\<rparr>"
  "(settle_ctx c)\<lparr>c_rv := rv\<rparr> = c\<lparr>c_em := emu_init, c_rv := rv\<rparr>"
  "settle_ctx (settle_ctx c) = settle_ctx c"
  by (simp_all add: settle_ctx_def settle_rv_def)

lemma settle_rv_sel [simp]:
  "X (settle_rv rv) = X rv" "F (settle_rv rv) = F rv" "csr (settle_rv rv) = csr rv"
  "mem (settle_rv rv) = mem rv" "allow_misalign (settle_rv rv) = allow_misalign rv"
  "csr_time (settle_rv rv) = csr_time rv" "time_calls (settle_rv rv) = time_calls rv"
  "softfloat_exceptionFlags (settle_rv rv) = softfloat_exceptionFlags rv"
  "softfloat_roundingMode (settle_rv rv) = softfloat_roundingMode rv"
  "settle_rv (settle_rv rv) = settle_rv rv"
  by (simp_all add: settle_rv_def)

lemma settle_rv_upd [simp]:
  "settle_rv (set_X r v rv) = set_X r v (settle_rv rv)" "settle_rv (set_F r v rv) = set_F r v (settle_rv rv)"
  "settle_rv (set_csr k v rv) = set_csr k v (settle_rv rv)" "settle_rv (rv\<lparr>mem := m\<rparr>) = (settle_rv rv)\<lparr>mem := m\<rparr>"
  "settle_rv (rv\<lparr>softfloat_exceptionFlags := fl\<rparr>) = (settle_rv rv)\<lparr>softfloat_exceptionFlags := fl\<rparr>"
  "settle_rv (rv\<lparr>softfloat_roundingMode := md\<rparr>) = (settle_rv rv)\<lparr>softfloat_roundingMode := md\<rparr>"
  "settle_rv (rv\<lparr>csr_cycle := n\<rparr>) = settle_rv rv"
  "(settle_rv rv)\<lparr>compressed := b, csr_cycle := n, PC := p\<rparr> = rv\<lparr>compressed := b, csr_cycle := n, PC := p\<rparr>"
  "(settle_rv rv)\<lparr>csr_cycle := n, PC := p\<rparr> = rv\<lparr>csr_cycle := n, PC := p\<rparr>"
  "(set_X r v (settle_rv rv))\<lparr>compressed := b, csr_cycle := n, PC := p\<rparr> =
     (set_X r v rv)\<lparr>compressed := b, csr_cycle := n, PC := p\<rparr>"
  "(set_X r v (settle_rv rv))\<lparr>csr_cycle := n, PC := p\<rparr> = (set_X r v rv)\<lparr>csr_cycle := n, PC := p\<rparr>"
  by (simp_all add: settle_rv_def set_X_def set_F_def set_csr_def)

lemma set_X_sel [simp]:
  "mem (set_X r v rv) = mem rv" "allow_misalign (set_X r v rv) = allow_misalign rv" "X (set_X r v rv) s = (if s = r then v else X rv s)"
  by (simp_all add: set_X_def)

lemma set_csr_flags [simp]: "softfloat_exceptionFlags (set_csr k v rv) = softfloat_exceptionFlags rv"
  by (simp add: set_csr_def)

lemma settle_rv_fp [simp]:
  "settle_rv (raise_flags fl rv) = raise_flags fl (settle_rv rv)"
  "settle_rv (write_xd r v rv) = write_xd r v (settle_rv rv)"
  "settle_rv (write_fd r v rv) = write_fd r v (settle_rv rv)"
  by (simp_all add: raise_flags_def write_xd_def write_fd_def)

lemma settle_rv_set_fflag [simp]: "settle_rv (set_fflag rv) = set_fflag (settle_rv rv)"
  by (simp add: set_fflag_def Let_def)

lemma settle_rounding_mode:
  "set_rounding_mode rm (settle_rv rv) = map_option settle_rv (set_rounding_mode rm rv)"
  by (simp add: set_rounding_mode_def Let_def option.map_comp comp_def)

lemma settle_shift_func: "shift_func ir (settle_rv rv) = map_option settle_rv (shift_func ir rv)"
  by (simp add: shift_func_def Let_def)

lemma settle_rvD:
  assumes "settle_rv a = settle_rv b"
  shows "csr a = csr b" "csr_time a = csr_time b" "time_calls a = time_calls b"
  using arg_cong [OF assms, of csr] arg_cong [OF assms, of csr_time] arg_cong [OF assms, of time_calls]
  by (simp_all only: settle_rv_sel)

lemma settle_update_time:
  "settle_rv a = settle_rv b \<Longrightarrow> settle_rv (update_time E a) = settle_rv (update_time E b)"
  using settle_rvD(3) [of a b] by (cases a; cases b) (simp add: settle_rv_def update_time_def Let_def split: prod.split)

definition cycle_csr :: "u32 \<Rightarrow> bool" where
  "cycle_csr k \<longleftrightarrow> k AND 0xFFF \<in> {0xC00, 0xC80, 0xC02, 0xC82}"

lemma settle_sync:
  "settle_rv (sync_cycle k n a) = settle_rv a" "cycle_csr k \<Longrightarrow> csr_cycle (sync_cycle k n a) = n"
  by (simp_all add: sync_cycle_def cycle_csr_def)

lemma settle_get_ptr:
  assumes "settle_rv a = settle_rv b" "cycle_csr k \<Longrightarrow> csr_cycle a = csr_cycle b"
  shows "\<exists>p a' b'. csr_get_ptr E a k = (p, a') \<and> csr_get_ptr E b k = (p, b') \<and> settle_rv a' = settle_rv b' \<and>
    (p \<in> {Some Cycle_lo, Some Cycle_hi} \<longrightarrow> csr_cycle a' = csr_cycle b')"
  using assms settle_update_time [OF assms(1), of E] by (auto simp: csr_get_ptr_def cycle_csr_def Let_def)

lemma settle_read_ptr:
  assumes "settle_rv a = settle_rv b" "p \<in> {Cycle_lo, Cycle_hi} \<longrightarrow> csr_cycle a = csr_cycle b"
  shows "read_ptr p a = read_ptr p b"
  using assms(2) settle_rvD [OF assms(1)] by (cases p) simp_all

lemma settle_write_ptr:
  "settle_rv a = settle_rv b \<Longrightarrow> settle_rv (write_ptr p v a) = settle_rv (write_ptr p v b)"
  using settle_rvD(2) [of a b] by (cases p; cases a; cases b) (simp_all add: settle_rv_def set_csr_def)

lemma settle_csr:
  "fst (csr_csrrw E (settle_rv rv) k v n) = fst (csr_csrrw E rv k v n)"
  "settle_rv (snd (csr_csrrw E (settle_rv rv) k v n)) = settle_rv (snd (csr_csrrw E rv k v n))"
  "fst (csr_csrrs E (settle_rv rv) k v n) = fst (csr_csrrs E rv k v n)"
  "settle_rv (snd (csr_csrrs E (settle_rv rv) k v n)) = settle_rv (snd (csr_csrrs E rv k v n))"
  "fst (csr_csrrc E (settle_rv rv) k v n) = fst (csr_csrrc E rv k v n)"
  "settle_rv (snd (csr_csrrc E (settle_rv rv) k v n)) = settle_rv (snd (csr_csrrc E rv k v n))"
proof -
  let ?a = "sync_cycle k n (settle_rv rv)" and ?b = "sync_cycle k n rv"
  have "settle_rv ?a = settle_rv ?b" "cycle_csr k \<Longrightarrow> csr_cycle ?a = csr_cycle ?b"
    by (simp_all only: settle_sync settle_rv_sel)
  from settle_get_ptr [OF this, where E = E] obtain p a b where g: "csr_get_ptr E ?a k = (p, a)" "csr_get_ptr E ?b k = (p, b)"
    "settle_rv a = settle_rv b" "p \<in> {Some Cycle_lo, Some Cycle_hi} \<longrightarrow> csr_cycle a = csr_cycle b" by blast
  have rd: "read_ptr q a = read_ptr q b" if "p = Some q" for q
    using settle_read_ptr [OF g(3), of q] g(4) that by simp
  note wr = settle_write_ptr [OF g(3)]
  show "fst (csr_csrrw E (settle_rv rv) k v n) = fst (csr_csrrw E rv k v n)"
    "settle_rv (snd (csr_csrrw E (settle_rv rv) k v n)) = settle_rv (snd (csr_csrrw E rv k v n))"
    "fst (csr_csrrs E (settle_rv rv) k v n) = fst (csr_csrrs E rv k v n)"
    "settle_rv (snd (csr_csrrs E (settle_rv rv) k v n)) = settle_rv (snd (csr_csrrs E rv k v n))"
    "fst (csr_csrrc E (settle_rv rv) k v n) = fst (csr_csrrc E rv k v n)"
    "settle_rv (snd (csr_csrrc E (settle_rv rv) k v n)) = settle_rv (snd (csr_csrrc E rv k v n))"
    using rd wr g(3) by (cases p; simp add: csr_csrrw_def csr_csrrs_def csr_csrrc_def g(1,2) Let_def)+
qed

lemma settle_csr_X:
  "X (snd (csr_csrrw E (settle_rv rv) k v n)) = X (snd (csr_csrrw E rv k v n))"
  "X (snd (csr_csrrs E (settle_rv rv) k v n)) = X (snd (csr_csrrs E rv k v n))"
  "X (snd (csr_csrrc E (settle_rv rv) k v n)) = X (snd (csr_csrrc E rv k v n))"
  by (metis settle_csr settle_rv_sel(1))+

section \<open>Every instruction works on out-of-date fields\<close>

lemma st_branch_func: "settle (branch_func b ir c) = settle (branch_func b ir (settle_ctx c))"
  by (auto simp: branch_func_def Let_def)

lemma st_cbranch: "settle (cbranch b ir c) = settle (cbranch b ir (settle_ctx c))"
  by (auto simp: cbranch_def set_last_pc_def Let_def)

lemma st_fp_compare: "settle (fp_compare f ir c) = settle (fp_compare f ir (settle_ctx c))"
  by (simp add: fp_compare_def Let_def split: prod.split)

lemma st_fp_arith:
  assumes "\<And>rv. f (settle_rv rv) = f rv" "\<And>v rv. settle_rv (w v rv) = w v (settle_rv rv)"
  shows "settle (fp_arith rm f w c) = settle (fp_arith rm f w (settle_ctx c))"
  by (simp add: fp_arith_def settle_rounding_mode assms split: prod.split option.split)

lemma st_amo_op: "settle (amo_op f E ir c) = settle (amo_op f E ir (settle_ctx c))"
  by (simp add: amo_op_def exec_defs Let_def split: option.split)

lemma st_rv32i_body: "stale_ok (rv32i_body i E ir)"
  by (cases i) (simp_all add: stale_ok_def template_defs exec_defs Let_def st_branch_func [symmetric]
    settle_shift_func split: option.split)

lemma st_rvpriv_body: "i \<notin> {rv_insn_uret, rv_insn_hret, rv_insn_mret} \<Longrightarrow> stale_ok (rvpriv_body i E ir)"
  by (cases i) (simp_all add: stale_ok_def template_defs exec_defs Let_def)

lemma st_rvzifencei_body: "stale_ok (rvzifencei_body i E ir)"
  by (cases i) (simp_all add: stale_ok_def template_defs exec_defs Let_def)

lemma st_rvzicsr_body: "stale_ok (rvzicsr_body i E ir)"
  by (cases i) (simp_all add: stale_ok_def template_defs exec_defs Let_def case_prod_beta settle_csr settle_csr_X)

lemma st_rvzba_body: "stale_ok (rvzba_body i E ir)"
  by (cases i) (simp_all add: stale_ok_def exec_defs template_defs)

lemma st_rvzbb_body: "stale_ok (rvzbb_body i E ir)"
  by (cases i) (simp_all add: stale_ok_def exec_defs template_defs Let_def)

lemma st_rvzbc_body: "stale_ok (rvzbc_body i E ir)"
  by (cases i) (simp_all add: stale_ok_def exec_defs template_defs)

lemma st_rvzbs_body: "stale_ok (rvzbs_body i E ir)"
  by (cases i) (simp_all add: stale_ok_def exec_defs template_defs)

lemma st_rv32m_body: "stale_ok (rv32m_body i E ir)"
  by (cases i) (simp_all add: stale_ok_def exec_defs template_defs)

lemma st_rv32a_body: "stale_ok (rv32a_body i E ir)"
  by (cases i) (simp_all add: stale_ok_def template_defs exec_defs Let_def st_amo_op [symmetric] split: option.split)

lemma st_rv32f_body: "stale_ok (rv32f_body i E ir)"
  by (cases i) (simp_all add: stale_ok_def template_defs exec_defs Let_def st_fp_compare [symmetric]
    st_fp_arith [symmetric] split: option.split prod.split)

lemma st_rv32c_body: "stale_ok (rv32c_body i E ir)"
  by (cases i) (simp_all add: stale_ok_def template_defs exec_defs Let_def st_cbranch [symmetric] settle_ctx_def [symmetric]
    split: option.split)

lemma st_rv32fc_body: "stale_ok (rv32fc_body i E ir)"
  by (cases i) (simp_all add: stale_ok_def template_defs exec_defs Let_def split: option.split)

lemma st_fuse3_loop:
  "(\<And>c. settle (k c) = settle (k (settle_ctx c))) \<Longrightarrow>
   settle (fuse3_loop E fs c k) = settle (fuse3_loop E fs (settle_ctx c) k)"
proof (induction fs arbitrary: c)
  case (Cons f fs)
  have "settle (fuse3_loop E fs (c\<lparr>c_rv := rv\<rparr>) k) = settle (fuse3_loop E fs (c\<lparr>c_em := emu_init, c_rv := settle_rv rv\<rparr>) k)"
    for rv using Cons.IH [of "c\<lparr>c_rv := rv\<rparr>", OF Cons.prems] by simp
  then show ?case by (simp add: exec_defs Let_def split: option.split)
qed simp

lemma st_fuse4_loop:
  "(\<And>c. settle (k c) = settle (k (settle_ctx c))) \<Longrightarrow>
   settle (fuse4_loop E fs c k) = settle (fuse4_loop E fs (settle_ctx c) k)"
proof (induction fs arbitrary: c)
  case (Cons f fs)
  have "settle (fuse4_loop E fs (c\<lparr>c_rv := rv\<rparr>) k) = settle (fuse4_loop E fs (c\<lparr>c_em := emu_init, c_rv := settle_rv rv\<rparr>) k)"
    for rv using Cons.IH [of "c\<lparr>c_rv := rv\<rparr>", OF Cons.prems] by simp
  then show ?case
    by (simp add: exec_defs Let_def split: option.split) 
qed simp

lemma st_fuse_alu:
  assumes "\<And>f rv. op f (settle_rv rv) = map_option settle_rv (op f rv)"
  shows "settle (fuse_alu op ir c) = settle (fuse_alu op ir (settle_ctx c))"
proof -
  have "fold (\<lambda>f r. Option.bind r (op f)) fs (map_option settle_rv r) =
    map_option settle_rv (fold (\<lambda>f r. Option.bind r (op f)) fs r)" for fs r
  proof (induction fs arbitrary: r)
    case (Cons f fs)
    have "Option.bind (map_option settle_rv r) (op f) = map_option settle_rv (Option.bind r (op f))"
      by (cases r) (simp_all add: assms)
    with Cons.IH [of "Option.bind r (op f)"] show ?case by simp
  qed simp
  from this [of _ "Some (c_rv c)"] show ?thesis
    by (simp add: fuse_alu_def fuse_simps split: option.split)
qed

lemma settle_fuse_shift: "fuse_shift_exec f (settle_rv rv) = map_option settle_rv (fuse_shift_exec f rv)"
  by (simp add: fuse_shift_exec_def Let_def)

lemma st_next_or_stop: "settle (fuse_next_or_stop n c) = settle (fuse_next_or_stop n (settle_ctx c))"
  by (simp add: fuse_next_or_stop_def)

lemma settle_fuse_enter: "settle_ctx (fuse_enter ir n c) = (settle_ctx c)\<lparr>c_cycle := c_cycle c + n\<rparr>"
  by (simp add: fuse_enter_def count_insn_def)

lemma st_do_fuse3: "settle (do_fuse3 E ir c) = settle (do_fuse3 E ir (settle_ctx c))"
proof (cases "fuse_data ir")
  case (Some fs)
  let ?k = "fuse_next_or_stop (ir_imm2 ir * 4)" and ?n = "scast (ir_imm2 ir)"
  show ?thesis
    using st_fuse3_loop [of ?k E fs "fuse_enter ir ?n c", OF st_next_or_stop]
      st_fuse3_loop [of ?k E fs "fuse_enter ir ?n (settle_ctx c)", OF st_next_or_stop]
    by (simp add: do_fuse3_def Some settle_fuse_enter)
qed (simp add: do_fuse3_def)

lemma st_do_fuse4: "settle (do_fuse4 E ir c) = settle (do_fuse4 E ir (settle_ctx c))"
proof (cases "fuse_data ir")
  case (Some fs)
  let ?k = "fuse_next_or_stop (ir_imm2 ir * 4)" and ?n = "scast (ir_imm2 ir)"
  show ?thesis
    using st_fuse4_loop [of ?k E fs "fuse_enter ir ?n c", OF st_next_or_stop]
      st_fuse4_loop [of ?k E fs "fuse_enter ir ?n (settle_ctx c)", OF st_next_or_stop]
    by (simp add: do_fuse4_def Some settle_fuse_enter)
qed (simp add: do_fuse4_def)

lemma st_fuse_impl: "stale_ok (fuse_impl i E ir)"
  by (cases i) (simp_all add: stale_ok_def do_fuse1_def do_fuse5_def do_fuse7_def st_fuse_alu [symmetric]
    settle_fuse_shift st_do_fuse3 [symmetric] st_do_fuse4 [symmetric] do_fuse2_def do_fuse6_def do_fuse8_def
    do_fuse9_def do_fuse10_def do_fuse11_def do_fuse12_def fuse_simps split: option.split)

text \<open>The instructions that leave without storing the cycle counter.\<close>

definition saves_cycle :: "opcode \<Rightarrow> bool" where
  "saves_cycle op \<longleftrightarrow> op \<notin> {RVPriv rv_insn_uret, RVPriv rv_insn_hret, RVPriv rv_insn_mret}"

lemma st_op_body: "saves_cycle op \<Longrightarrow> stale_ok (op_body op E ir)"
  by (cases op) (auto simp only: op_body.simps saves_cycle_def st_rv32i_body st_rvzifencei_body st_rvzicsr_body
    st_rvzba_body st_rvzbb_body st_rvzbc_body st_rvzbs_body st_rv32m_body st_rv32a_body st_rv32f_body
    st_rv32c_body st_rv32fc_body st_fuse_impl opcode.inject intro!: st_rvpriv_body)

lemma stale_okD:
  assumes "stale_ok f" "settle_ctx c = settle_ctx d"
  shows "settle (f c) = settle (f d)"
proof -
  from assms(1) have "settle (f c) = settle (f (settle_ctx c))" "settle (f d) = settle (f (settle_ctx d))"
    unfolding stale_ok_def by blast+
  with assms(2) show ?thesis by simp
qed

lemma settle_ctxD:
  assumes "settle_ctx c = settle_ctx d"
  shows "settle_rv (c_rv c) = settle_rv (c_rv d)" "c_cycle c = c_cycle d" "c_pc c = c_pc d"
  using arg_cong [OF assms, of c_rv] arg_cong [OF assms, of c_cycle] arg_cong [OF assms, of c_pc]
  by (simp_all only: settle_ctx_simps)

lemma settle_store: "settle_rv rv = settle_rv rv' \<Longrightarrow> rv\<lparr>csr_cycle := n, PC := p\<rparr> = rv'\<lparr>csr_cycle := n, PC := p\<rparr>"
  using settle_rv_upd(9) [where rv = rv and n = n and p = p] settle_rv_upd(9) [where rv = rv' and n = n and p = p]
  by (simp only:)

lemma settle_finish:
  assumes "settle_ctx c = settle_ctx d"
  shows "settle (finish c) = settle (finish d)"
  by (simp only: finish_def settle.simps settle_ctxD(2,3) [OF assms] settle_store [OF settle_ctxD(1) [OF assms]])

lemma rvop_settle_cong:
  assumes "settle r = settle s"
  shows "settle (case r of Nextop c \<Rightarrow> Nextop (c\<lparr>c_pc := c_pc c + n\<rparr>) | End_op c \<Rightarrow> finish c | t \<Rightarrow> t) =
    settle (case s of Nextop c \<Rightarrow> Nextop (c\<lparr>c_pc := c_pc c + n\<rparr>) | End_op c \<Rightarrow> finish c | t \<Rightarrow> t)"
proof (cases r)
  case (Nextop c)
  with assms obtain d where "s = Nextop d" "settle_ctx c = settle_ctx d" by (cases s) auto
  with Nextop settle_ctxD(3) [of c d] show ?thesis by simp
next
  case (End_op c)
  with assms obtain d where "s = End_op d" "settle_ctx c = settle_ctx d" by (cases s) auto
  with End_op settle_finish [of c d] show ?thesis by simp
qed (use assms in \<open>cases s; simp\<close>)+

lemma settle_rvop_enter: "settle_ctx (rvop_enter ir c) = (settle_ctx c)\<lparr>c_cycle := c_cycle c + 1\<rparr>"
  by (simp add: rvop_enter_def count_insn_def)

lemma st_rvop:
  assumes "stale_ok body" "settle_ctx c = settle_ctx d"
  shows "settle (rvop n body ir c) = settle (rvop n body ir' d)"
proof -
  from assms(2) have "settle_ctx (rvop_enter ir c) = settle_ctx (rvop_enter ir' d)"
    by (simp add: settle_rvop_enter settle_ctxD(2) [OF assms(2)])
  then have "settle (body (rvop_enter ir c)) = settle (body (rvop_enter ir' d))"
    by (rule stale_okD [OF assms(1)])
  then show ?thesis
    unfolding rvop_def by (rule rvop_settle_cong)
qed

lemma st_impl:
  assumes "saves_cycle (ir_opcode ir)" "settle_ctx c = settle_ctx d"
  shows "settle (impl E ir c) = settle (impl E ir d)"
proof -
  note ok = st_op_body [OF assms(1), of E ir]
  show ?thesis
    unfolding impl_def
    by (cases "insn_attr_of (ir_opcode ir)")
      (simp_all only: option.case stale_okD [OF ok assms(2)] st_rvop [OF ok assms(2), of _ ir ir])
qed

lemma st_exec:
  "list_all (\<lambda>ir. saves_cycle (ir_opcode ir)) irs \<Longrightarrow> settle_ctx c = settle_ctx d \<Longrightarrow>
   settle (exec E irs c) = settle (exec E irs d)"
proof (induction irs arbitrary: c d)
  case Nil
  then show ?case unfolding exec.simps by (intro settle_finish)
next
  case (Cons ir irs)
  from Cons.prems(1) have ok: "saves_cycle (ir_opcode ir)" "list_all (\<lambda>ir. saves_cycle (ir_opcode ir)) irs"
    by simp_all
  note eq = st_impl [OF ok(1) Cons.prems(2), of E]
  show ?case
  proof (cases "impl E ir c")
    case (Nextop c')
    with eq obtain d' where "impl E ir d = Nextop d'" "settle_ctx c' = settle_ctx d'"
      by (cases "impl E ir d") auto
    with Nextop Cons.IH [OF ok(2), of c' d'] show ?thesis by simp
  qed (use eq in \<open>cases "impl E ir d"; simp\<close>)+
qed

end
