(* ===== verification/RV_Step.thy ===== *)
theory RV_Step
  imports RV_Chain
begin

text \<open>
  \<^verbatim>\<open>rv_step\<close> of \<^verbatim>\<open>src/emulate.c\<close>: the loop that looks up or translates the block at the
  program counter, links the previous block to it, and runs it together with every block that is
  reached from it over links or over the branch history table of an indirect jump.
\<close>

unbundle bit_operations_syntax

section \<open>The branch history table\<close>

abbreviation HISTORY_SIZE :: nat where "HISTORY_SIZE \<equiv> 16"

text \<open>A pointer to the first IR of a block is the address of the block, \<open>None\<close> is
  \<^verbatim>\<open>NULL\<close>.\<close>

record branch_history_table =
  bt_PC :: "u32 list"
  bt_idx :: nat
  bt_target :: "u32 option list"

definition branch_table_init :: branch_history_table where
  "branch_table_init =
     \<lparr>bt_PC = replicate HISTORY_SIZE (- 1), bt_idx = 0, bt_target = replicate HISTORY_SIZE None\<rparr>"

definition branch_table_find :: "branch_history_table \<Rightarrow> u32 \<Rightarrow> nat option" where
  "branch_table_find t pc = List.find (\<lambda>i. bt_PC t ! i = pc) [0..<HISTORY_SIZE]"

definition branch_table_update :: "u32 \<Rightarrow> branch_history_table \<Rightarrow> branch_history_table" where
  "branch_table_update pc t =
     t\<lparr>bt_PC := (bt_PC t)[bt_idx t := pc], bt_target := (bt_target t)[bt_idx t := Some pc],
       bt_idx := (bt_idx t + 1) mod HISTORY_SIZE\<rparr>"

section \<open>Running a chain of blocks\<close>

text \<open>The block that a pointer points to; following \<^verbatim>\<open>NULL\<close> is undefined.\<close>

definition block_at :: "block_map \<Rightarrow> u32 option \<Rightarrow> block option" where
  "block_at m p = Option.bind p (\<lambda>a. Option.bind (block_find m a) id)"

text \<open>
  The emulation functions of a block and of the blocks it continues in by tail calls. Only the last IR of
  a block has links and a branch history table; \<open>t a\<close> is the table of the block at \<open>a\<close>. The
  result is \<open>None\<close> when the behaviour is undefined or the chain never returns to
  \<^verbatim>\<open>rv_step\<close>.
\<close>

partial_function (option) run_chain ::
  "env \<Rightarrow> block_map \<Rightarrow> (u32 \<Rightarrow> branch_history_table) \<Rightarrow> block \<Rightarrow> ctx \<Rightarrow>
     (bool \<times> riscv \<times> emu \<times> (u32 \<Rightarrow> branch_history_table)) option" where
  "run_chain E m t b c =
     (case exec E (block_irs b) c of
        Return r rv em \<Rightarrow> Some (r, rv, em, t)
      | Taken c' \<Rightarrow>
          (case block_at m (ir_branch_taken (last (block_irs b))) of
             None \<Rightarrow> None
           | Some b' \<Rightarrow> run_chain E m t b' c')
      | Untaken c' \<Rightarrow>
          (case block_at m (ir_branch_untaken (last (block_irs b))) of
             None \<Rightarrow> None
           | Some b' \<Rightarrow> run_chain E m t b' c')
      | Indirect c' \<Rightarrow>
          (let table = t (pc_start b) in
           case branch_table_find table (c_pc c') of
             Some i \<Rightarrow>
               (case block_at m (bt_target table ! i) of
                  None \<Rightarrow> None
                | Some b' \<Rightarrow> run_chain E m t b' c')
           | None \<Rightarrow>
               (case block_find m (c_pc c') of
                  None \<Rightarrow> None
                | Some None \<Rightarrow> Some (True, (c_rv c')\<lparr>csr_cycle := c_cycle c', PC := c_pc c'\<rparr>, c_em c', t)
                | Some (Some b') \<Rightarrow>
                    run_chain E m (t(pc_start b := branch_table_update (c_pc c') table)) b' c'))
      | _ \<Rightarrow> None)"

section \<open>Chaining\<close>

definition link_ir :: "bool \<Rightarrow> u32 \<Rightarrow> rv_insn \<Rightarrow> rv_insn" where
  "link_ir taken a ir =
     (if \<not> insn_is_unconditional_branch (ir_opcode ir) then
        (if taken \<and> ir_branch_taken ir = None then ir\<lparr>ir_branch_taken := Some a\<rparr>
         else if \<not> taken \<and> ir_branch_untaken ir = None then ir\<lparr>ir_branch_untaken := Some a\<rparr>
         else ir)
      else if insn_is_direct_branch (ir_opcode ir) then
        (if ir_branch_taken ir = None then ir\<lparr>ir_branch_taken := Some a\<rparr> else ir)
      else ir)"

definition link_block :: "bool \<Rightarrow> u32 \<Rightarrow> block \<Rightarrow> block" where
  "link_block taken a b =
     b\<lparr>block_irs := butlast (block_irs b) @ [link_ir taken a (last (block_irs b))]\<rparr>"

text \<open>The write through \<^verbatim>\<open>prev->ir_tail\<close> changes the block wherever it is reached from.\<close>

definition chain_block :: "block_map \<Rightarrow> u32 \<Rightarrow> bool \<Rightarrow> u32 \<Rightarrow> block_map" where
  "chain_block m prev taken a =
     m\<lparr>bm_map := map (map_option (\<lambda>b. if pc_start b = prev then link_block taken a b else b)) (bm_map m)\<rparr>"

section \<open>The step loop\<close>

record machine =
  m_rv :: riscv
  m_em :: emu
  m_map :: block_map
  m_tables :: "u32 \<Rightarrow> branch_history_table"
  m_prev :: "u32 option"
  exit_addr :: u32
  on_exit :: bool

definition update_prev :: "block_map \<Rightarrow> emu \<Rightarrow> u32 option \<Rightarrow> u32 option option" where
  "update_prev m em prev =
     (case prev of
        Some p \<Rightarrow> if p \<noteq> last_pc em then map_option (map_option pc_start) (block_find m (last_pc em)) else Some prev
      | None \<Rightarrow> Some None)"

text \<open>One iteration of the loop, and whether the loop goes on: the block is entered once the lookup has
  returned it.\<close>

definition link_prev :: "block_map \<Rightarrow> u32 option \<Rightarrow> bool \<Rightarrow> u32 \<Rightarrow> block_map" where
  "link_prev m prev taken a = (case prev of None \<Rightarrow> m | Some p \<Rightarrow> chain_block m p taken a)"

definition enter_block :: "env \<Rightarrow> machine \<Rightarrow> block \<Rightarrow> riscv \<Rightarrow> block_map \<Rightarrow> u32 option \<Rightarrow>
    (u32 \<Rightarrow> branch_history_table) \<Rightarrow> (bool \<times> machine) option" where
  "enter_block E s b0 rv m prev t =
     (let ex = (ir_pc (hd (block_irs b0)) = exit_addr s \<or> on_exit s);
          m = link_prev m prev (is_branch_taken (m_em s)) (pc_start b0)
      in
      case block_at m (Some (pc_start b0)) of
        None \<Rightarrow> None
      | Some b \<Rightarrow>
          (case run_chain E m t b (start_ctx rv ((m_em s)\<lparr>last_pc := PC rv\<rparr>)) of
             None \<Rightarrow> None
           | Some (r, rv, em, t) \<Rightarrow>
               let s = s\<lparr>m_rv := rv, m_em := em, m_map := m, m_tables := t, on_exit := ex\<rparr> in
               Some (if r then (True, s\<lparr>m_em := em\<lparr>prof := prof_on_inst (prof em)\<rparr>, m_prev := Some (pc_start b0)\<rparr>)
                     else (False, s\<lparr>m_prev := None\<rparr>))))"

definition step_block :: "features \<Rightarrow> env \<Rightarrow> allocator \<Rightarrow> machine \<Rightarrow> (bool \<times> machine) option" where
  "step_block cfg E al s =
     (case update_prev (m_map s) (m_em s) (m_prev s) of
        None \<Rightarrow> None
      | Some prev \<Rightarrow>
          let missing = (block_find (m_map s) (PC (m_rv s)) = Some None) in
          (case block_find_or_translate cfg E al (m_rv s) (m_map s) prev of
             None \<Rightarrow> None
           | Some (None, rv, m, prev) \<Rightarrow> Some (False, s\<lparr>m_rv := rv\<lparr>halt := True\<rparr>, m_map := m, m_prev := prev\<rparr>)
           | Some (Some b, rv, m, prev) \<Rightarrow>
               enter_block E s b rv m prev
                 (if missing then (m_tables s)(pc_start b := branch_table_init) else m_tables s)))"

partial_function (option) step_loop ::
  "features \<Rightarrow> env \<Rightarrow> allocator \<Rightarrow> u64 \<Rightarrow> machine \<Rightarrow> machine option" where
  "step_loop cfg E al cycles_target s =
     (if csr_cycle (m_rv s) < cycles_target \<and> \<not> halt (m_rv s) then
        (case step_block cfg E al s of
           None \<Rightarrow> None
         | Some (go, s') \<Rightarrow> if go then step_loop cfg E al cycles_target s' else Some s')
      else Some s)"

definition rv_step :: "features \<Rightarrow> env \<Rightarrow> allocator \<Rightarrow> u32 \<Rightarrow> machine \<Rightarrow> machine option" where
  "rv_step cfg E al cycle_per_step s =
     step_loop cfg E al (csr_cycle (m_rv s) + ucast cycle_per_step) s"

section \<open>The shape of a block that is new in the map\<close>

definition good_ir :: "rv_insn \<Rightarrow> bool" where
  "good_ir ir \<longleftrightarrow> ir_branch_taken ir = None \<and> ir_branch_untaken ir = None \<and> saves_cycle (ir_opcode ir)"

definition block_shape :: "rv_insn list \<Rightarrow> bool" where
  "block_shape irs \<longleftrightarrow> irs \<noteq> [] \<and> no_flow (butlast irs) \<and> list_all (\<lambda>ir. saves_cycle (ir_opcode ir)) irs"

lemmas shape_defs = good_ir_def saves_cycle_def flow_def branch_defs

lemma constopt_shape_rv32i:
  "ir_opcode ir = RV32I i \<Longrightarrow> good_ir ir \<Longrightarrow> rv32i_constopt i ir info = Some (ir', info') \<Longrightarrow>
   good_ir ir' \<and> flow ir' = flow ir"
  by (cases i) (auto simp: constopt_defs rewrite_defs shape_defs Let_def split: if_splits)

lemma constopt_shape_rv32m:
  "ir_opcode ir = RV32M i \<Longrightarrow> good_ir ir \<Longrightarrow> rv32m_constopt i ir info = Some (ir', info') \<Longrightarrow>
   good_ir ir' \<and> flow ir' = flow ir"
  by (cases i) (auto simp: constopt_defs rewrite_defs shape_defs Let_def split: if_splits)

lemma constopt_shape_rv32c:
  "ir_opcode ir = RV32C i \<Longrightarrow> good_ir ir \<Longrightarrow> rv32c_constopt i ir info = Some (ir', info') \<Longrightarrow>
   good_ir ir' \<and> flow ir' = flow ir"
  by (cases i) (auto simp: constopt_defs rewrite_defs shape_defs Let_def split: if_splits)

lemma constopt_shape:
  assumes "constopt ir info = Some (ir', info')" "good_ir ir"
  shows "good_ir ir' \<and> flow ir' = flow ir"
  using assms constopt_shape_rv32i [of ir _ info ir' info'] constopt_shape_rv32m [of ir _ info ir' info']
    constopt_shape_rv32c [of ir _ info ir' info']
  by (cases "ir_opcode ir") (auto dest: constopt_kept)

lemma constopt_loop_shape:
  "constopt_loop irs info = Some irs' \<Longrightarrow> list_all good_ir irs \<Longrightarrow>
   list_all good_ir irs' \<and> map flow irs' = map flow irs"
proof (induction irs arbitrary: info irs')
  case (Cons ir irs)
  from Cons.prems(1) obtain ir' info' irs'' where i: "constopt ir info = Some (ir', info')"
    "constopt_loop irs info' = Some irs''" "irs' = ir' # irs''"
    by (auto split: option.splits)
  with constopt_shape [OF i(1)] Cons.IH [OF i(2)] Cons.prems(2) show ?case by simp
qed simp

lemma no_flow_map: "no_flow (butlast irs) \<longleftrightarrow> list_all Not (butlast (map flow irs))"
  by (simp add: no_flow_def list.pred_map comp_def flip: map_butlast)

lemma no_flow_drop: "no_flow (butlast xs) \<Longrightarrow> no_flow (butlast (drop k xs))"
  by (simp add: no_flow_def list_all_iff butlast_drop) (meson in_set_dropD)

definition shape_step :: "rv_insn list \<Rightarrow> rv_insn \<times> rv_insn list \<Rightarrow> bool" where
  "shape_step xs r \<longleftrightarrow> good_ir (fst r) \<and> (snd r = [] \<or> \<not> flow (fst r)) \<and> (\<exists>k. snd r = drop k xs)"

lemma shape_keep: "good_ir ir \<Longrightarrow> \<not> flow ir \<Longrightarrow> shape_step xs (ir, xs)"
  unfolding shape_step_def by (auto intro: exI [of _ 0])

lemma shape_remove: "good_ir ir \<Longrightarrow> \<not> flow ir \<or> length xs = 1 \<Longrightarrow> shape_step xs (ir, remove_next_nth_ir 1 xs)"
  unfolding shape_step_def remove_next_nth_ir_def by (auto intro: exI [of _ 1])

lemma shape_sequence:
  assumes "good_ir ir" "\<not> flow ir" "i \<notin> {rv_insn_fuse6, rv_insn_fuse12}"
  shows "shape_step xs (try_fuse_sequence malloc ir xs n i)"
  using assms shape_keep [OF assms(1,2), of xs]
  by (auto simp: try_fuse_sequence_def shape_step_def shape_defs remove_next_nth_ir_def)

lemma shape_fuse_lui:
  "good_ir ir \<Longrightarrow> ir_opcode ir = RV32I rv_insn_lui \<Longrightarrow> shape_step (next_ir # irs) (fuse_lui malloc ir next_ir irs)"
  unfolding fuse_lui_def
  by (simp add: shape_sequence shape_keep shape_remove shape_defs)

lemma shape_fuse_lw:
  "good_ir ir \<Longrightarrow> ir_opcode ir = RV32I rv_insn_lw \<Longrightarrow> shape_step (next_ir # irs) (fuse_lw malloc ir next_ir irs)"
  unfolding fuse_lw_def
  by (simp add: shape_sequence shape_keep shape_remove shape_defs)

lemma shape_fuse_addi:
  assumes "good_ir ir" "good_ir next_ir" "ir_opcode ir = RV32I rv_insn_addi" "flow next_ir \<Longrightarrow> irs = []"
  shows "shape_step (next_ir # irs) (fuse_addi cfg malloc ir next_ir irs)"
proof -
  have "irs = []" if "ir_opcode next_ir \<in> {RV32I rv_insn_ecall, RV32I rv_insn_bne}"
    using that by (intro assms(4)) (auto simp: flow_def branch_defs)
  with assms(1-3) show ?thesis
    unfolding fuse_addi_def by (simp add: shape_sequence shape_keep shape_remove shape_defs)
qed

lemma fuse_at_shape:
  assumes "good_ir ir" "good_ir next_ir" "\<not> flow ir" "flow next_ir \<Longrightarrow> irs = []"
  shows "shape_step (next_ir # irs) (fuse_at cfg malloc ir next_ir irs)"
  using assms unfolding fuse_at_def
  by (simp add: shape_sequence shape_keep shape_fuse_lui shape_fuse_lw shape_fuse_addi)

lemma match_pattern_shape:
  "list_all good_ir irs \<Longrightarrow> no_flow (butlast irs) \<Longrightarrow> irs \<noteq> [] \<Longrightarrow>
   list_all good_ir (match_pattern cfg malloc irs) \<and> no_flow (butlast (match_pattern cfg malloc irs)) \<and>
   match_pattern cfg malloc irs \<noteq> []"
proof (induction cfg malloc irs rule: match_pattern.induct)
  case (3 cfg malloc ir next_ir irs)
  obtain ir' irs' where f: "fuse_at cfg malloc ir next_ir irs = (ir', irs')" by fastforce
  from "3.prems" have "flow next_ir \<Longrightarrow> irs = []" by (cases irs) (simp_all add: no_flow_def)
  with "3.prems" fuse_at_shape [of ir next_ir irs cfg malloc] f
  have "good_ir ir'" "irs' = [] \<or> \<not> flow ir'" "\<exists>k. irs' = drop k (next_ir # irs)"
    by (simp_all add: shape_step_def no_flow_def)
  then obtain k where k: "good_ir ir'" "irs' = [] \<or> \<not> flow ir'" "irs' = drop k (next_ir # irs)" by blast
  have sub: "list_all good_ir irs'" "no_flow (butlast irs')"
    using "3.prems" no_flow_drop [of "next_ir # irs" k] set_drop_subset [of k "next_ir # irs"] unfolding k(3)
    by (fastforce simp: list_all_iff no_flow_def)+
  show ?case
  proof (cases "irs' = []")
    case True
    with f k(1) show ?thesis by (simp add: no_flow_def)
  next
    case False
    with "3.IH" [OF f [symmetric] refl sub False] f k(1,2) show ?thesis by (simp add: no_flow_def)
  qed
qed (simp_all add: no_flow_def)

text \<open>The instructions that end a run of the block without being its last or without storing the
  cycle counter.\<close>

definition quiet :: "rv_insn \<Rightarrow> bool" where
  "quiet ir \<longleftrightarrow> ir_opcode ir \<notin>
     {RVPriv rv_insn_wfi, RVPriv rv_insn_uret, RVPriv rv_insn_hret, RVPriv rv_insn_mret}"

lemma decoded_good:
  assumes "rv_decode cfg ir_calloc insn = Decoded ir0" "quiet (ir0\<lparr>ir_pc := pc\<rparr>)"
  shows "good_ir (ir0\<lparr>ir_pc := pc\<rparr>)" "flow (ir0\<lparr>ir_pc := pc\<rparr>) = insn_is_branch (ir_opcode ir0)"
  using rv_decode_fresh [of cfg insn] assms
  by (auto simp: fresh_def good_ir_def saves_cycle_def quiet_def flow_def)

lemma decode_chain_good:
  "decode_chain cfg m pc irs = Some pc' \<Longrightarrow> list_all quiet irs \<Longrightarrow>
   list_all good_ir irs \<and> list_all (\<lambda>ir. flow ir = insn_is_branch (ir_opcode ir)) irs"
proof (induction irs arbitrary: pc)
  case (Cons ir irs)
  from Cons.prems(1) obtain insn ir0 where i: "rv_decode cfg ir_calloc insn = Decoded ir0"
    "ir = ir0\<lparr>ir_pc := pc\<rparr>" "decode_chain cfg m (pc + insn_size insn) irs = Some pc'"
    by (auto split: option.splits decode_result.splits if_splits)
  with Cons.IH [OF i(3)] Cons.prems(2) decoded_good [OF i(1), of pc] show ?case by simp
qed simp

lemma translated_shape:
  assumes "block_translate cfg E al rv = Some (Some b, rv')" "list_all quiet (block_irs b)"
    and "optimize_constant rv'' (block_irs b) = Some irs"
  shows "block_shape (match_pattern cfg malloc irs)" "list_all good_ir (match_pattern cfg malloc irs)"
proof -
  from block_translate_stops [OF assms(1)] have t: "block_irs b \<noteq> []" "straight (butlast (block_irs b))"
    and "decode_chain cfg (mem rv) (PC rv) (block_irs b) = Some (pc_end b)" by (simp_all add: stops_ok_def)
  from decode_chain_good [OF this(3) assms(2)] have g: "list_all good_ir (block_irs b)" "no_flow (butlast (block_irs b))"
    using t(2) by (auto simp: no_flow_def list_all_iff dest: in_set_butlastD)
  from assms(3) have "constopt_loop (block_irs b) constopt_init = Some irs"
    by (simp add: optimize_constant_def split: if_splits)
  from constopt_loop_shape [OF this g(1)] g(2) t(1) have "list_all good_ir irs" "no_flow (butlast irs)" "irs \<noteq> []"
    by (auto simp: no_flow_map)
  from match_pattern_shape [OF this, of cfg malloc]
  show "block_shape (match_pattern cfg malloc irs)" "list_all good_ir (match_pattern cfg malloc irs)"
    by (auto simp: block_shape_def list_all_iff good_ir_def)
qed

section \<open>The invariant\<close>

definition has :: "block_map \<Rightarrow> u32 \<Rightarrow> bool" where
  "has m a \<longleftrightarrow> (\<exists>b. holds m b \<and> pc_start b = a)"

lemma block_at_Some:
  assumes "bm_wf m"
  shows "block_at m p = Some b \<longleftrightarrow> holds m b \<and> p = Some (pc_start b)"
proof (cases p)
  case (Some a)
  obtain r where r: "block_find m a = Some r" "\<And>b. r = Some b \<longleftrightarrow> holds m b \<and> pc_start b = a"
    using find_result [OF assms, of a] by blast
  from r(1) have "block_at m p = r" unfolding Some block_at_def by simp
  with r(2) [of b] Some show ?thesis by (simp only:) blast
qed (simp add: block_at_def)

lemma block_at_has: "bm_wf m \<Longrightarrow> has m a \<Longrightarrow> \<exists>b. block_at m (Some a) = Some b"
  unfolding has_def using block_at_Some by blast

definition map_blocks :: "(block \<Rightarrow> block) \<Rightarrow> block_map \<Rightarrow> block_map" where
  "map_blocks f m = m\<lparr>bm_map := map (map_option f) (bm_map m)\<rparr>"

lemma map_blocks_sel [simp]:
  "block_capacity (map_blocks f m) = block_capacity m" "bm_size (map_blocks f m) = bm_size m"
  "bm_map (map_blocks f m) = map (map_option f) (bm_map m)"
  by (simp_all add: map_blocks_def)

lemma map_blocks_cell: "length (bm_map m) = 1024 \<Longrightarrow> cell (map_blocks f m) a j = map_option f (cell m a j)"
  using slot_less [of a j] by (simp add: cell_def)

lemma map_blocks_passes:
  assumes "length (bm_map m) = 1024" "\<And>b. pc_start (f b) = pc_start b"
  shows "passes (map_blocks f m) a k = passes m a k"
proof -
  have "(\<exists>b. map_option f x = Some b \<and> pc_start b \<noteq> a) = (\<exists>b. x = Some b \<and> pc_start b \<noteq> a)" for x
    by (cases x) (simp_all add: assms(2))
  then show ?thesis unfolding passes_def map_blocks_cell [OF assms(1)] by (simp only:)
qed

lemma map_blocks_wf:
  assumes "bm_wf m" "\<And>b. pc_start (f b) = pc_start b"
  shows "bm_wf (map_blocks f m)"
proof -
  from assms(1) have len: "length (bm_map m) = 1024"
    and inv: "\<And>i b. i < 1024 \<Longrightarrow> bm_map m ! i = Some b \<Longrightarrow> \<exists>j. slot (pc_start b) j = i \<and> passes m (pc_start b) j"
    by (simp_all add: bm_wf_def)
  have fil: "filled (map_blocks f m) = filled m"
    unfolding filled_def by (simp add: filter_map comp_def)
  have "\<exists>j. slot (pc_start b) j = i \<and> passes (map_blocks f m) (pc_start b) j"
    if i: "i < 1024" "bm_map (map_blocks f m) ! i = Some b" for i b
  proof -
    from i len obtain b0 where b0: "bm_map m ! i = Some b0" "b = f b0" by auto
    from inv [OF i(1) b0(1)] show ?thesis unfolding map_blocks_passes [OF len assms(2)] b0(2) assms(2) .
  qed
  with assms(1) fil show ?thesis unfolding bm_wf_def by (simp add: len)
qed

lemma map_blocks_holds:
  assumes "bm_wf m"
  shows "holds (map_blocks f m) b \<longleftrightarrow> (\<exists>b0. holds m b0 \<and> b = f b0)"
proof -
  from assms have "length (bm_map m) = 1024" by (simp add: bm_wf_def)
  then have "holds (map_blocks f m) b \<longleftrightarrow> (\<exists>i < 1024. map_option f (bm_map m ! i) = Some b)"
    by (auto simp: holds_def)
  also have "\<dots> \<longleftrightarrow> (\<exists>b0. holds m b0 \<and> b = f b0)"
    unfolding holds_def map_option_eq_Some by blast
  finally show ?thesis .
qed

text \<open>A link leads where the operation goes, and to a block that exists.\<close>

definition links_ok :: "block_map \<Rightarrow> block \<Rightarrow> bool" where
  "links_ok m b \<longleftrightarrow> (let irs = block_irs b; ir = last irs in
     (\<forall>p. ir_opcode ir \<in> direct_ops \<union> cond_ops \<longrightarrow> ir_branch_taken ir = Some p \<longrightarrow>
        p = taken_target (pc_start b) irs \<and> has m p) \<and>
     (\<forall>p. ir_opcode ir \<in> cond_ops \<longrightarrow> ir_branch_untaken ir = Some p \<longrightarrow> p = pc_start b + span irs \<and> has m p))"

definition table_ok :: "block_map \<Rightarrow> branch_history_table \<Rightarrow> bool" where
  "table_ok m t \<longleftrightarrow> length (bt_PC t) = HISTORY_SIZE \<and> length (bt_target t) = HISTORY_SIZE \<and>
     bt_idx t < HISTORY_SIZE \<and>
     (\<forall>i < HISTORY_SIZE. \<forall>p. bt_target t ! i = Some p \<longrightarrow> bt_PC t ! i = p \<and> has m p)"

definition unlink_block :: "block \<Rightarrow> block" where
  "unlink_block b = b\<lparr>block_irs := map unlink_ir (block_irs b)\<rparr>"

definition block_inv :: "block set \<Rightarrow> block_map \<Rightarrow> (u32 \<Rightarrow> branch_history_table) \<Rightarrow> block \<Rightarrow> bool" where
  "block_inv B m t b \<longleftrightarrow> block_shape (block_irs b) \<and> unlink_block b \<in> B \<and> links_ok m b \<and> table_ok m (t (pc_start b))"

definition blocks_inv :: "block set \<Rightarrow> block_map \<Rightarrow> (u32 \<Rightarrow> branch_history_table) \<Rightarrow> bool" where
  "blocks_inv B m t \<longleftrightarrow> bm_wf m \<and> (\<forall>b. holds m b \<longrightarrow> block_inv B m t b)"

text \<open>The last block that was entered from \<^verbatim>\<open>rv_step\<close> or over a link left for \<open>pc\<close>, if its
  last operation can be linked.\<close>

definition came_from :: "block_map \<Rightarrow> emu \<Rightarrow> u32 \<Rightarrow> bool" where
  "came_from m em pc \<longleftrightarrow> (\<forall>b. holds m b \<longrightarrow> pc_start b = last_pc em \<longrightarrow>
     (let irs = block_irs b; op = ir_opcode (last irs) in
      (op \<in> direct_ops \<longrightarrow> pc = taken_target (pc_start b) irs) \<and>
      (op \<in> cond_ops \<longrightarrow>
         pc = (if is_branch_taken em then taken_target (pc_start b) irs else pc_start b + span irs))))"

definition at_block :: "block_map \<Rightarrow> block \<Rightarrow> emu \<Rightarrow> bool" where
  "at_block m b em \<longleftrightarrow> last_pc em = pc_start b \<or>
     (\<forall>b'. holds m b' \<longrightarrow> pc_start b' = last_pc em \<longrightarrow> ir_opcode (last (block_irs b')) \<notin> direct_ops \<union> cond_ops)"

section \<open>Running block by block\<close>

text \<open>A block run from \<^verbatim>\<open>rv_step\<close> and back, without links.\<close>

definition plain_block :: "env \<Rightarrow> block \<Rightarrow> riscv \<Rightarrow> bool \<Rightarrow> riscv \<Rightarrow> bool" where
  "plain_block E b rv r rv' \<longleftrightarrow> pc_start b = PC rv \<and>
     (\<exists>em em'. stop (run_block E (block_irs b) rv em) = Return r rv' em')"

inductive plain_run :: "env \<Rightarrow> block set \<Rightarrow> riscv \<Rightarrow> bool \<Rightarrow> riscv \<Rightarrow> bool" for E B where
  last: "b \<in> B \<Longrightarrow> plain_block E b rv r rv' \<Longrightarrow> plain_run E B rv r rv'"
| step: "b \<in> B \<Longrightarrow> plain_block E b rv True rv1 \<Longrightarrow> plain_run E B rv1 r rv' \<Longrightarrow> plain_run E B rv r rv'"

definition store :: "ctx \<Rightarrow> riscv" where
  "store c = (c_rv c)\<lparr>csr_cycle := c_cycle c, PC := c_pc c\<rparr>"

lemma settle_erase:
  assumes "erase r = erase s"
  shows "settle r = settle s"
proof -
  have "settle_ctx (erase_ctx c) = settle_ctx c" for c by (simp add: erase_ctx_def settle_ctx_def)
  then have "settle (erase r) = settle r" for r by (cases r) simp_all
  with assms show ?thesis by metis
qed

lemma settle_stop:
  assumes "settle r = settle s"
  shows "settle (stop r) = settle (stop s)"
proof -
  have "settle (finish c) = settle (finish (settle_ctx c))" for c
    by (rule settle_finish) (rule settle_ctx_simps(9) [symmetric])
  then have "settle (stop r) = settle (stop (settle r))" for r
    by (cases r) (simp_all only: settle.simps stop.simps)
  with assms show ?thesis by metis
qed

lemma exec_plain:
  assumes "block_shape (block_irs b)" "c_pc c = pc_start b" "stop (exec E (block_irs b) c) = Return r rv' em'"
  shows "plain_block E (unlink_block b) (store c) r rv'"
proof -
  let ?d = "start_ctx (store c) (c_em c)" and ?irs = "block_irs b"
  have "settle_ctx c = settle_ctx ?d"
    by (cases c) (simp add: settle_ctx_def settle_rv_def start_ctx_def store_def)
  with assms(1) have "settle (exec E ?irs c) = settle (exec E ?irs ?d)"
    by (intro st_exec) (simp_all add: block_shape_def)
  then have "settle (stop (exec E ?irs c)) = settle (stop (exec E ?irs ?d))" by (rule settle_stop)
  moreover have "settle (stop (exec E (map unlink_ir ?irs) ?d)) = settle (stop (exec E ?irs ?d))"
    using assms(1) by (intro settle_erase stop_exec_unlink) (simp add: block_shape_def)
  ultimately have "settle (stop (exec E (map unlink_ir ?irs) ?d)) = Return r rv' emu_init"
    unfolding assms(3) by simp
  then obtain em where "stop (exec E (map unlink_ir ?irs) ?d) = Return r rv' em"
    by (cases "stop (exec E (map unlink_ir ?irs) ?d)") simp_all
  with assms(2) show ?thesis
    by (auto simp: plain_block_def run_block_def unlink_block_def store_def)
qed

section \<open>A chain is a sequence of blocks\<close>

lemma holds_unique:
  assumes "bm_wf m" "holds m b" "holds m b'" "pc_start b = pc_start b'"
  shows "b = b'"
proof -
  have "block_at m (Some (pc_start b)) = Some b" "block_at m (Some (pc_start b)) = Some b'"
    unfolding block_at_Some [OF assms(1)] using assms(2-4) by simp_all
  then show ?thesis by simp
qed

lemma blocks_invD:
  assumes "blocks_inv B m t" "holds m b"
  shows "bm_wf m" "block_irs b \<noteq> []" "no_flow (butlast (block_irs b))" "block_shape (block_irs b)"
    "unlink_block b \<in> B" "links_ok m b" "table_ok m (t (pc_start b))"
  using assms by (auto simp: blocks_inv_def block_inv_def block_shape_def)

lemma chain_return:
  assumes "blocks_inv B m t" "holds m b" "c_pc c = pc_start b" "at_block m b (c_em c)"
    and ret: "exec E (block_irs b) c = Return True rv em"
  shows "came_from m em (PC rv)"
  unfolding came_from_def Let_def
proof (intro allI impI)
  fix b'
  assume b': "holds m b'" "pc_start b' = last_pc em"
  note i = blocks_invD [OF assms(1,2)]
  note r = exec_Return [OF i(2,3) ret]
  show "(ir_opcode (last (block_irs b')) \<in> direct_ops \<longrightarrow> PC rv = taken_target (pc_start b') (block_irs b')) \<and>
    (ir_opcode (last (block_irs b')) \<in> cond_ops \<longrightarrow> PC rv = (if is_branch_taken em
      then taken_target (pc_start b') (block_irs b') else pc_start b' + span (block_irs b')))"
  proof (cases "last_pc (c_em c) = pc_start b")
    case True
    with b'(2) r(1) have "pc_start b' = pc_start b" by simp
    with holds_unique [OF i(1) b'(1) assms(2)] have "b' = b" by blast
    with r(2,3) assms(3) show ?thesis by simp
  next
    case False
    with assms(4) b' r(1) have "ir_opcode (last (block_irs b')) \<notin> direct_ops \<union> cond_ops"
      unfolding at_block_def by simp
    then show ?thesis by blast
  qed
qed

lemma chain_taken:
  assumes "blocks_inv B m t" "holds m b" "c_pc c = pc_start b"
    and "exec E (block_irs b) c = Taken c'" "block_at m (ir_branch_taken (last (block_irs b))) = Some b'"
  shows "holds m b'" "c_pc c' = pc_start b'" "at_block m b' (c_em c')"
proof -
  note i = blocks_invD [OF assms(1,2)]
  note x = exec_Taken [OF i(2,3) assms(4)]
  from assms(5) show h: "holds m b'" by (simp add: block_at_Some [OF i(1)])
  from assms(5) have "ir_branch_taken (last (block_irs b)) = Some (pc_start b')" by (simp add: block_at_Some [OF i(1)])
  with i(6) x(1) have "pc_start b' = taken_target (pc_start b) (block_irs b)"
    unfolding links_ok_def Let_def by blast
  with x(3) assms(3) show pc: "c_pc c' = pc_start b'" by simp
  with x(4) show "at_block m b' (c_em c')" by (simp add: at_block_def)
qed

lemma chain_untaken:
  assumes "blocks_inv B m t" "holds m b" "c_pc c = pc_start b"
    and "exec E (block_irs b) c = Untaken c'" "block_at m (ir_branch_untaken (last (block_irs b))) = Some b'"
  shows "holds m b'" "c_pc c' = pc_start b'" "at_block m b' (c_em c')"
proof -
  note i = blocks_invD [OF assms(1,2)]
  note x = exec_Untaken [OF i(2,3) assms(4)]
  from assms(5) show h: "holds m b'" by (simp add: block_at_Some [OF i(1)])
  from assms(5) have "ir_branch_untaken (last (block_irs b)) = Some (pc_start b')" by (simp add: block_at_Some [OF i(1)])
  with i(6) x(1) have "pc_start b' = pc_start b + span (block_irs b)"
    unfolding links_ok_def Let_def by blast
  with x(3) assms(3) show pc: "c_pc c' = pc_start b'" by simp
  with x(4) show "at_block m b' (c_em c')" by (simp add: at_block_def)
qed

lemma chain_indirect:
  assumes "blocks_inv B m t" "holds m b" "at_block m b (c_em c)" "exec E (block_irs b) c = Indirect c'"
  shows "at_block m b' (c_em c')" "came_from m (c_em c') pc"
proof -
  note i = blocks_invD [OF assms(1,2)]
  note x = exec_Indirect [OF i(2,3) assms(4)]
  have "ir_opcode (last (block_irs b'')) \<notin> direct_ops \<union> cond_ops" if "holds m b''" "pc_start b'' = last_pc (c_em c')" for b''
  proof (cases "last_pc (c_em c) = pc_start b")
    case True
    with that(2) x(2) have "pc_start b'' = pc_start b" by simp
    with holds_unique [OF i(1) that(1) assms(2)] x(1) show ?thesis by blast
  next
    case False
    with assms(3) that x(2) show ?thesis unfolding at_block_def by simp
  qed
  then show "at_block m b' (c_em c')" "came_from m (c_em c') pc"
    unfolding at_block_def came_from_def Let_def by blast+
qed

lemma table_hit:
  assumes "table_ok m t" "branch_table_find t pc = Some i" "bt_target t ! i = Some p"
  shows "p = pc"
  using assms unfolding table_ok_def branch_table_find_def find_Some_iff by auto

lemma table_update:
  assumes "table_ok m t" "has m pc"
  shows "table_ok m (branch_table_update pc t)"
  using assms unfolding table_ok_def branch_table_update_def by (auto simp: nth_list_update)

lemma blocks_inv_update:
  assumes "blocks_inv B m t" "has m pc" "holds m b"
  shows "blocks_inv B m (t(pc_start b := branch_table_update pc (t (pc_start b))))"
  using assms(1) table_update [OF blocks_invD(7) [OF assms(1,3)] assms(2)] by (simp add: blocks_inv_def block_inv_def)

definition chain_ok :: "block set \<Rightarrow> env \<Rightarrow> block_map \<Rightarrow> (u32 \<Rightarrow> branch_history_table) \<Rightarrow> block \<Rightarrow> ctx \<Rightarrow>
    bool \<times> riscv \<times> emu \<times> (u32 \<Rightarrow> branch_history_table) \<Rightarrow> bool" where
  "chain_ok B E m t b c y \<longleftrightarrow> blocks_inv B m t \<longrightarrow> holds m b \<longrightarrow> c_pc c = pc_start b \<longrightarrow> at_block m b (c_em c) \<longrightarrow>
     (case y of (r, rv', em', t') \<Rightarrow>
        (r \<longrightarrow> came_from m em' (PC rv')) \<and> blocks_inv B m t' \<and> plain_run E B (store c) r rv')"

lemma chain_next:
  assumes "chain_ok B E m t' b' c' y" "holds m b'" "c_pc c' = pc_start b'" "at_block m b' (c_em c')"
    and "blocks_inv B m t" "blocks_inv B m t'" "holds m b" "c_pc c = pc_start b"
    and "stop (exec E (block_irs b) c) = finish c'"
  shows "chain_ok B E m t b c y"
proof -
  obtain r rv' em' t'' where y: "y = (r, rv', em', t'')" by (cases y)
  note i = blocks_invD [OF assms(5,7)]
  have "plain_block E (unlink_block b) (store c) True (store c')"
    using assms(9) unfolding finish_def store_def [symmetric] by (rule exec_plain [OF i(4) assms(8)])
  with i(5) assms(1-4,6) show ?thesis
    unfolding chain_ok_def y by (auto intro: plain_run.step)
qed

lemma chain_end:
  assumes "blocks_inv B m t" "holds m b" "c_pc c = pc_start b" "stop (exec E (block_irs b) c) = Return r rv em"
    and "r \<Longrightarrow> came_from m em (PC rv)"
  shows "chain_ok B E m t b c (r, rv, em, t)"
proof -
  note i = blocks_invD [OF assms(1,2)]
  from i(5) exec_plain [OF i(4) assms(3,4)] have "plain_run E B (store c) r rv" by (rule plain_run.last)
  with assms(1,5) show ?thesis by (simp add: chain_ok_def)
qed

lemma chain_indirect_step:
  assumes IH: "\<And>E m t b c y. loop E m t b c = Some y \<Longrightarrow> chain_ok B E m t b c y"
    and ind: "exec E (block_irs b) c = Indirect c'"
    and step: "(let table = t (pc_start b) in
           case branch_table_find table (c_pc c') of
             None \<Rightarrow>
               (case block_find m (c_pc c') of
                  None \<Rightarrow> None
                | Some None \<Rightarrow> Some (True, (c_rv c')\<lparr>csr_cycle := c_cycle c', PC := c_pc c'\<rparr>, c_em c', t)
                | Some (Some b') \<Rightarrow>
                    loop E m (t(pc_start b := branch_table_update (c_pc c') table)) b' c')
           | Some i \<Rightarrow> (case block_at m (bt_target table ! i) of None \<Rightarrow> None | Some b' \<Rightarrow> loop E m t b' c')) = Some y"
    and inv: "blocks_inv B m t" "holds m b" "c_pc c = pc_start b" "at_block m b (c_em c)"
  shows "chain_ok B E m t b c y"
proof -
  note i = blocks_invD [OF inv(1,2)]
  note at = chain_indirect [OF inv(1,2,4) ind]
  have stop: "stop (exec E (block_irs b) c) = finish c'" using ind by simp
  show ?thesis
  proof (cases "branch_table_find (t (pc_start b)) (c_pc c')")
    case (Some k)
    with step obtain b' where b': "block_at m (bt_target (t (pc_start b)) ! k) = Some b'"
      "loop E m t b' c' = Some y" by (auto split: option.splits)
    then have h: "holds m b'" "bt_target (t (pc_start b)) ! k = Some (pc_start b')"
      by (simp_all add: block_at_Some [OF i(1)])
    show ?thesis
      by (rule chain_next [OF IH [OF b'(2)] h(1) table_hit [OF i(7) Some h(2), symmetric] at(1) inv(1,1-3) stop])
  next
    case None
    show ?thesis
    proof (cases "block_find m (c_pc c') = Some None")
      case True
      with step None have "y = (True, store c', c_em c', t)" by (simp add: store_def)
      with chain_end [OF inv(1-3) stop [unfolded finish_def store_def [symmetric]] at(2)] show ?thesis by simp
    next
      case False
      with step None obtain b' where b': "block_find m (c_pc c') = Some (Some b')"
        "loop E m (t(pc_start b := branch_table_update (c_pc c') (t (pc_start b)))) b' c' = Some y"
        by (auto split: option.splits)
      from b'(1) have "block_at m (Some (c_pc c')) = Some b'" by (simp add: block_at_def)
      then have h: "holds m b'" "c_pc c' = pc_start b'" by (simp_all add: block_at_Some [OF i(1)])
      have "has m (c_pc c')" using h by (auto simp: has_def)
      from chain_next [OF IH [OF b'(2)] h at(1) inv(1) blocks_inv_update [OF inv(1) this inv(2)] inv(2,3) stop]
      show ?thesis .
    qed
  qed
qed

lemma chain_okI:
  "(blocks_inv B m t \<Longrightarrow> holds m b \<Longrightarrow> c_pc c = pc_start b \<Longrightarrow> at_block m b (c_em c) \<Longrightarrow> chain_ok B E m t b c y) \<Longrightarrow>
   chain_ok B E m t b c y"
  unfolding chain_ok_def by blast

lemma run_chain_ok: "run_chain E m t b c = Some y \<Longrightarrow> chain_ok B E m t b c y"
proof (rule run_chain.raw_induct [where P = "\<lambda>E m t b c y. chain_ok B E m t b c y"])
  fix loop :: "env \<Rightarrow> block_map \<Rightarrow> (u32 \<Rightarrow> branch_history_table) \<Rightarrow> block \<Rightarrow> ctx \<Rightarrow>
     (bool \<times> riscv \<times> emu \<times> (u32 \<Rightarrow> branch_history_table)) option" and E m t and b :: block and c :: ctx and y
  assume IH: "\<And>E m t b c y. loop E m t b c = Some y \<Longrightarrow> chain_ok B E m t b c y"
  assume step: "(case exec E (block_irs b) c of
        Nextop ctx \<Rightarrow> None | End_op ctx \<Rightarrow> None
      | Return r rv em \<Rightarrow> Some (r, rv, em, t)
      | Taken c' \<Rightarrow> (case block_at m (ir_branch_taken (last (block_irs b))) of None \<Rightarrow> None | Some b' \<Rightarrow> loop E m t b' c')
      | Untaken c' \<Rightarrow>
          (case block_at m (ir_branch_untaken (last (block_irs b))) of None \<Rightarrow> None | Some b' \<Rightarrow> loop E m t b' c')
      | Indirect c' \<Rightarrow>
          (let table = t (pc_start b) in
           case branch_table_find table (c_pc c') of
             None \<Rightarrow>
               (case block_find m (c_pc c') of
                  None \<Rightarrow> None
                | Some None \<Rightarrow> Some (True, (c_rv c')\<lparr>csr_cycle := c_cycle c', PC := c_pc c'\<rparr>, c_em c', t)
                | Some (Some b') \<Rightarrow>
                    loop E m (t(pc_start b := branch_table_update (c_pc c') table)) b' c')
           | Some i \<Rightarrow> (case block_at m (bt_target table ! i) of None \<Rightarrow> None | Some b' \<Rightarrow> loop E m t b' c'))
      | Undef \<Rightarrow> None) = Some y"
  show "chain_ok B E m t b c y"
  proof (rule chain_okI)
    assume inv: "blocks_inv B m t" "holds m b" "c_pc c = pc_start b" "at_block m b (c_em c)"
    show ?thesis
    proof (cases "exec E (block_irs b) c")
      case (Return r rv em)
      with step chain_end [OF inv(1-3), of E r rv em] chain_return [OF inv, of E rv em] show ?thesis by auto
    next
      case (Taken c')
      with step obtain b' where b': "block_at m (ir_branch_taken (last (block_irs b))) = Some b'"
        "loop E m t b' c' = Some y" by (auto split: option.splits)
      show ?thesis
        using chain_next [OF IH [OF b'(2)] chain_taken [OF inv(1-3) Taken b'(1)] inv(1,1-3)] Taken by simp
    next
      case (Untaken c')
      with step obtain b' where b': "block_at m (ir_branch_untaken (last (block_irs b))) = Some b'"
        "loop E m t b' c' = Some y" by (auto split: option.splits)
      show ?thesis
        using chain_next [OF IH [OF b'(2)] chain_untaken [OF inv(1-3) Untaken b'(1)] inv(1,1-3)] Untaken by simp
    next
      case (Indirect c')
      show ?thesis
        by (rule chain_indirect_step [where loop = loop, OF IH Indirect _ inv]) (use step Indirect in simp_all)
    qed (use step in auto)
  qed
qed

section \<open>Linking keeps the invariant\<close>

lemma link_ir_sel [simp]:
  "ir_opcode (link_ir taken a ir) = ir_opcode ir" "unlink_ir (link_ir taken a ir) = unlink_ir ir"
  "ir_imm (link_ir taken a ir) = ir_imm ir" "ir_imm2 (link_ir taken a ir) = ir_imm2 ir"
  by (simp_all add: link_ir_def unlink_ir_def)

lemma link_ir_len [simp]:
  "op_len (link_ir taken a ir) = op_len ir" "disp (link_ir taken a ir) = disp ir"
  by (cases "ir_opcode ir"; simp add: op_len_def ir_len_def disp_def)+

lemma link_ir_links:
  "ir_opcode ir \<in> direct_ops \<Longrightarrow> ir_branch_taken (link_ir taken a ir) = Some p \<Longrightarrow>
     ir_branch_taken ir = Some p \<or> p = a"
  "ir_opcode ir \<in> cond_ops \<Longrightarrow> ir_branch_taken (link_ir taken a ir) = Some p \<Longrightarrow>
     ir_branch_taken ir = Some p \<or> taken \<and> p = a"
  "ir_opcode ir \<in> cond_ops \<Longrightarrow> ir_branch_untaken (link_ir taken a ir) = Some p \<Longrightarrow>
     ir_branch_untaken ir = Some p \<or> \<not> taken \<and> p = a"
  by (auto simp: link_ir_def insn_is_unconditional_branch_def insn_is_direct_branch_def split: if_splits)

lemma link_block_sel [simp]:
  "pc_start (link_block taken a b) = pc_start b"
  "block_irs (link_block taken a b) = butlast (block_irs b) @ [link_ir taken a (last (block_irs b))]"
  by (simp_all add: link_block_def)

lemma link_block_shape:
  assumes "block_irs b \<noteq> []"
  shows "block_shape (block_irs (link_block taken a b)) = block_shape (block_irs b)"
    "unlink_block (link_block taken a b) = unlink_block b"
    "taken_target pc (block_irs (link_block taken a b)) = taken_target pc (block_irs b)"
    "span (block_irs (link_block taken a b)) = span (block_irs b)"
proof -
  obtain xs x where irs: "block_irs b = xs @ [x]" using assms by (cases "block_irs b" rule: rev_cases) auto
  show "block_shape (block_irs (link_block taken a b)) = block_shape (block_irs b)"
    "unlink_block (link_block taken a b) = unlink_block b"
    "taken_target pc (block_irs (link_block taken a b)) = taken_target pc (block_irs b)"
    "span (block_irs (link_block taken a b)) = span (block_irs b)"
    by (simp_all add: irs block_shape_def unlink_block_def link_block_def taken_target_def span_def)
qed

lemma chain_block_map:
  "chain_block m prev taken a = map_blocks (\<lambda>b. if pc_start b = prev then link_block taken a b else b) m"
  by (simp add: chain_block_def map_blocks_def)

lemma has_map_blocks: "bm_wf m \<Longrightarrow> (\<And>b. pc_start (f b) = pc_start b) \<Longrightarrow> has (map_blocks f m) a = has m a"
  unfolding has_def map_blocks_holds by metis

lemma links_ok_has: "(\<And>a. has m a \<Longrightarrow> has m' a) \<Longrightarrow> links_ok m b \<Longrightarrow> links_ok m' b"
  unfolding links_ok_def Let_def by blast

lemma table_ok_has: "(\<And>a. has m a \<Longrightarrow> has m' a) \<Longrightarrow> table_ok m t \<Longrightarrow> table_ok m' t"
  unfolding table_ok_def by blast

lemma block_inv_has: "(\<And>a. has m a \<Longrightarrow> has m' a) \<Longrightarrow> block_inv B m t b \<Longrightarrow> block_inv B m' t b"
  unfolding block_inv_def using links_ok_has [of m m'] table_ok_has [of m m'] by blast

lemma link_block_links:
  assumes "links_ok m b" "block_irs b \<noteq> []" "has m pc" "holds m b" "pc_start b = last_pc em" "came_from m em pc"
  shows "links_ok m (link_block (is_branch_taken em) pc b)"
proof -
  let ?ir = "last (block_irs b)" and ?irs = "block_irs b"
  from assms(4-6) have c: "ir_opcode ?ir \<in> direct_ops \<Longrightarrow> pc = taken_target (pc_start b) ?irs"
    "ir_opcode ?ir \<in> cond_ops \<Longrightarrow> pc = (if is_branch_taken em then taken_target (pc_start b) ?irs else pc_start b + span ?irs)"
    unfolding came_from_def Let_def by blast+
  from assms(1) have l: "\<And>p. ir_opcode ?ir \<in> direct_ops \<union> cond_ops \<Longrightarrow> ir_branch_taken ?ir = Some p \<Longrightarrow>
      p = taken_target (pc_start b) ?irs \<and> has m p"
    "\<And>p. ir_opcode ?ir \<in> cond_ops \<Longrightarrow> ir_branch_untaken ?ir = Some p \<Longrightarrow> p = pc_start b + span ?irs \<and> has m p"
    unfolding links_ok_def Let_def by blast+
  note ll = link_ir_links [where ir = ?ir and taken = "is_branch_taken em" and a = pc]
  have "p = taken_target (pc_start b) ?irs \<and> has m p"
    if "ir_opcode ?ir \<in> direct_ops \<union> cond_ops" "ir_branch_taken (link_ir (is_branch_taken em) pc ?ir) = Some p" for p
    using that l(1) [OF that(1), of p] c ll(1,2) [of p] assms(3) by auto
  moreover have "p = pc_start b + span ?irs \<and> has m p"
    if "ir_opcode ?ir \<in> cond_ops" "ir_branch_untaken (link_ir (is_branch_taken em) pc ?ir) = Some p" for p
    using that l(2) [OF that(1), of p] c(2) ll(3) [of p] assms(3) by auto
  ultimately show ?thesis
    using link_block_shape [OF assms(2), where taken = "is_branch_taken em" and a = pc] unfolding links_ok_def Let_def by simp
qed

lemma blocks_inv_chain:
  assumes "blocks_inv B m t" "has m pc" "came_from m em pc"
  shows "blocks_inv B (chain_block m (last_pc em) (is_branch_taken em) pc) t"
proof -
  let ?f = "\<lambda>b. if pc_start b = last_pc em then link_block (is_branch_taken em) pc b else b"
  from assms(1) have wf: "bm_wf m" by (simp add: blocks_inv_def)
  have pc: "\<And>b. pc_start (?f b) = pc_start b" by simp
  note hm = has_map_blocks [OF wf pc]
  have "block_inv B (map_blocks ?f m) t (?f b)" if b: "holds m b" for b
  proof (rule block_inv_has [of m])
    note i = blocks_invD [OF assms(1) b]
    show "block_inv B m t (?f b)"
    proof (cases "pc_start b = last_pc em")
      case True
      with i link_block_shape [OF i(2)] link_block_links [OF i(6,2) assms(2) b True assms(3)]
      show ?thesis by (simp add: block_inv_def)
    next
      case False
      with i show ?thesis by (simp add: block_inv_def)
    qed
  qed (simp only: hm)
  then have "\<forall>b. holds (map_blocks ?f m) b \<longrightarrow> block_inv B (map_blocks ?f m) t b"
    unfolding map_blocks_holds [OF wf] by (intro allI impI, elim exE conjE) simp
  then show ?thesis unfolding blocks_inv_def chain_block_map using map_blocks_wf [OF wf pc] by blast
qed

section \<open>Translation keeps the invariant\<close>

text \<open>The blocks that translation and the two optimisers produce.\<close>

definition translated_blocks :: "features \<Rightarrow> env \<Rightarrow> allocator \<Rightarrow> block set" where
  "translated_blocks cfg E al = {b. \<exists>rv b0 rv' irs. block_translate cfg E al rv = Some (Some b0, rv') \<and>
     optimize_constant rv' (block_irs b0) = Some irs \<and> b = b0\<lparr>block_irs := match_pattern cfg (fuse_malloc al) irs\<rparr>}"

definition clean :: "features \<Rightarrow> env \<Rightarrow> allocator \<Rightarrow> machine \<Rightarrow> bool" where
  "clean cfg E al s \<longleftrightarrow> (\<forall>b rv'. block_find (m_map s) (PC (m_rv s)) = Some None \<longrightarrow>
     block_translate cfg E al (m_rv s) = Some (Some b, rv') \<longrightarrow> rv' = m_rv s \<and> list_all quiet (block_irs b))"

lemma unlink_good: "list_all good_ir irs \<Longrightarrow> map unlink_ir irs = irs"
  by (induction irs) (simp_all add: good_ir_def unlink_ir_def)

lemma good_links: "irs \<noteq> [] \<Longrightarrow> list_all good_ir irs \<Longrightarrow> ir_branch_taken (last irs) = None \<and> ir_branch_untaken (last irs) = None"
  by (auto simp: list_all_iff good_ir_def)

lemma table_init: "table_ok m branch_table_init"
  by (simp add: table_ok_def branch_table_init_def)

lemma blocks_inv_insert:
  assumes "blocks_inv B m t" "block_shape (block_irs b)" "list_all good_ir (block_irs b)" "b \<in> B"
    and "bm_wf m'" "\<And>b'. holds m' b' \<longleftrightarrow> b' = b \<or> (keep \<and> holds m b')"
  shows "blocks_inv B m' (t(pc_start b := branch_table_init))"
proof -
  let ?t = "t(pc_start b := branch_table_init)"
  have "unlink_block b = b" using unlink_good [OF assms(3)] by (simp add: unlink_block_def)
  moreover from assms(2) have "block_irs b \<noteq> []" by (simp add: block_shape_def)
  ultimately have new: "block_inv B m' ?t b"
    using assms(2,4) good_links [OF _ assms(3)] table_init by (simp add: block_inv_def links_ok_def Let_def)
  have "block_inv B m' ?t b'" if "keep" "holds m b'" for b'
  proof -
    have "has m' a" if "has m a" for a using that \<open>keep\<close> assms(6) unfolding has_def by blast
    with assms(1) \<open>holds m b'\<close> have "block_inv B m' t b'" unfolding blocks_inv_def using block_inv_has by blast
    with table_init show ?thesis by (simp add: block_inv_def)
  qed
  then have "block_inv B m' ?t b'" if "holds m' b'" for b' using that new assms(6) [of b'] by blast
  with assms(5) show ?thesis unfolding blocks_inv_def by blast
qed

lemma insert_holds:
  assumes "bm_wf m" "block_find m (pc_start b) = Some None"
    and "block_insert (if nearly_full m then block_map_clear m else m) b = Some m'"
  shows "bm_wf m'" "holds m' b' \<longleftrightarrow> b' = b \<or> (\<not> nearly_full m \<and> holds m b')"
proof -
  let ?m = "if nearly_full m then block_map_clear m else m"
  have m: "bm_wf ?m" "\<not> nearly_full ?m" "block_find ?m (pc_start b) = Some None"
    using assms(1,2) bmap.clear [OF assms(1)] by auto
  from block_insert_find [OF m] assms(3) have m': "bm_wf m'"
    "\<And>a. block_find m' a = (if a = pc_start b then Some (Some b) else block_find ?m a)" by auto
  have "holds ?m b' \<longleftrightarrow> \<not> nearly_full m \<and> holds m b'"
    using bmap.clear [OF assms(1), of "pc_start b'"] block_find_holds(1) [of "block_map_clear m" "pc_start b'" b'] by auto
  moreover have "holds m' b' \<longleftrightarrow> b' = b \<or> holds ?m b'"
    using m'(2) [of "pc_start b'"] block_find_holds(1) [OF m'(1), of "pc_start b'" b']
      block_find_holds(1) [OF m(1), of "pc_start b'" b'] m(3) by (cases "pc_start b' = pc_start b") auto
  ultimately show "holds m' b' \<longleftrightarrow> b' = b \<or> (\<not> nearly_full m \<and> holds m b')" by blast
  show "bm_wf m'" by (rule m'(1))
qed

text \<open>What \<^verbatim>\<open>prev\<close> says when it is not \<^verbatim>\<open>NULL\<close>.\<close>

definition prev_ok :: "block_map \<Rightarrow> emu \<Rightarrow> u32 \<Rightarrow> u32 option \<Rightarrow> bool" where
  "prev_ok m em pc prev \<longleftrightarrow> (\<forall>p. prev = Some p \<longrightarrow> p = last_pc em \<and> has m p \<and> came_from m em pc)"

lemma miss_inv:
  assumes inv: "blocks_inv (translated_blocks cfg E al) m t" and prev: "prev_ok m em (PC rv) prev"
    and miss: "block_find m (PC rv) = Some None"
    and tr: "block_translate cfg E al rv = Some (Some b0, rv)" "list_all quiet (block_irs b0)"
    and "optimize_constant rv (block_irs b0) = Some irs"
    and b: "b = b0\<lparr>block_irs := match_pattern cfg (fuse_malloc al) irs\<rparr>"
    and ins: "block_insert (if nearly_full m then block_map_clear m else m) b = Some m'"
  shows "blocks_inv (translated_blocks cfg E al) m' (t(pc_start b := branch_table_init)) \<and> has m' (PC rv) \<and> pc_start b = PC rv \<and>
    prev_ok m' em (PC rv) (if nearly_full m then None else prev)"
proof -
  from inv have wf: "bm_wf m" by (simp add: blocks_inv_def)
  have pc: "pc_start b = PC rv" using block_translate_stops [OF tr(1)] by (simp add: b)
  note h = insert_holds [OF wf miss [folded pc] ins]
  have "b \<in> translated_blocks cfg E al" using tr(1) assms(6) b unfolding translated_blocks_def by blast
  moreover have "block_shape (block_irs b)" "list_all good_ir (block_irs b)"
    using translated_shape [OF tr assms(6), of "fuse_malloc al"] by (simp_all add: b)
  ultimately have "blocks_inv (translated_blocks cfg E al) m' (t(pc_start b := branch_table_init))"
    using blocks_inv_insert [OF inv _ _ _ h] by blast
  moreover have "prev_ok m' em (PC rv) (if nearly_full m then None else prev)"
  proof (cases "nearly_full m \<or> prev = None")
    case False
    with prev obtain "prev = Some (last_pc em)" "has m (last_pc em)" "came_from m em (PC rv)"
      unfolding prev_ok_def by blast
    moreover from miss have "\<not> has m (PC rv)" unfolding has_def block_find_holds(2) [OF wf] .
    ultimately show ?thesis
      using False pc unfolding prev_ok_def came_from_def has_def h(2) by auto
  qed (auto simp: prev_ok_def)
  ultimately show ?thesis using h(2) [of b] pc by (auto simp: has_def)
qed

lemma translate_inv:
  assumes inv: "blocks_inv (translated_blocks cfg E al) (m_map s) t" and "clean cfg E al s"
    and prev: "prev_ok (m_map s) em (PC (m_rv s)) prev"
    and find: "block_find_or_translate cfg E al (m_rv s) (m_map s) prev = Some (Some b, rv', m', prev')"
    and miss: "missing \<longleftrightarrow> block_find (m_map s) (PC (m_rv s)) = Some None"
  shows "rv' = m_rv s \<and>
    blocks_inv (translated_blocks cfg E al) m' (if missing then t(pc_start b := branch_table_init) else t) \<and>
    has m' (PC (m_rv s)) \<and> pc_start b = PC (m_rv s) \<and> prev_ok m' em (PC (m_rv s)) prev'"
proof (cases missing)
  case True
  with miss have none: "block_find (m_map s) (PC (m_rv s)) = Some None" by simp
  with find obtain b0 rv1 where tr: "block_translate cfg E al (m_rv s) = Some (Some b0, rv1)"
    by (auto simp: block_find_or_translate_def Let_def split: if_splits option.splits)
  with assms(2) none have c: "rv1 = m_rv s" "list_all quiet (block_irs b0)" unfolding clean_def by blast+
  from find_or_translate_miss [OF find none tr] c(1) obtain irs where
    o: "optimize_constant (m_rv s) (block_irs b0) = Some irs" "b = b0\<lparr>block_irs := match_pattern cfg (fuse_malloc al) irs\<rparr>"
    "rv' = m_rv s" "block_insert (if nearly_full (m_map s) then block_map_clear (m_map s) else m_map s) b = Some m'"
    by blast
  have "prev' = (if nearly_full (m_map s) then None else prev)"
    using find none by (auto simp: block_find_or_translate_def Let_def split: if_splits option.splits)
  with miss_inv [OF inv prev none tr [unfolded c(1)] c(2) o(1,2,4)] True o(3) show ?thesis by (auto simp only: if_True)
next
  case False
  have wf: "bm_wf (m_map s)" using inv by (simp add: blocks_inv_def)
  from False miss find have hit: "block_find (m_map s) (PC (m_rv s)) = Some (Some b)" "rv' = m_rv s" "m' = m_map s" "prev' = prev"
    by (auto simp: block_find_or_translate_def split: option.splits)
  with block_find_holds(1) [OF wf] inv prev False show ?thesis by (auto simp: has_def)
qed

section \<open>The loop\<close>

definition machine_inv :: "block set \<Rightarrow> machine \<Rightarrow> bool" where
  "machine_inv B s \<longleftrightarrow> blocks_inv B (m_map s) (m_tables s) \<and>
     (\<forall>p. m_prev s = Some p \<longrightarrow> has (m_map s) p \<and> came_from (m_map s) (m_em s) (PC (m_rv s)))"

text \<open>The machines in which the loop of \<^verbatim>\<open>rv_step\<close> looks for a block.\<close>

inductive looks_up :: "features \<Rightarrow> env \<Rightarrow> allocator \<Rightarrow> u64 \<Rightarrow> machine \<Rightarrow> machine \<Rightarrow> bool" for cfg E al n s where
  start: "csr_cycle (m_rv s) < n \<and> \<not> halt (m_rv s) \<Longrightarrow> looks_up cfg E al n s s"
| iterate: "looks_up cfg E al n s s1 \<Longrightarrow> step_block cfg E al s1 = Some (True, s2) \<Longrightarrow>
    csr_cycle (m_rv s2) < n \<and> \<not> halt (m_rv s2) \<Longrightarrow> looks_up cfg E al n s s2"

text \<open>Translation fails at the program counter of \<open>rv\<close>.\<close>

definition stuck :: "features \<Rightarrow> env \<Rightarrow> allocator \<Rightarrow> riscv \<Rightarrow> riscv \<Rightarrow> bool" where
  "stuck cfg E al rv rv' \<longleftrightarrow> (\<exists>rv1 m prev m' prev'.
     block_find_or_translate cfg E al rv m prev = Some (None, rv1, m', prev') \<and> rv' = rv1\<lparr>halt := True\<rparr>)"

lemma update_prev_ok:
  assumes "machine_inv B s" "update_prev (m_map s) (m_em s) (m_prev s) = Some prev"
  shows "prev_ok (m_map s) (m_em s) (PC (m_rv s)) prev"
proof (cases "m_prev s")
  case (Some p)
  from assms(1) have wf: "bm_wf (m_map s)" by (simp add: machine_inv_def blocks_inv_def)
  from assms(1) Some have p: "has (m_map s) p" "came_from (m_map s) (m_em s) (PC (m_rv s))"
    by (simp_all add: machine_inv_def)
  show ?thesis
  proof (cases "p = last_pc (m_em s)")
    case False
    with assms(2) Some obtain r where r: "block_find (m_map s) (last_pc (m_em s)) = Some r" "prev = map_option pc_start r"
      by (auto simp: update_prev_def)
    show ?thesis
    proof (cases r)
      case (Some b)
      with r(1) have "holds (m_map s) b" "pc_start b = last_pc (m_em s)" using block_find_holds(1) [OF wf] by blast+
      with r(2) p(2) Some show ?thesis unfolding prev_ok_def has_def by auto
    qed (simp add: r(2) prev_ok_def)
  next
    case True
    with assms(2) Some have "prev = Some p" by (simp add: update_prev_def)
    with True p show ?thesis by (simp add: prev_ok_def)
  qed
qed (use assms(2) in \<open>simp add: update_prev_def prev_ok_def\<close>)

lemma run_from_step:
  assumes inv: "blocks_inv B m t" and "block_at m (Some (PC rv)) = Some b"
    and run: "run_chain E m t b (start_ctx rv (em\<lparr>last_pc := PC rv\<rparr>)) = Some (r, rv', em', t')"
  shows "(r \<longrightarrow> came_from m em' (PC rv')) \<and> blocks_inv B m t' \<and> plain_run E B rv r rv'"
proof -
  from inv have wf: "bm_wf m" by (simp add: blocks_inv_def)
  have b: "holds m b" "pc_start b = PC rv" using assms(2) unfolding block_at_Some [OF wf] by simp_all
  let ?c = "start_ctx rv (em\<lparr>last_pc := PC rv\<rparr>)"
  have "store ?c = rv" by (simp add: store_def start_ctx_def)
  moreover have "c_pc ?c = pc_start b" "at_block m b (c_em ?c)" using b by (simp_all add: start_ctx_def at_block_def)
  ultimately show ?thesis using run_chain_ok [OF run, of B] inv b(1) unfolding chain_ok_def by (simp only: prod.case) blast
qed

lemma enter_block_ok:
  assumes tr: "blocks_inv B m t" "has m (PC rv)" "pc_start b0 = PC rv" "prev_ok m (m_em s) (PC rv) prev"
    and step: "enter_block E s b0 rv m prev t = Some (go, s')"
  shows "machine_inv B s' \<and> plain_run E B rv go (m_rv s')"
proof -
  let ?m = "link_prev m prev (is_branch_taken (m_em s)) (PC rv)"
  have inv': "blocks_inv B ?m t"
    using tr blocks_inv_chain [OF tr(1,2)] unfolding link_prev_def by (cases prev) (auto simp: prev_ok_def)
  have has': "has ?m (PC rv)"
    using tr(1,2) has_map_blocks unfolding link_prev_def by (cases prev) (simp_all add: chain_block_map blocks_inv_def)
  obtain b r rv' em' t' where
    run: "block_at ?m (Some (PC rv)) = Some b"
      "run_chain E ?m t b (start_ctx rv ((m_em s)\<lparr>last_pc := PC rv\<rparr>)) = Some (r, rv', em', t')"
    using step unfolding enter_block_def Let_def tr(3) by (auto split: option.split_asm)
  have s': "go = r" "m_rv s' = rv'" "m_map s' = ?m" "m_tables s' = t'" "m_prev s' = (if r then Some (PC rv) else None)"
    "is_branch_taken (m_em s') = is_branch_taken em'" "last_pc (m_em s') = last_pc em'"
    using step run by (cases r; auto simp: enter_block_def tr(3))+
  from run_from_step [OF inv' run] has' s' show ?thesis
    unfolding machine_inv_def by (simp add: came_from_def)
qed

lemma step_block_ok:
  assumes inv: "machine_inv (translated_blocks cfg E al) s" and cl: "clean cfg E al s"
    and step: "step_block cfg E al s = Some (go, s')"
  shows "machine_inv (translated_blocks cfg E al) s' \<and> plain_run E (translated_blocks cfg E al) (m_rv s) go (m_rv s') \<or>
    \<not> go \<and> stuck cfg E al (m_rv s) (m_rv s')"
proof -
  from step obtain prev where p: "update_prev (m_map s) (m_em s) (m_prev s) = Some prev"
    unfolding step_block_def by (auto split: option.splits)
  from step p obtain block rv m prev' where
    ft: "block_find_or_translate cfg E al (m_rv s) (m_map s) prev = Some (block, rv, m, prev')"
    unfolding step_block_def by (auto split: option.splits)
  show ?thesis
  proof (cases block)
    case None
    with step p ft have "\<not> go" "m_rv s' = rv\<lparr>halt := True\<rparr>" unfolding step_block_def by auto
    with ft None show ?thesis unfolding stuck_def by blast
  next
    case (Some b0)
    from inv have bi: "blocks_inv (translated_blocks cfg E al) (m_map s) (m_tables s)" by (simp add: machine_inv_def)
    note tr = translate_inv [OF bi cl update_prev_ok [OF inv p] ft [unfolded Some] refl]
    have "enter_block E s b0 rv m prev' (if block_find (m_map s) (PC (m_rv s)) = Some None
        then (m_tables s)(pc_start b0 := branch_table_init) else m_tables s) = Some (go, s')"
      using step p ft Some unfolding step_block_def by (simp only: Let_def option.case prod.case)
    with tr enter_block_ok show ?thesis by metis
  qed
qed

text \<open>Zero or more blocks, one after the other.\<close>

definition plain_runs :: "env \<Rightarrow> block set \<Rightarrow> riscv \<Rightarrow> riscv \<Rightarrow> bool" where
  "plain_runs E B rv rv' \<longleftrightarrow> rv' = rv \<or> (\<exists>r. plain_run E B rv r rv')"

lemma plain_run_trans: "plain_run E B rv r rv1 \<Longrightarrow> r \<Longrightarrow> plain_run E B rv1 r' rv' \<Longrightarrow> plain_run E B rv r' rv'"
  by (induction rule: plain_run.induct) (auto intro: plain_run.step)

lemma plain_runs_step: "plain_run E B rv True rv1 \<Longrightarrow> plain_runs E B rv1 rv' \<Longrightarrow> plain_runs E B rv rv'"
  unfolding plain_runs_def using plain_run_trans by blast

lemma looks_up_step: "looks_up cfg E al n s1 s2 \<Longrightarrow> step_block cfg E al s = Some (True, s1) \<Longrightarrow>
    csr_cycle (m_rv s) < n \<and> \<not> halt (m_rv s) \<Longrightarrow> looks_up cfg E al n s s2"
  by (induction rule: looks_up.induct) (blast intro: looks_up.intros)+

definition loop_ok :: "features \<Rightarrow> env \<Rightarrow> allocator \<Rightarrow> machine \<Rightarrow> machine \<Rightarrow> bool" where
  "loop_ok cfg E al s s' \<longleftrightarrow> (let B = translated_blocks cfg E al in
     machine_inv B s' \<and> plain_runs E B (m_rv s) (m_rv s') \<or>
     (\<exists>rv1. plain_runs E B (m_rv s) rv1 \<and> stuck cfg E al rv1 (m_rv s')))"

lemma loop_ok_step:
  assumes "machine_inv (translated_blocks cfg E al) s" "clean cfg E al s" "step_block cfg E al s = Some (go, s1)"
  shows "\<not> go \<Longrightarrow> loop_ok cfg E al s s1"
    and "go \<Longrightarrow> machine_inv (translated_blocks cfg E al) s1"
    and "go \<Longrightarrow> loop_ok cfg E al s1 s' \<Longrightarrow> loop_ok cfg E al s s'"
proof -
  let ?B = "translated_blocks cfg E al"
  note ok = step_block_ok [OF assms]
  show "\<not> go \<Longrightarrow> loop_ok cfg E al s s1" using ok unfolding loop_ok_def Let_def plain_runs_def by blast
  assume go
  with ok have s1: "machine_inv ?B s1" "plain_run E ?B (m_rv s) True (m_rv s1)" by (simp_all only: simp_thms)
  then show "machine_inv ?B s1" by blast
  assume "loop_ok cfg E al s1 s'"
  with plain_runs_step [OF s1(2)] show "loop_ok cfg E al s s'" unfolding loop_ok_def Let_def by blast
qed

lemma step_loop_ok:
  assumes "step_loop cfg E al n s = Some s'"
  shows "machine_inv (translated_blocks cfg E al) s \<longrightarrow> (\<forall>s1. looks_up cfg E al n s s1 \<longrightarrow> clean cfg E al s1) \<longrightarrow>
    loop_ok cfg E al s s'"
proof (rule step_loop.raw_induct [where P = "\<lambda>cfg E al n s s'. machine_inv (translated_blocks cfg E al) s \<longrightarrow>
    (\<forall>s1. looks_up cfg E al n s s1 \<longrightarrow> clean cfg E al s1) \<longrightarrow> loop_ok cfg E al s s'", OF _ assms], intro impI)
  fix loop :: "features \<Rightarrow> env \<Rightarrow> allocator \<Rightarrow> u64 \<Rightarrow> machine \<Rightarrow> machine option" and cfg E al n and s s' :: machine
  assume IH: "\<And>cfg E al n s s'. loop cfg E al n s = Some s' \<Longrightarrow> machine_inv (translated_blocks cfg E al) s \<longrightarrow>
      (\<forall>s1. looks_up cfg E al n s s1 \<longrightarrow> clean cfg E al s1) \<longrightarrow> loop_ok cfg E al s s'"
    and step: "(if csr_cycle (m_rv s) < n \<and> \<not> halt (m_rv s) then
      case step_block cfg E al s of None \<Rightarrow> None | Some (go, s') \<Rightarrow> if go then loop cfg E al n s' else Some s'
      else Some s) = Some s'"
    and inv: "machine_inv (translated_blocks cfg E al) s" and cl: "\<forall>s1. looks_up cfg E al n s s1 \<longrightarrow> clean cfg E al s1"
  show "loop_ok cfg E al s s'"
  proof (cases "csr_cycle (m_rv s) < n \<and> \<not> halt (m_rv s)")
    case True
    obtain go s1 where b: "step_block cfg E al s = Some (go, s1)"
      "(if go then loop cfg E al n s1 else Some s1) = Some s'"
      using step unfolding if_P [OF True] by (cases "step_block cfg E al s") auto
    from cl looks_up.start [OF True] have "clean cfg E al s" by blast
    note ok = loop_ok_step [OF inv this b(1)]
    show ?thesis
    proof (cases go)
      case True
      with b(1) have "step_block cfg E al s = Some (True, s1)" by (simp only: simp_thms)
      with cl looks_up_step [OF _ _ \<open>csr_cycle (m_rv s) < n \<and> \<not> halt (m_rv s)\<close>] have "\<forall>s2. looks_up cfg E al n s1 s2 \<longrightarrow> clean cfg E al s2" by blast
      moreover from True b(2) have "loop cfg E al n s1 = Some s'" by (simp only: if_True)
      ultimately show ?thesis using IH [of cfg E al n s1 s'] ok(2,3) True by blast
    next
      case False
      with b(2) have "s1 = s'" by (simp only: if_False option.inject)
      with False ok(1) show ?thesis by blast
    qed
  next
    case False
    with step have "s' = s" by (simp only: if_False option.inject)
    with inv show ?thesis unfolding loop_ok_def plain_runs_def Let_def by blast
  qed
qed

section \<open>The step loop runs the guest block by block\<close>


definition machine_example :: machine where
  "machine_example = \<lparr>m_rv = rv_example, m_em = emu_init, m_map = block_map_init BLOCK_MAP_CAPACITY_BITS,
     m_tables = (\<lambda>_. branch_table_init), m_prev = None, exit_addr = 4, on_exit = False\<rparr>"

lemma machine_inv_fresh:
  assumes "m_map s = block_map_init BLOCK_MAP_CAPACITY_BITS" "m_prev s = None"
  shows "machine_inv B s"
proof -
  have "\<not> holds (m_map s) b" for b
    using block_find_holds(2) [OF bmap.inv_empty, of "pc_start b"] bmap.find_empty assms(1) by auto
  with assms bmap.inv_empty show ?thesis unfolding machine_inv_def blocks_inv_def by simp
qed

definition irs_example_fused :: "rv_insn list" where
  "irs_example_fused = match_pattern default_features (fuse_malloc al_example) (irs_example[1 :=
     ir_calloc\<lparr>ir_imm := 0x1004, ir_rd := 2, ir_rs1 := 1, ir_opcode := RV32I rv_insn_lui, ir_pc := 4\<rparr>])"

lemma find_example:
  "\<exists>m'. block_find_or_translate default_features E al_example rv_example (block_map_init BLOCK_MAP_CAPACITY_BITS) None =
     Some (Some \<lparr>pc_start = 0, pc_end = 12, block_irs = irs_example_fused\<rparr>, rv_example, m', None) \<and>
     block_find m' 0 = Some (Some \<lparr>pc_start = 0, pc_end = 12, block_irs = irs_example_fused\<rparr>)"
proof -
  let ?m = "block_map_init BLOCK_MAP_CAPACITY_BITS" and ?b' = "\<lparr>pc_start = 0, pc_end = 12, block_irs = irs_example_fused\<rparr>"
  have room: "\<not> nearly_full ?m" by (simp add: nearly_full_def block_map_init_def)
  have miss: "block_find ?m (PC rv_example) = Some None" by (rule bmap.find_empty)
  obtain m' where m': "block_insert ?m ?b' = Some m'" "block_find m' 0 = Some (Some ?b')"
    using bmap.insert_total [OF bmap.inv_empty room, of ?b'] bmap.find_empty by auto
  have "block_find_or_translate default_features E al_example rv_example ?m None = Some (Some ?b', rv_example, m', None)"
    using room m' unfolding block_find_or_translate_def miss translate_example
    by (simp add: pipeline_example(1) irs_example_fused_def Let_def al_example_def)
  with m'(2) show ?thesis by blast
qed

lemma exec_example:
  "\<exists>rv em. exec E irs_example_fused (start_ctx rv_example em0) = Return True rv em \<and> csr_cycle rv = 3 \<and> PC rv = 8"
  by (simp add: irs_example_fused_def irs_example_def al_example_def fuse_defs ir_calloc_def try_fuse_sequence_def
      count_consecutive_insn_def remove_next_nth_ir_def impl_def rvop_def do_jal_def do_fuse1_def fuse_alu_def fuse_data_def opcode_fuse_of_def fuse_simps
    exec_defs set_X_def start_ctx_def rv_example_def rv_blank_def attr_def)

lemma step_example:
  "\<exists>s'. step_block default_features E al_example machine_example = Some (True, s') \<and> csr_cycle (m_rv s') = 3 \<and> PC (m_rv s') = 8"
proof -
  let ?m = "block_map_init BLOCK_MAP_CAPACITY_BITS" and ?b = "\<lparr>pc_start = 0, pc_end = 12, block_irs = irs_example_fused\<rparr>"
  obtain m' where m': "block_find_or_translate default_features E al_example rv_example ?m None =
     Some (Some ?b, rv_example, m', None)" "block_find m' 0 = Some (Some ?b)" using find_example by blast
  obtain rv em where run: "exec E irs_example_fused (start_ctx rv_example (emu_init\<lparr>last_pc := 0\<rparr>)) = Return True rv em"
    "csr_cycle rv = 3" "PC rv = 8" using exec_example by blast
  have "run_chain E m' t ?b (start_ctx rv_example (emu_init\<lparr>last_pc := 0\<rparr>)) = Some (True, rv, em, t)" for t
    by (subst run_chain.simps) (simp add: run)
  then have "step_block default_features E al_example machine_example = enter_block E machine_example ?b rv_example m' None (\<lambda>_. branch_table_init)"
    unfolding step_block_def machine_example_def by (simp add: update_prev_def m' fun_upd_def)
  with run \<open>\<And>t. run_chain E m' t ?b _ = _\<close> show ?thesis
    by (simp add: enter_block_def link_prev_def block_at_def m' machine_example_def pc_example)
qed

lemma quiet_example: "list_all quiet irs_example"
  by (simp add: irs_example_def quiet_def ir_calloc_def)


section \<open>A jump to itself\<close>



lemma run_chain_never:
  assumes "run_chain E m t b c = Some y"
  shows "(\<forall>c. P c \<longrightarrow> (\<exists>c'. exec E (block_irs b) c = Taken c' \<and> P c')) \<longrightarrow>
    block_at m (ir_branch_taken (last (block_irs b))) = Some b \<longrightarrow> \<not> P c"
proof (rule run_chain.raw_induct [where P = "\<lambda>E m t b c y. (\<forall>c. P c \<longrightarrow> (\<exists>c'. exec E (block_irs b) c = Taken c' \<and> P c')) \<longrightarrow>
    block_at m (ir_branch_taken (last (block_irs b))) = Some b \<longrightarrow> \<not> P c", OF _ assms], intro impI notI)
  fix loop :: "env \<Rightarrow> block_map \<Rightarrow> (u32 \<Rightarrow> branch_history_table) \<Rightarrow> block \<Rightarrow> ctx \<Rightarrow>
     (bool \<times> riscv \<times> emu \<times> (u32 \<Rightarrow> branch_history_table)) option" and E m t and b :: block and c :: ctx and y
  assume IH: "\<And>E m t b c y. loop E m t b c = Some y \<Longrightarrow>
      (\<forall>c. P c \<longrightarrow> (\<exists>c'. exec E (block_irs b) c = Taken c' \<and> P c')) \<longrightarrow>
      block_at m (ir_branch_taken (last (block_irs b))) = Some b \<longrightarrow> \<not> P c"
  assume step: "(case exec E (block_irs b) c of
        Nextop ctx \<Rightarrow> None | End_op ctx \<Rightarrow> None
      | Return r rv em \<Rightarrow> Some (r, rv, em, t)
      | Taken c' \<Rightarrow> (case block_at m (ir_branch_taken (last (block_irs b))) of None \<Rightarrow> None | Some b' \<Rightarrow> loop E m t b' c')
      | Untaken c' \<Rightarrow>
          (case block_at m (ir_branch_untaken (last (block_irs b))) of None \<Rightarrow> None | Some b' \<Rightarrow> loop E m t b' c')
      | Indirect c' \<Rightarrow>
          (let table = t (pc_start b) in
           case branch_table_find table (c_pc c') of
             None \<Rightarrow>
               (case block_find m (c_pc c') of
                  None \<Rightarrow> None
                | Some None \<Rightarrow> Some (True, (c_rv c')\<lparr>csr_cycle := c_cycle c', PC := c_pc c'\<rparr>, c_em c', t)
                | Some (Some b') \<Rightarrow>
                    loop E m (t(pc_start b := branch_table_update (c_pc c') table)) b' c')
           | Some i \<Rightarrow> (case block_at m (bt_target table ! i) of None \<Rightarrow> None | Some b' \<Rightarrow> loop E m t b' c'))
      | Undef \<Rightarrow> None) = Some y"
  assume P: "\<forall>c. P c \<longrightarrow> (\<exists>c'. exec E (block_irs b) c = Taken c' \<and> P c')" "P c"
    and b: "block_at m (ir_branch_taken (last (block_irs b))) = Some b"
  from P obtain c' where c': "exec E (block_irs b) c = Taken c'" "P c'" by blast
  from step have "loop E m t b c' = Some y" unfolding c'(1) by (simp add: b)
  from IH [OF this] P(1) b c'(2) show False by blast
qed

definition irs_spin :: "u32 \<Rightarrow> rv_insn list" where
  "irs_spin pc = [ir_calloc\<lparr>ir_opcode := RV32I rv_insn_jal, ir_pc := pc\<rparr>]"

lemma spin_translate:
  assumes "\<And>n. ir_alloc al n" "table_alloc al" "memory_ifetch (mem rv) (PC rv) = Some 0x0000006F"
  shows "block_translate default_features E al rv = Some (Some \<lparr>pc_start = PC rv, pc_end = PC rv + 4, block_irs = irs_spin (PC rv)\<rparr>, rv)"
proof -
  have chain: "decode_chain default_features (mem rv) (PC rv) (irs_spin (PC rv)) = Some (PC rv + 4)"
    "straight (butlast (irs_spin (PC rv)))" "insn_is_branch (ir_opcode (last (irs_spin (PC rv))))"
    by (simp_all add: assms irs_spin_def decode_example insn_size_def is_compressed_def mask_defs insn_is_branch_def attr_def)
  from translate_loop_complete [OF chain(1,2) _ assms(1), of E "[]"] chain(3) assms(1,2) show ?thesis
    by (simp add: block_translate_def irs_spin_def)
qed

lemma spin_optimise: "X rv 0 = 0 \<Longrightarrow> optimize_constant rv (irs_spin pc) = Some (irs_spin pc)"
  by (simp add: irs_spin_def optimize_constant_def constopt_init_def constopt_jal_def ir_calloc_def)

lemma spin_fuse: "match_pattern default_features al (irs_spin pc) = irs_spin pc"
  by (simp add: irs_spin_def fuse_defs ir_calloc_def)

lemma rv_trace_record_last_pc: "last_pc (rv_trace_record em cycle pc ty addr) = last_pc em"
  by (simp add: rv_trace_record_def Let_def split: option.split)

lemmas spin_defs = irs_spin_def link_ir_def impl_def rvop_def rvop_enter_def do_jal_def exec_defs attr_def ir_calloc_def count_insn_def
  start_ctx_def Let_def insn_is_direct_branch_def insn_is_unconditional_branch_def

lemma exec_spin:
  "\<exists>rv em. exec E (irs_spin pc) (start_ctx rv0 em0) = Return True rv em \<and> csr_cycle rv = csr_cycle rv0 + 1 \<and>
     PC rv = PC rv0 \<and> halt rv = halt rv0 \<and> last_pc em = last_pc em0"
  "\<exists>c'. exec E (block_irs (link_block taken pc (b\<lparr>block_irs := irs_spin pc\<rparr>))) c = Taken c'"
  "ir_branch_taken (last (block_irs (link_block taken pc (b\<lparr>block_irs := irs_spin pc\<rparr>)))) = Some pc"
  by (simp_all add: spin_defs link_block_def rv_trace_record_last_pc)

text \<open>Two iterations of the loop: the first one translates the jump, the second one links it to itself.\<close>

lemma spin_first:
  assumes "m_map s = block_map_init BLOCK_MAP_CAPACITY_BITS" "m_prev s = None" "X (m_rv s) 0 = 0" "block_mp_alloc al"
    and tr: "\<And>n. ir_alloc al n" "table_alloc al" "memory_ifetch (mem (m_rv s)) (PC (m_rv s)) = Some 0x0000006F"
    and b: "b = \<lparr>pc_start = PC (m_rv s), pc_end = PC (m_rv s) + 4, block_irs = irs_spin (PC (m_rv s))\<rparr>"
  shows "\<exists>s1. step_block default_features E al s = Some (True, s1) \<and> bm_wf (m_map s1) \<and> holds (m_map s1) b \<and>
    m_prev s1 = Some (pc_start b) \<and> last_pc (m_em s1) = pc_start b \<and> PC (m_rv s1) = pc_start b \<and>
    csr_cycle (m_rv s1) = csr_cycle (m_rv s) + 1 \<and> halt (m_rv s1) = halt (m_rv s)"
proof -
  let ?m = "block_map_init BLOCK_MAP_CAPACITY_BITS" and ?rv = "m_rv s" and ?em = "(m_em s)\<lparr>last_pc := PC (m_rv s)\<rparr>"
  have room: "\<not> nearly_full ?m" by (simp add: nearly_full_def block_map_init_def)
  obtain m' where m': "block_insert ?m b = Some m'" "bm_wf m'" "block_find m' (pc_start b) = Some (Some b)"
    using bmap.insert_total [OF bmap.inv_empty room, of b] bmap.find_empty by auto
  have ft: "block_find_or_translate default_features E al ?rv ?m None = Some (Some b, ?rv, m', None)"
    using room m'(1) assms(3,4) unfolding block_find_or_translate_def bmap.find_empty spin_translate [OF tr]
    by (simp add: spin_optimise spin_fuse b)
  obtain rv em where run: "exec E (block_irs b) (start_ctx ?rv ?em) = Return True rv em"
    "csr_cycle rv = csr_cycle ?rv + 1" "PC rv = PC ?rv" "halt rv = halt ?rv" "last_pc em = PC ?rv"
    using exec_spin(1) [of E "PC ?rv" ?rv ?em] by (auto simp: b)
  have chain: "run_chain E m' t b (start_ctx ?rv ?em) = Some (True, rv, em, t)" for t
    by (subst run_chain.simps) (simp add: run)
  have "step_block default_features E al s = enter_block E s b ?rv m' None ((m_tables s)(pc_start b := branch_table_init))"
    unfolding step_block_def assms(1,2) by (simp add: update_prev_def ft bmap.find_empty)
  moreover have "holds m' b" using m'(2,3) block_find_holds(1) by blast
  ultimately show ?thesis
    using run m' chain [unfolded b] by (simp add: enter_block_def link_prev_def block_at_def b)
qed

lemma spin_second:
  assumes "bm_wf (m_map s)" "holds (m_map s) b" "m_prev s = Some (pc_start b)" "last_pc (m_em s) = pc_start b"
    "PC (m_rv s) = pc_start b" "block_irs b = irs_spin (pc_start b)"
  shows "step_block cfg E al s = None"
proof -
  let ?a = "pc_start b" and ?taken = "is_branch_taken (m_em s)"
  let ?m = "chain_block (m_map s) ?a ?taken ?a" and ?b = "link_block ?taken ?a b"
  have find: "block_find (m_map s) ?a = Some (Some b)" using assms(1,2) block_find_holds(1) by blast
  have wf: "bm_wf ?m" unfolding chain_block_map by (rule map_blocks_wf [OF assms(1)]) simp
  have "holds ?m ?b" unfolding chain_block_map map_blocks_holds [OF assms(1)] using assms(2) by auto
  then have at: "block_at ?m (Some ?a) = Some ?b" unfolding block_at_Some [OF wf] by simp
  have b: "b\<lparr>block_irs := irs_spin ?a\<rparr> = b" using assms(6) by simp
  have "run_chain E ?m t ?b c = None" for t c
  proof (cases "run_chain E ?m t ?b c")
    case (Some y)
    from run_chain_never [OF Some, of "\<lambda>_. True"] at exec_spin(2,3) [where taken = ?taken and pc = ?a and b = b] show ?thesis unfolding b by simp
  qed
  then show ?thesis
    unfolding step_block_def
    by (simp add: update_prev_def assms(3-5) block_find_or_translate_def find enter_block_def link_prev_def at Let_def)
qed



end
