(* ===== verification/RV_Map.thy ===== *)
theory RV_Map
  imports RV_Prelude
begin

text \<open>
  The ordered map of \<^verbatim>\<open>src/map.c\<close> and \<^verbatim>\<open>src/map.h\<close>: a left-leaning red-black tree without
  parent pointers. A node that the code reaches by following pointers from the root is modelled with
  the subtree below it, since no node has two parents; the path array of an operation is a list of frames, the deepest
  first. The result \<open>None\<close> of an operation is undefined behaviour of the C code: a failed assertion,
  a \<^verbatim>\<open>NULL\<close> dereference or a write past the path array.
\<close>

unbundle bit_operations_syntax

section \<open>Nodes and the colour bit\<close>

datatype map_color = RB_BLACK | RB_RED

datatype map_cmp = MAP_CMP_LESS | MAP_CMP_EQUAL | MAP_CMP_GREATER

text \<open>The links of a node as the code stores them: the colour is the least significant bit of the right
  pointer.\<close>

record node_links =
  nl_left :: u64
  nl_right_red :: u64

abbreviation RB_COLOR_MASK :: u64 where "RB_COLOR_MASK \<equiv> 1"

definition rb_node_get_left :: "node_links \<Rightarrow> u64" where
  "rb_node_get_left n = nl_left n"

definition rb_node_set_left :: "u64 \<Rightarrow> node_links \<Rightarrow> node_links" where
  "rb_node_set_left l n = n\<lparr>nl_left := l\<rparr>"

definition rb_node_get_right :: "node_links \<Rightarrow> u64" where
  "rb_node_get_right n = nl_right_red n AND NOT RB_COLOR_MASK"

definition rb_node_set_right :: "u64 \<Rightarrow> node_links \<Rightarrow> node_links" where
  "rb_node_set_right r n = n\<lparr>nl_right_red := r OR (nl_right_red n AND RB_COLOR_MASK)\<rparr>"

definition color_bit :: "map_color \<Rightarrow> u64" where
  "color_bit c = (case c of RB_BLACK \<Rightarrow> 0 | RB_RED \<Rightarrow> 1)"

definition rb_node_get_color :: "node_links \<Rightarrow> map_color" where
  "rb_node_get_color n = (if nl_right_red n AND RB_COLOR_MASK = 1 then RB_RED else RB_BLACK)"

definition rb_node_set_color :: "map_color \<Rightarrow> node_links \<Rightarrow> node_links" where
  "rb_node_set_color c n = n\<lparr>nl_right_red := (nl_right_red n AND NOT RB_COLOR_MASK) OR color_bit c\<rparr>"

definition rb_node_set_red :: "node_links \<Rightarrow> node_links" where
  "rb_node_set_red n = n\<lparr>nl_right_red := nl_right_red n OR 1\<rparr>"

definition rb_node_set_black :: "node_links \<Rightarrow> node_links" where
  "rb_node_set_black n = n\<lparr>nl_right_red := nl_right_red n AND NOT RB_COLOR_MASK\<rparr>"

definition rb_node_init :: node_links where
  "rb_node_init = \<lparr>nl_left = 0, nl_right_red = color_bit RB_RED\<rparr>"

text \<open>A tree of nodes; \<open>Leaf\<close> is \<^verbatim>\<open>NULL\<close>.\<close>

datatype ('k, 'v) rb = Leaf | Node "('k, 'v) rb" map_color 'k 'v "('k, 'v) rb"

text \<open>\<^verbatim>\<open>n && RB_IS_RED(n)\<close>, and \<^verbatim>\<open>RB_IS_RED(n)\<close>, which reads through the pointer.\<close>

fun is_red :: "('k, 'v) rb \<Rightarrow> bool" where
  "is_red (Node l c k v r) \<longleftrightarrow> c = RB_RED"
| "is_red Leaf \<longleftrightarrow> False"

fun set_col :: "map_color \<Rightarrow> ('k, 'v) rb \<Rightarrow> ('k, 'v) rb" where
  "set_col c (Node l c' k v r) = Node l c k v r"
| "set_col c Leaf = Leaf"

fun rotate_left :: "('k, 'v) rb \<Rightarrow> ('k, 'v) rb" where
  "rotate_left (Node l c k v (Node rl rc rk rv rr)) = Node (Node l c k v rl) rc rk rv rr"
| "rotate_left t = t"

fun rotate_right :: "('k, 'v) rb \<Rightarrow> ('k, 'v) rb" where
  "rotate_right (Node (Node ll lc lk lv lr) c k v r) = Node ll lc lk lv (Node lr c k v r)"
| "rotate_right t = t"

section \<open>The path array\<close>

abbreviation RB_MAX_DEPTH :: nat where "RB_MAX_DEPTH \<equiv> 128"

text \<open>An entry of the path: the node without the child the path goes on in, and the comparison.\<close>

record ('k, 'v) rb_path_entry =
  pe_cmp :: map_cmp
  pe_color :: map_color
  pe_key :: 'k
  pe_data :: 'v
  pe_other :: "('k, 'v) rb"

definition pe_node :: "('k, 'v) rb_path_entry \<Rightarrow> ('k, 'v) rb \<Rightarrow> ('k, 'v) rb" where
  "pe_node f t =
     (if pe_cmp f = MAP_CMP_LESS then Node t (pe_color f) (pe_key f) (pe_data f) (pe_other f)
      else Node (pe_other f) (pe_color f) (pe_key f) (pe_data f) t)"

fun plug :: "('k, 'v) rb_path_entry list \<Rightarrow> ('k, 'v) rb \<Rightarrow> ('k, 'v) rb" where
  "plug [] t = t"
| "plug (f # fs) t = plug fs (pe_node f t)"

abbreviation less_entry where
  "less_entry c k v r \<equiv> \<lparr>pe_cmp = MAP_CMP_LESS, pe_color = c, pe_key = k, pe_data = v, pe_other = r\<rparr>"

abbreviation greater_entry where
  "greater_entry c k v l \<equiv> \<lparr>pe_cmp = MAP_CMP_GREATER, pe_color = c, pe_key = k, pe_data = v, pe_other = l\<rparr>"

section \<open>Insertion\<close>

datatype ('k, 'v) insert_point =
    Existing "('k, 'v) rb"
  | Too_deep
  | Insert_at "('k, 'v) rb_path_entry list"

fun rb_insert_unique ::
  "('k \<Rightarrow> 'k \<Rightarrow> map_cmp) \<Rightarrow> 'k \<Rightarrow> ('k, 'v) rb \<Rightarrow> ('k, 'v) rb_path_entry list \<Rightarrow> ('k, 'v) insert_point" where
  "rb_insert_unique cmp key Leaf path = (if length path \<ge> RB_MAX_DEPTH - 1 then Too_deep else Insert_at path)"
| "rb_insert_unique cmp key (Node l c k v r) path =
     (if length path \<ge> RB_MAX_DEPTH - 1 then Too_deep
      else
        (case cmp key k of
           MAP_CMP_LESS \<Rightarrow> rb_insert_unique cmp key l (less_entry c k v r # path)
         | MAP_CMP_GREATER \<Rightarrow> rb_insert_unique cmp key r (greater_entry c k v l # path)
         | MAP_CMP_EQUAL \<Rightarrow> Existing (Node l c k v r)))"

text \<open>One iteration of the fix-up loop below a red child: the child is the left one, or the right one.\<close>

fun fix_left :: "('k, 'v) rb \<Rightarrow> ('k, 'v) rb" where
  "fix_left (Node (Node leftleft c lk lv lr) cc k v r) =
     (if is_red leftleft then rotate_right (Node (Node (set_col RB_BLACK leftleft) c lk lv lr) cc k v r)
      else Node (Node leftleft c lk lv lr) cc k v r)"
| "fix_left t = t"

fun fix_right :: "('k, 'v) rb \<Rightarrow> ('k, 'v) rb" where
  "fix_right (Node left cc k v right) =
     (if is_red left then Node (set_col RB_BLACK left) RB_RED k v (set_col RB_BLACK right)
      else set_col cc (rotate_left (Node left RB_RED k v right)))"
| "fix_right Leaf = Leaf"

fun insert_fixup :: "('k, 'v) rb_path_entry list \<Rightarrow> ('k, 'v) rb \<Rightarrow> ('k, 'v) rb" where
  "insert_fixup [] t = t"
| "insert_fixup (f # path) t =
     (let cnode = pe_node f t in
      if \<not> is_red t then plug path cnode
      else insert_fixup path (if pe_cmp f = MAP_CMP_LESS then fix_left cnode else fix_right cnode))"

text \<open>\<^verbatim>\<open>map_create_node\<close> computes the layout of the one allocation of a node: the offsets of the
  key and of the data, and its size, or fails. A pointer has eight bytes and \<^verbatim>\<open>map_node_t\<close> four of them.\<close>

definition map_create_node :: "u64 \<Rightarrow> u64 \<Rightarrow> (u64 \<times> u64 \<times> u64) option" where
  "map_create_node ksize vsize =
     (let align_mask = 8 - 1;
          key_offset = (32 + align_mask) AND NOT align_mask;
          data_offset = (key_offset + ksize + align_mask) AND NOT align_mask;
          total_size = data_offset + vsize
      in if total_size < vsize \<or> total_size < ksize then None else Some (key_offset, data_offset, total_size))"

record ('k, 'v) map_internal =
  map_root :: "('k, 'v) rb"
  key_size :: u64
  data_size :: u64
  map_count :: u64

definition map_new :: "bool \<Rightarrow> u64 \<Rightarrow> u64 \<Rightarrow> ('k, 'v) map_internal option" where
  "map_new malloc ks ds =
     (if ks = 0 \<or> ds = 0 then None
      else
        let max_size = (- 1) div 4 in
        if ks > max_size \<or> ds > max_size \<or> ks + ds > max_size - 32 then None
        else if \<not> malloc then None
        else Some \<lparr>map_root = Leaf, key_size = ks, data_size = ds, map_count = 0\<rparr>)"

text \<open>\<^verbatim>\<open>map_insert\<close>; \<open>malloc\<close> says whether the allocation of the node succeeds.\<close>

definition map_insert ::
  "('k \<Rightarrow> 'k \<Rightarrow> map_cmp) \<Rightarrow> bool \<Rightarrow> ('k, 'v) map_internal \<Rightarrow> 'k \<Rightarrow> 'v \<Rightarrow> bool \<times> ('k, 'v) map_internal" where
  "map_insert cmp malloc obj key val =
     (case rb_insert_unique cmp key (map_root obj) [] of
        Too_deep \<Rightarrow> (False, obj)
      | Existing _ \<Rightarrow> (False, obj)
      | Insert_at path \<Rightarrow>
          if map_create_node (key_size obj) (data_size obj) = None \<or> \<not> malloc then (False, obj)
          else (True, obj\<lparr>map_root := set_col RB_BLACK (insert_fixup path (Node Leaf RB_RED key val Leaf)),
                          map_count := map_count obj + 1\<rparr>))"

section \<open>Lookup and iteration\<close>

text \<open>An iterator holds a pointer to a node, modelled as the subtree at the node; \<open>Leaf\<close> is the end.\<close>

fun rb_find :: "('k \<Rightarrow> 'k \<Rightarrow> map_cmp) \<Rightarrow> ('k, 'v) rb \<Rightarrow> 'k \<Rightarrow> ('k, 'v) rb" where
  "rb_find cmp Leaf key = Leaf"
| "rb_find cmp (Node l c k v r) key =
     (case cmp key k of
        MAP_CMP_EQUAL \<Rightarrow> Node l c k v r
      | MAP_CMP_LESS \<Rightarrow> rb_find cmp l key
      | MAP_CMP_GREATER \<Rightarrow> rb_find cmp r key)"

definition map_find :: "('k \<Rightarrow> 'k \<Rightarrow> map_cmp) \<Rightarrow> ('k, 'v) map_internal \<Rightarrow> 'k \<Rightarrow> ('k, 'v) rb" where
  "map_find cmp obj key = rb_find cmp (map_root obj) key"

definition map_empty :: "('k, 'v) map_internal \<Rightarrow> bool" where
  "map_empty obj \<longleftrightarrow> map_root obj = Leaf"

definition map_at_end :: "('k, 'v) rb \<Rightarrow> bool" where
  "map_at_end it \<longleftrightarrow> it = Leaf"

definition map_size :: "('k, 'v) map_internal \<Rightarrow> u64" where
  "map_size obj = map_count obj"

fun leftmost :: "('k, 'v) rb \<Rightarrow> ('k, 'v) rb" where
  "leftmost (Node (Node ll lc lk lv lr) c k v r) = leftmost (Node ll lc lk lv lr)"
| "leftmost t = t"

fun rightmost :: "('k, 'v) rb \<Rightarrow> ('k, 'v) rb" where
  "rightmost (Node l c k v (Node rl rc rk rv rr)) = rightmost (Node rl rc rk rv rr)"
| "rightmost t = t"

definition map_first :: "('k, 'v) map_internal \<Rightarrow> ('k, 'v) rb" where
  "map_first obj = leftmost (map_root obj)"

definition map_last :: "('k, 'v) map_internal \<Rightarrow> ('k, 'v) rb" where
  "map_last obj = rightmost (map_root obj)"

fun succ_search :: "('k \<Rightarrow> 'k \<Rightarrow> map_cmp) \<Rightarrow> 'k \<Rightarrow> ('k, 'v) rb \<Rightarrow> ('k, 'v) rb \<Rightarrow> ('k, 'v) rb" where
  "succ_search cmp key Leaf succ = succ"
| "succ_search cmp key (Node l c k v r) succ =
     (case cmp key k of
        MAP_CMP_LESS \<Rightarrow> succ_search cmp key l (Node l c k v r)
      | MAP_CMP_GREATER \<Rightarrow> succ_search cmp key r succ
      | MAP_CMP_EQUAL \<Rightarrow> succ)"

fun pred_search :: "('k \<Rightarrow> 'k \<Rightarrow> map_cmp) \<Rightarrow> 'k \<Rightarrow> ('k, 'v) rb \<Rightarrow> ('k, 'v) rb \<Rightarrow> ('k, 'v) rb" where
  "pred_search cmp key Leaf pred = pred"
| "pred_search cmp key (Node l c k v r) pred =
     (case cmp key k of
        MAP_CMP_GREATER \<Rightarrow> pred_search cmp key r (Node l c k v r)
      | MAP_CMP_LESS \<Rightarrow> pred_search cmp key l pred
      | MAP_CMP_EQUAL \<Rightarrow> pred)"

fun map_next :: "('k \<Rightarrow> 'k \<Rightarrow> map_cmp) \<Rightarrow> ('k, 'v) map_internal \<Rightarrow> ('k, 'v) rb \<Rightarrow> ('k, 'v) rb" where
  "map_next cmp obj Leaf = Leaf"
| "map_next cmp obj (Node l c k v r) =
     (if r \<noteq> Leaf then leftmost r else succ_search cmp k (map_root obj) Leaf)"

fun map_prev :: "('k \<Rightarrow> 'k \<Rightarrow> map_cmp) \<Rightarrow> ('k, 'v) map_internal \<Rightarrow> ('k, 'v) rb \<Rightarrow> ('k, 'v) rb" where
  "map_prev cmp obj Leaf = Leaf"
| "map_prev cmp obj (Node l c k v r) =
     (if l \<noteq> Leaf then rightmost l else pred_search cmp k (map_root obj) Leaf)"

section \<open>Removal\<close>

text \<open>The search of \<^verbatim>\<open>rb_remove\<close> for the node, and from its right child to the successor, each with the
  path above the result. The loops write the entry after the current one, which has to be inside the array.\<close>

fun remove_search :: "('k \<Rightarrow> 'k \<Rightarrow> map_cmp) \<Rightarrow> 'k \<Rightarrow> ('k, 'v) rb \<Rightarrow> ('k, 'v) rb_path_entry list \<Rightarrow>
    (('k, 'v) rb_path_entry list \<times> ('k, 'v) rb) option" where
  "remove_search cmp key Leaf path = None"
| "remove_search cmp key (Node l c k v r) path =
     (if length path + 1 \<ge> RB_MAX_DEPTH then None
      else
        (case cmp key k of
           MAP_CMP_LESS \<Rightarrow> remove_search cmp key l (less_entry c k v r # path)
         | MAP_CMP_GREATER \<Rightarrow> remove_search cmp key r (greater_entry c k v l # path)
         | MAP_CMP_EQUAL \<Rightarrow> Some (path, Node l c k v r)))"

fun remove_succ :: "nat \<Rightarrow> ('k, 'v) rb \<Rightarrow> ('k, 'v) rb_path_entry list \<Rightarrow>
    (('k, 'v) rb_path_entry list \<times> ('k, 'v) rb) option" where
  "remove_succ depth Leaf path = None"
| "remove_succ depth (Node l c k v r) path =
     (if depth + length path + 1 \<ge> RB_MAX_DEPTH then None
      else if l = Leaf then Some (path, Node l c k v r)
      else remove_succ depth l (less_entry c k v r # path))"

text \<open>The loop that unwinds the path while a black node is missing below it, in the order of the diagrams of the source.\<close>

fun remove_fixup :: "('k, 'v) rb_path_entry list \<Rightarrow> ('k, 'v) rb \<Rightarrow> ('k, 'v) rb option" where
  "remove_fixup [] t = (if t \<noteq> Leaf \<and> \<not> is_red t then Some t else None)"
| "remove_fixup (f # path) t =
     (let c = pe_color f; k = pe_key f; v = pe_data f in
      if pe_cmp f = MAP_CMP_LESS then
        (case pe_other f of
           Leaf \<Rightarrow> None
         | Node rl rc rk rv rr \<Rightarrow>
             if c = RB_RED then
               (let tnode =
                  (if is_red rl then rotate_left (Node t RB_BLACK k v (rotate_right (Node rl rc rk rv rr)))
                   else rotate_left (Node t c k v (Node rl rc rk rv rr)))
                in if path = [] then None else Some (plug path tnode))
             else if is_red rl then
               Some (plug path (rotate_left (Node t c k v (rotate_right (Node (set_col RB_BLACK rl) rc rk rv rr)))))
             else remove_fixup path (rotate_left (Node t RB_RED k v (Node rl rc rk rv rr))))
      else
        (case pe_other f of
           Leaf \<Rightarrow> None
         | Node ll lc lk lv lr \<Rightarrow>
             if lc = RB_RED then
               (case lr of
                  Leaf \<Rightarrow> None
                | Node lrl lrc lrk lrv lrr \<Rightarrow>
                    if is_red lrl then
                      (let pathp = Node (Node (set_col RB_BLACK lrl) lrc lrk lrv lrr) c k v t
                       in Some (plug path (rotate_left (Node ll lc lk lv (rotate_right pathp)))))
                    else
                      Some (plug path (set_col RB_BLACK
                        (rotate_right (Node (Node ll lc lk lv (set_col RB_RED lr)) c k v t)))))
             else if c = RB_RED then
               (if is_red ll then
                  (if path = [] then None
                   else Some (plug path (rotate_right (Node (Node (set_col RB_BLACK ll) RB_RED lk lv lr) RB_BLACK k v t))))
                else Some (plug path (Node (Node ll RB_RED lk lv lr) RB_BLACK k v t)))
             else if is_red ll then
               Some (plug path (rotate_right (Node (Node (set_col RB_BLACK ll) lc lk lv lr) c k v t)))
             else remove_fixup path (Node (Node ll RB_RED lk lv lr) c k v t)))"

text \<open>Pruning the node at the end of the path, which has the colour \<open>c\<close>.\<close>

definition remove_prune :: "('k, 'v) rb_path_entry list \<Rightarrow> map_color \<Rightarrow> ('k, 'v) rb option" where
  "remove_prune path c =
     (if c = RB_RED then
        (case path of
           [] \<Rightarrow> None
         | f # _ \<Rightarrow> if pe_cmp f = MAP_CMP_LESS then Some (plug path Leaf) else None)
      else remove_fixup path Leaf)"

definition rb_remove :: "('k \<Rightarrow> 'k \<Rightarrow> map_cmp) \<Rightarrow> 'k \<Rightarrow> ('k, 'v) rb \<Rightarrow> ('k, 'v) rb option" where
  "rb_remove cmp key root =
     (case remove_search cmp key root [] of
        None \<Rightarrow> None
      | Some (path, Leaf) \<Rightarrow> None
      | Some (path, Node l c k v r) \<Rightarrow>
          if r \<noteq> Leaf then
            (case remove_succ (length path + 1) r [] of
               None \<Rightarrow> None
             | Some (below, Leaf) \<Rightarrow> None
             | Some (below, Node sl sc sk sv sr) \<Rightarrow> remove_prune (below @ greater_entry c sk sv l # path) sc)
          else if l \<noteq> Leaf then
            (if c = RB_BLACK \<and> is_red l then Some (plug path (set_col RB_BLACK l)) else None)
          else if path = [] then Some Leaf
          else remove_prune path c)"

definition map_erase :: "('k \<Rightarrow> 'k \<Rightarrow> map_cmp) \<Rightarrow> ('k, 'v) map_internal \<Rightarrow> ('k, 'v) rb \<Rightarrow>
    (('k, 'v) map_internal \<times> ('k, 'v) rb) option" where
  "map_erase cmp obj it =
     (case it of
        Leaf \<Rightarrow> Some (obj, it)
      | Node l c k v r \<Rightarrow>
          if map_count obj = 0 then Some (obj, it)
          else
            (case rb_remove cmp k (map_root obj) of
               None \<Rightarrow> None
             | Some t \<Rightarrow>
                 Some (obj\<lparr>map_root := t,
                           map_count := (if map_count obj > 0 then map_count obj - 1 else map_count obj)\<rparr>, Leaf)))"

text \<open>\<^verbatim>\<open>rb_destroy_recurse\<close> returns the nodes in the order it frees them.\<close>

fun rb_destroy_recurse :: "('k, 'v) rb \<Rightarrow> ('k \<times> 'v) list" where
  "rb_destroy_recurse Leaf = []"
| "rb_destroy_recurse (Node l c k v r) = rb_destroy_recurse l @ rb_destroy_recurse r @ [(k, v)]"

definition map_clear :: "('k, 'v) map_internal \<Rightarrow> ('k \<times> 'v) list \<times> ('k, 'v) map_internal" where
  "map_clear obj = (rb_destroy_recurse (map_root obj), obj\<lparr>map_root := Leaf, map_count := 0\<rparr>)"

section \<open>The comparators\<close>

definition map_cmp_of :: "bool \<Rightarrow> bool \<Rightarrow> map_cmp" where
  "map_cmp_of gt lt = (if gt \<and> \<not> lt then MAP_CMP_GREATER else if lt \<and> \<not> gt then MAP_CMP_LESS else MAP_CMP_EQUAL)"

definition map_cmp_int :: "u32 \<Rightarrow> u32 \<Rightarrow> map_cmp" where
  "map_cmp_int a b = map_cmp_of (sint a > sint b) (sint a < sint b)"

definition map_cmp_uint :: "u32 \<Rightarrow> u32 \<Rightarrow> map_cmp" where
  "map_cmp_uint a b = map_cmp_of (a > b) (a < b)"

end
