(* ===== verification/RV_Map_Sound.thy ===== *)
theory RV_Map_Sound
  imports RV_Map "HOL-Library.Multiset"
begin

text \<open>
  Correctness of the ordered map: the invariant of a left-leaning red-black tree, the sequence of entries in key
  order as the abstraction, and that every operation of \<^verbatim>\<open>src/map.c\<close> keeps the one and does to the other what
  its interface promises.
\<close>

unbundle bit_operations_syntax

section \<open>Entries in key order\<close>

fun inorder :: "('k, 'v) rb \<Rightarrow> ('k \<times> 'v) list" where
  "inorder Leaf = []"
| "inorder (Node l c k v r) = inorder l @ (k, v) # inorder r"

fun before :: "('k, 'v) rb_path_entry list \<Rightarrow> ('k \<times> 'v) list" where
  "before [] = []"
| "before (f # fs) =
     before fs @ (if pe_cmp f = MAP_CMP_LESS then [] else inorder (pe_other f) @ [(pe_key f, pe_data f)])"

fun after :: "('k, 'v) rb_path_entry list \<Rightarrow> ('k \<times> 'v) list" where
  "after [] = []"
| "after (f # fs) =
     (if pe_cmp f = MAP_CMP_LESS then (pe_key f, pe_data f) # inorder (pe_other f) else []) @ after fs"

lemma inorder_plug [simp]: "inorder (plug fs t) = before fs @ inorder t @ after fs"
  by (induction fs arbitrary: t) (simp_all add: pe_node_def)

lemma inorder_moves [simp]:
  "inorder (set_col c t) = inorder t" "inorder (rotate_left t) = inorder t" "inorder (rotate_right t) = inorder t"
  "inorder (fix_left t) = inorder t" "inorder (fix_right t) = inorder t"
proof -
  show [simp]: "inorder (set_col c t) = inorder t" for c t by (cases t) simp_all
  show [simp]: "inorder (rotate_left t) = inorder t" for t by (cases t rule: rotate_left.cases) simp_all
  show [simp]: "inorder (rotate_right t) = inorder t" for t by (cases t rule: rotate_right.cases) simp_all
  show "inorder (fix_left t) = inorder t" by (cases t rule: fix_left.cases) simp_all
  show "inorder (fix_right t) = inorder t" by (cases t) (simp_all del: rotate_left.simps)
qed

lemma inorder_pe_node [simp]: "inorder (pe_node f t) = before [f] @ inorder t @ after [f]"
  using inorder_plug [of "[f]" t] by simp

lemma inorder_insert_fixup [simp]: "inorder (insert_fixup fs t) = before fs @ inorder t @ after fs"
  by (induction fs arbitrary: t) (simp_all add: Let_def)

lemma inorder_remove_fixup: "remove_fixup fs t = Some t' \<Longrightarrow> inorder t' = before fs @ inorder t @ after fs"
proof (induction fs arbitrary: t)
  case (Cons f fs)
  then show ?case
    by (auto simp: Let_def simp del: rotate_left.simps rotate_right.simps split: if_splits rb.splits)
qed (simp split: if_splits)

lemma before_append [simp]: "before (xs @ ys) = before ys @ before xs"
  by (induction xs) simp_all

lemma after_append [simp]: "after (xs @ ys) = after xs @ after ys"
  by (induction xs) simp_all

section \<open>The red-black invariant\<close>

fun bh :: "('k, 'v) rb \<Rightarrow> nat" where
  "bh Leaf = 0"
| "bh (Node l c k v r) = bh l + (if c = RB_BLACK then 1 else 0)"

fun llrb :: "('k, 'v) rb \<Rightarrow> bool" where
  "llrb Leaf \<longleftrightarrow> True"
| "llrb (Node l c k v r) \<longleftrightarrow> llrb l \<and> llrb r \<and> \<not> is_red r \<and> (c = RB_RED \<longrightarrow> \<not> is_red l) \<and> bh l = bh r"

text \<open>A red node fits where the path ends: it is a left child of a black node.\<close>

fun red_ok :: "('k, 'v) rb_path_entry list \<Rightarrow> bool" where
  "red_ok [] \<longleftrightarrow> False"
| "red_ok (f # fs) \<longleftrightarrow> pe_cmp f = MAP_CMP_LESS \<and> pe_color f = RB_BLACK"

text \<open>The path can be completed with a tree of black height \<open>h\<close>.\<close>

fun path_ok :: "('k, 'v) rb_path_entry list \<Rightarrow> nat \<Rightarrow> bool" where
  "path_ok [] h \<longleftrightarrow> True"
| "path_ok (f # fs) h \<longleftrightarrow> llrb (pe_other f) \<and> bh (pe_other f) = h \<and>
     (if pe_cmp f = MAP_CMP_LESS then \<not> is_red (pe_other f) else pe_color f = RB_RED \<longrightarrow> \<not> is_red (pe_other f)) \<and>
     (pe_color f = RB_RED \<longrightarrow> red_ok fs) \<and> path_ok fs (h + (if pe_color f = RB_BLACK then 1 else 0))"

lemma llrb_plug:
  "path_ok fs (bh t) \<Longrightarrow> llrb t \<Longrightarrow> is_red t \<longrightarrow> red_ok fs \<Longrightarrow> llrb (plug fs t) \<and> \<not> is_red (plug fs t)"
proof (induction fs arbitrary: t)
  case (Cons f fs)
  have "bh (pe_node f t) = bh t + (if pe_color f = RB_BLACK then 1 else 0)"
    "llrb (pe_node f t)" "is_red (pe_node f t) \<longrightarrow> red_ok fs"
    using Cons.prems by (auto simp: pe_node_def)
  with Cons.IH [of "pe_node f t"] Cons.prems(1) show ?case by simp
qed simp

lemma llrb_set_black: "llrb t \<Longrightarrow> llrb (set_col RB_BLACK t)"
  by (cases t) simp_all

lemma is_red_set_col [simp]: "is_red (set_col c t) \<longleftrightarrow> t \<noteq> Leaf \<and> c = RB_RED"
  by (cases t) simp_all

lemma bh_set_black: "is_red t \<Longrightarrow> bh (set_col RB_BLACK t) = bh t + 1"
  by (cases t) simp_all

section \<open>Insertion keeps the invariant\<close>

text \<open>A tree that satisfies the invariant but for a red left child of its red root.\<close>

fun red_red :: "('k, 'v) rb \<Rightarrow> bool" where
  "red_red (Node l c k v r) \<longleftrightarrow> c = RB_RED \<and> is_red l \<and> llrb l \<and> llrb r \<and> \<not> is_red r \<and> bh l = bh r"
| "red_red Leaf \<longleftrightarrow> False"

lemma fix_left_ok:
  assumes "path_ok (f # fs) (bh t)" "pe_cmp f = MAP_CMP_LESS" "is_red t" "llrb t \<or> red_red t \<and> pe_color f = RB_BLACK"
  defines "t' \<equiv> fix_left (pe_node f t)"
  shows "bh t' = bh t + (if pe_color f = RB_BLACK then 1 else 0) \<and> (llrb t' \<or> red_red t' \<and> red_ok fs)"
proof -
  obtain l k v r where t: "t = Node l RB_RED k v r" using assms(3) by (cases t) auto
  show ?thesis
    using assms(1,2,4) unfolding t'_def t
    by (cases "is_red l"; cases "pe_color f") (auto simp: pe_node_def bh_set_black llrb_set_black)
qed

lemma fix_right_ok:
  assumes "path_ok (f # fs) (bh t)" "pe_cmp f \<noteq> MAP_CMP_LESS" "is_red t" "llrb t"
  defines "t' \<equiv> fix_right (pe_node f t)"
  shows "bh t' = bh t + (if pe_color f = RB_BLACK then 1 else 0) \<and> (llrb t' \<or> red_red t' \<and> red_ok fs)"
proof -
  obtain l k v r where t: "t = Node l RB_RED k v r" using assms(3) by (cases t) auto
  show ?thesis
    using assms(1,2,4) unfolding t'_def t
    by (cases "is_red (pe_other f)"; cases "pe_color f") (auto simp: pe_node_def bh_set_black llrb_set_black)
qed

lemma insert_fixup_ok:
  "path_ok fs (bh t) \<Longrightarrow> llrb t \<or> red_red t \<and> red_ok fs \<Longrightarrow> llrb (set_col RB_BLACK (insert_fixup fs t))"
proof (induction fs arbitrary: t)
  case Nil
  then show ?case by (auto simp: llrb_set_black)
next
  case (Cons f fs)
  let ?t' = "if pe_cmp f = MAP_CMP_LESS then fix_left (pe_node f t) else fix_right (pe_node f t)"
  show ?case
  proof (cases "is_red t")
    case False
    with Cons.prems(2) have "llrb t" by (cases t) auto
    with False Cons.prems(1) llrb_plug [of "f # fs" t] show ?thesis by (simp add: Let_def llrb_set_black)
  next
    case True
    have "bh ?t' = bh t + (if pe_color f = RB_BLACK then 1 else 0) \<and> (llrb ?t' \<or> red_red ?t' \<and> red_ok fs)"
      using fix_left_ok [OF Cons.prems(1) _ True] fix_right_ok [OF Cons.prems(1) _ True] Cons.prems(2)
      by (cases "pe_cmp f = MAP_CMP_LESS") auto
    with Cons.IH [of ?t'] Cons.prems(1) True show ?thesis by (simp add: Let_def)
  qed
qed

section \<open>Removal keeps the invariant\<close>

text \<open>The tree that replaces a subtree of black height \<open>bh t + 1\<close> is black and lacks one black node.\<close>

lemma remove_fixup_ok:
  "path_ok fs (bh t + 1) \<Longrightarrow> llrb t \<Longrightarrow> \<not> is_red t \<Longrightarrow> fs = [] \<longrightarrow> t \<noteq> Leaf \<Longrightarrow>
   \<exists>t'. remove_fixup fs t = Some t' \<and> llrb t' \<and> \<not> is_red t'"
proof (induction fs arbitrary: t)
  case (Cons f fs)
  let ?h = "bh t + 1"
  note f = Cons.prems(1) [simplified]
  have plug: "llrb (plug fs t1)" "\<not> is_red (plug fs t1)"
    if "llrb t1" "bh t1 = ?h + (if pe_color f = RB_BLACK then 1 else 0)" "is_red t1 \<longrightarrow> red_ok fs" for t1
    using llrb_plug [of fs t1] that f by simp_all
  have up: "\<exists>t'. remove_fixup fs t1 = Some t' \<and> llrb t' \<and> \<not> is_red t'"
    if "llrb t1" "bh t1 = ?h" "pe_color f = RB_BLACK" "\<not> is_red t1" "t1 \<noteq> Leaf" for t1
    using Cons.IH [of t1] that f by simp
  have nonempty: "pe_color f = RB_RED \<Longrightarrow> fs \<noteq> []" using f by (cases fs) auto
  obtain l c k v r where o: "pe_other f = Node l c k v r" using f by (cases "pe_other f") auto
  show ?case
  proof (cases "pe_cmp f = MAP_CMP_LESS")
    case True
    obtain l1 c1 k1 v1 r1 where "is_red l \<Longrightarrow> l = Node l1 c1 k1 v1 r1" by (cases l) auto
    with True f o Cons.prems(2,3) nonempty show ?thesis
      by (cases "pe_color f"; cases "is_red l"; cases c) (auto intro!: up simp: plug)
  next
    case False
    show ?thesis
    proof (cases "c = RB_RED")
      case True
      with f o False obtain l1 c1 k1 v1 r1 where "r = Node l1 c1 k1 v1 r1" by (cases r) auto
      with True False f o Cons.prems(2,3) show ?thesis
        by (cases "pe_color f"; cases "is_red l1"; cases c1) (auto simp: plug bh_set_black llrb_set_black)
    next
      case black: False
      with False f o Cons.prems(2,3) nonempty show ?thesis
        by (cases "pe_color f"; cases "is_red l"; cases c) (auto intro!: up simp: plug bh_set_black llrb_set_black)
    qed
  qed
qed simp

lemma remove_prune_ok:
  assumes "path_ok path h" "h = (if c = RB_BLACK then 1 else 0)" "c = RB_RED \<longrightarrow> red_ok path" "path \<noteq> []"
  shows "\<exists>t'. remove_prune path c = Some t' \<and> llrb t' \<and> \<not> is_red t' \<and> inorder t' = before path @ after path"
proof (cases "c = RB_RED")
  case True
  with assms obtain f fs where "path = f # fs" "pe_cmp f = MAP_CMP_LESS" by (cases path) auto
  with True assms llrb_plug [of path "Leaf"] inorder_plug [of path "Leaf"] show ?thesis by (simp add: remove_prune_def)
next
  case False
  then have c: "c = RB_BLACK" by (cases c) auto
  with remove_fixup_ok [of path Leaf] assms obtain t' where "remove_fixup path Leaf = Some t'" "llrb t'" "\<not> is_red t'"
    by auto
  with inorder_remove_fixup [of path Leaf t'] c show ?thesis by (simp add: remove_prune_def)
qed

section \<open>Depth\<close>

fun rb_height :: "('k, 'v) rb \<Rightarrow> nat" where
  "rb_height Leaf = 0"
| "rb_height (Node l c k v r) = max (rb_height l) (rb_height r) + 1"

lemma height_bh: "llrb t \<Longrightarrow> rb_height t \<le> 2 * bh t + (if is_red t then 1 else 0)"
proof (induction t)
  case (Node l c k v r)
  then show ?case by (cases c) (auto split: if_splits)
qed simp

lemma bh_size: "llrb t \<Longrightarrow> 2 ^ bh t \<le> length (inorder t) + 1"
proof (induction t)
  case (Node l c k v r)
  then have "2 ^ bh l \<le> length (inorder l) + 1" "2 ^ bh l \<le> length (inorder r) + 1" by auto
  then show ?case by auto
qed simp

text \<open>A map fits in the address space: a node has at least four pointers of eight bytes.\<close>

definition fits_memory :: "('k, 'v) rb \<Rightarrow> bool" where
  "fits_memory t \<longleftrightarrow> length (inorder t) < 2 ^ 59"

lemma height_bound:
  assumes "llrb t" "\<not> is_red t" "fits_memory t"
  shows "rb_height t \<le> 118"
proof -
  have "(2::nat) ^ bh t \<le> 2 ^ 59" using bh_size [OF assms(1)] assms(3) unfolding fits_memory_def by simp
  then have "bh t \<le> 59" by (rule power_le_imp_le_exp [rotated]) simp
  with height_bh [OF assms(1)] assms(2) show ?thesis by simp
qed

section \<open>The order of the keys\<close>

locale comparator =
  fixes cmp :: "'k \<Rightarrow> 'k \<Rightarrow> map_cmp"
  assumes cmp_equal: "cmp a b = MAP_CMP_EQUAL \<longleftrightarrow> a = b"
    and cmp_flip: "cmp a b = MAP_CMP_GREATER \<longleftrightarrow> cmp b a = MAP_CMP_LESS"
    and cmp_trans: "cmp a b = MAP_CMP_LESS \<Longrightarrow> cmp b c = MAP_CMP_LESS \<Longrightarrow> cmp a c = MAP_CMP_LESS"

definition ascending :: "('k \<Rightarrow> 'k \<Rightarrow> map_cmp) \<Rightarrow> ('k \<times> 'v) list \<Rightarrow> bool" where
  "ascending cmp xs \<longleftrightarrow> sorted_wrt (\<lambda>a b. cmp (fst a) (fst b) = MAP_CMP_LESS) xs"

text \<open>The path of a search for \<open>key\<close>: the keys before it are smaller, the keys after it greater.\<close>

definition around :: "('k \<Rightarrow> 'k \<Rightarrow> map_cmp) \<Rightarrow> 'k \<Rightarrow> ('k, 'v) rb_path_entry list \<Rightarrow> bool" where
  "around cmp key path \<longleftrightarrow> (\<forall>e\<in>set (before path). cmp (fst e) key = MAP_CMP_LESS) \<and>
     (\<forall>e\<in>set (after path). cmp key (fst e) = MAP_CMP_LESS)"

text \<open>The key and the data of a node on the path do not matter to the invariant.\<close>

lemma path_ok_key:
  "path_ok (below @ greater_entry c k v l # path) h \<longleftrightarrow> path_ok (below @ greater_entry c k' v' l # path) h"
  and red_ok_key: "red_ok (below @ greater_entry c k v l # path) \<longleftrightarrow> red_ok (below @ greater_entry c k' v' l # path)"
proof -
  have red: "red_ok (below @ greater_entry c k v l # path) \<longleftrightarrow> red_ok (below @ greater_entry c k' v' l # path)" for below
    by (cases below) simp_all
  then show "path_ok (below @ greater_entry c k v l # path) h \<longleftrightarrow> path_ok (below @ greater_entry c k' v' l # path) h"
    by (induction below arbitrary: h) auto
  show "red_ok (below @ greater_entry c k v l # path) \<longleftrightarrow> red_ok (below @ greater_entry c k' v' l # path)" by (rule red)
qed

lemma bh_0_black:
  assumes "bh t = 0" "\<not> is_red t"
  shows "t = Leaf"
proof (cases t)
  case (Node l c k v r)
  with assms show ?thesis by (cases c) simp_all
qed

lemma remove_succ_ok:
  "llrb t \<Longrightarrow> t \<noteq> Leaf \<Longrightarrow> path_ok (below @ base) (bh t) \<Longrightarrow> is_red t \<longrightarrow> red_ok (below @ base) \<Longrightarrow> before below = [] \<Longrightarrow>
   depth + length below + rb_height t < RB_MAX_DEPTH \<Longrightarrow>
   \<exists>below' c k v. remove_succ depth t below = Some (below', Node Leaf c k v Leaf) \<and>
     path_ok (below' @ base) (bh (Node Leaf c k v Leaf)) \<and> (c = RB_RED \<longrightarrow> red_ok (below' @ base)) \<and>
     before below' = [] \<and> inorder t @ after below = (k, v) # after below'"
proof (induction t arbitrary: below)
  case (Node l c k v r)
  show ?case
  proof (cases "l = Leaf")
    case True
    with Node.prems(1) have "r = Leaf" by (intro bh_0_black) auto
    with True Node.prems show ?thesis by auto
  next
    case False
    let ?b = "less_entry c k v r # below"
    have "path_ok (?b @ base) (bh l)" "is_red l \<longrightarrow> red_ok (?b @ base)" "before ?b = []"
      "depth + length ?b + rb_height l < RB_MAX_DEPTH"
      using Node.prems by (cases c; auto)+
    from Node.IH(1) [OF _ False this] Node.prems False show ?thesis by auto
  qed
qed simp

text \<open>The first entry whose key is greater than \<open>key\<close>.\<close>

definition next_entry :: "('k \<Rightarrow> 'k \<Rightarrow> map_cmp) \<Rightarrow> 'k \<Rightarrow> ('k \<times> 'v) list \<Rightarrow> ('k \<times> 'v) option" where
  "next_entry cmp key xs = List.find (\<lambda>e. cmp key (fst e) = MAP_CMP_LESS) xs"

context comparator
begin

lemma cmp_irrefl [simp]: "cmp a a \<noteq> MAP_CMP_LESS"
  using cmp_equal [of a a] by auto

lemma ascending_Nil [simp]: "ascending cmp []"
  by (simp add: ascending_def)

lemma ascending_append: "ascending cmp (xs @ ys) \<longleftrightarrow> ascending cmp xs \<and> ascending cmp ys \<and>
    (\<forall>x\<in>set xs. \<forall>y\<in>set ys. cmp (fst x) (fst y) = MAP_CMP_LESS)"
  by (simp add: ascending_def sorted_wrt_append)

lemma ascending_Cons: "ascending cmp (x # ys) \<longleftrightarrow> ascending cmp ys \<and> (\<forall>y\<in>set ys. cmp (fst x) (fst y) = MAP_CMP_LESS)"
  by (auto simp: ascending_def)

lemma around_less:
  "cmp key k = MAP_CMP_LESS \<Longrightarrow> ascending cmp ((k, v) # inorder r) \<Longrightarrow> around cmp key path \<Longrightarrow>
   around cmp key (less_entry c k v r # path)"
  by (auto simp: around_def ascending_Cons intro: cmp_trans)

lemma around_greater:
  "cmp key k = MAP_CMP_GREATER \<Longrightarrow> ascending cmp (inorder l @ [(k, v)]) \<Longrightarrow> around cmp key path \<Longrightarrow>
   around cmp key (greater_entry c k v l # path)"
  by (auto simp: around_def ascending_append cmp_flip intro: cmp_trans)

lemma ascending_Node:
  "ascending cmp (inorder (Node l c k v r)) \<Longrightarrow> ascending cmp (inorder l) \<and> ascending cmp (inorder r) \<and>
     ascending cmp ((k, v) # inorder r) \<and> ascending cmp (inorder l @ [(k, v)])"
  by (auto simp: ascending_append ascending_Cons)

lemma rb_insert_unique_at:
  "rb_insert_unique cmp key t path = Insert_at path' \<Longrightarrow> ascending cmp (inorder t) \<Longrightarrow> around cmp key path \<Longrightarrow>
   llrb t \<Longrightarrow> path_ok path (bh t) \<Longrightarrow> is_red t \<longrightarrow> red_ok path \<Longrightarrow>
   plug path' Leaf = plug path t \<and> around cmp key path' \<and> path_ok path' 0"
proof (induction t arbitrary: path)
  case (Node l c k v r)
  from ascending_Node [OF Node.prems(2)] have asc: "ascending cmp (inorder l)" "ascending cmp (inorder r)"
    "ascending cmp ((k, v) # inorder r)" "ascending cmp (inorder l @ [(k, v)])" by simp_all
  show ?case
  proof (cases "cmp key k")
    case MAP_CMP_LESS
    with Node.IH(1) [OF _ asc(1) around_less [OF MAP_CMP_LESS asc(3) Node.prems(3)], of c] Node.prems show ?thesis
      by (cases c) (auto simp: pe_node_def split: if_splits)
  next
    case MAP_CMP_GREATER
    with Node.IH(2) [OF _ asc(2) around_greater [OF MAP_CMP_GREATER asc(4) Node.prems(3)], of c] Node.prems show ?thesis
      by (cases c) (auto simp: pe_node_def split: if_splits)
  qed (use Node.prems(1) in \<open>simp split: if_splits\<close>)
qed (simp split: if_splits)

lemma rb_insert_unique_existing:
  "rb_insert_unique cmp key t path = Existing t' \<Longrightarrow> key \<in> fst ` set (inorder t)"
  by (induction t arbitrary: path) (auto simp: cmp_equal split: if_splits map_cmp.splits)

lemma rb_insert_unique_depth:
  "rb_height t + length path < RB_MAX_DEPTH - 1 \<Longrightarrow> rb_insert_unique cmp key t path \<noteq> Too_deep"
  by (induction t arbitrary: path) (auto split: map_cmp.split)

lemma rb_find_Node: "rb_find cmp t key = Node l c k v r \<Longrightarrow> k = key \<and> (key, v) \<in> set (inorder t)"
  by (induction t) (auto simp: cmp_equal split: map_cmp.splits)

lemma rb_find_Leaf:
  "ascending cmp (inorder t) \<Longrightarrow> rb_find cmp t key = Leaf \<Longrightarrow> key \<notin> fst ` set (inorder t)"
proof (induction t)
  case (Node l c k v r)
  have "cmp key k \<noteq> MAP_CMP_EQUAL" using Node.prems(2) by auto
  moreover have "cmp x y = MAP_CMP_LESS \<Longrightarrow> cmp y x \<noteq> MAP_CMP_LESS" for x y using cmp_flip [of x y] by auto
  ultimately show ?case using Node ascending_Node [OF Node.prems(1)]
    by (cases "cmp key k") (auto simp: ascending_Cons ascending_append cmp_flip cmp_equal intro: cmp_trans)
qed simp

lemma ascending_distinct: "ascending cmp xs \<Longrightarrow> distinct (map fst xs)"
  by (induction xs) (auto simp: ascending_Cons)

lemma map_of_ascending: "ascending cmp xs \<Longrightarrow> map_of xs k = Some v \<longleftrightarrow> (k, v) \<in> set xs"
  by (simp add: map_of_eq_Some_iff ascending_distinct)

lemma map_of_insert:
  assumes "around cmp key path"
  shows "map_of (before path @ (key, v) # after path) = (map_of (before path @ after path))(key \<mapsto> v)"
proof
  fix k
  have "key \<notin> fst ` set (before path)" using assms by (auto simp: around_def)
  then have "map_of (before path) key = None" by (simp add: map_of_eq_None_iff)
  then show "map_of (before path @ (key, v) # after path) k = ((map_of (before path @ after path))(key \<mapsto> v)) k"
    by (auto simp: map_add_def split: option.split)
qed

lemma ascending_insert:
  "ascending cmp (before path @ after path) \<Longrightarrow> around cmp key path \<Longrightarrow> ascending cmp (before path @ (key, v) # after path)"
  by (auto simp: ascending_append ascending_Cons around_def intro: cmp_trans)

lemma remove_search_ok:
  "ascending cmp (inorder t) \<Longrightarrow> around cmp key path \<Longrightarrow> llrb t \<Longrightarrow> path_ok path (bh t) \<Longrightarrow> is_red t \<longrightarrow> red_ok path \<Longrightarrow>
   key \<in> fst ` set (inorder t) \<Longrightarrow> rb_height t + length path < RB_MAX_DEPTH \<Longrightarrow>
   \<exists>path' l c v r. remove_search cmp key t path = Some (path', Node l c key v r) \<and> plug path' (Node l c key v r) = plug path t \<and>
     around cmp key path' \<and> llrb (Node l c key v r) \<and> path_ok path' (bh (Node l c key v r)) \<and> (c = RB_RED \<longrightarrow> red_ok path') \<and>
     length path' + rb_height (Node l c key v r) \<le> rb_height t + length path"
proof (induction t arbitrary: path)
  case (Node l c k v r)
  from ascending_Node [OF Node.prems(1)] have asc: "ascending cmp (inorder l)" "ascending cmp (inorder r)"
    "ascending cmp ((k, v) # inorder r)" "ascending cmp (inorder l @ [(k, v)])" by simp_all
  have flip: "cmp x y = MAP_CMP_LESS \<Longrightarrow> cmp y x \<noteq> MAP_CMP_LESS" for x y using cmp_flip [of x y] by auto
  show ?case
  proof (cases "cmp key k")
    case MAP_CMP_LESS
    let ?p = "less_entry c k v r # path"
    have "key \<in> fst ` set (inorder l)"
      using MAP_CMP_LESS Node.prems(6) asc(3) flip by (auto simp: ascending_Cons)
    moreover have "path_ok ?p (bh l)" "is_red l \<longrightarrow> red_ok ?p" using Node.prems(3-5) by (cases c; auto)+
    moreover have "llrb l" "rb_height l + length ?p < RB_MAX_DEPTH" using Node.prems(3,7) by auto
    ultimately obtain path' l' c' v' r' where ih: "remove_search cmp key l ?p = Some (path', Node l' c' key v' r')"
      "plug path' (Node l' c' key v' r') = plug ?p l" "around cmp key path'" "llrb (Node l' c' key v' r')"
      "path_ok path' (bh (Node l' c' key v' r'))" "c' = RB_RED \<longrightarrow> red_ok path'"
      "length path' + rb_height (Node l' c' key v' r') \<le> rb_height l + length ?p"
      using Node.IH(1) [OF asc(1) around_less [OF MAP_CMP_LESS asc(3) Node.prems(2)]] by blast
    have e: "remove_search cmp key (Node l c k v r) path = remove_search cmp key l ?p" "plug ?p l = plug path (Node l c k v r)"
      "rb_height l + length ?p \<le> rb_height (Node l c k v r) + length path"
      using Node.prems(7) MAP_CMP_LESS by (auto simp: pe_node_def)
    show ?thesis
      unfolding e(1) e(2) [symmetric]
      by (intro exI conjI, rule ih(1), rule ih(2), rule ih(3), rule ih(4), rule ih(5), rule ih(6),
        rule order.trans [OF ih(7) e(3)])
  next
    case MAP_CMP_GREATER
    let ?p = "greater_entry c k v l # path"
    have "key \<in> fst ` set (inorder r)"
      using MAP_CMP_GREATER Node.prems(6) asc(4) flip by (auto simp: ascending_append cmp_flip)
    moreover have "path_ok ?p (bh r)" "is_red r \<longrightarrow> red_ok ?p" using Node.prems(3-5) by (cases c; auto)+
    moreover have "llrb r" "rb_height r + length ?p < RB_MAX_DEPTH" using Node.prems(3,7) by auto
    ultimately obtain path' l' c' v' r' where ih: "remove_search cmp key r ?p = Some (path', Node l' c' key v' r')"
      "plug path' (Node l' c' key v' r') = plug ?p r" "around cmp key path'" "llrb (Node l' c' key v' r')"
      "path_ok path' (bh (Node l' c' key v' r'))" "c' = RB_RED \<longrightarrow> red_ok path'"
      "length path' + rb_height (Node l' c' key v' r') \<le> rb_height r + length ?p"
      using Node.IH(2) [OF asc(2) around_greater [OF MAP_CMP_GREATER asc(4) Node.prems(2)]] by blast
    have e: "remove_search cmp key (Node l c k v r) path = remove_search cmp key r ?p" "plug ?p r = plug path (Node l c k v r)"
      "rb_height r + length ?p \<le> rb_height (Node l c k v r) + length path"
      using Node.prems(7) MAP_CMP_GREATER by (auto simp: pe_node_def)
    show ?thesis
      unfolding e(1) e(2) [symmetric]
      by (intro exI conjI, rule ih(1), rule ih(2), rule ih(3), rule ih(4), rule ih(5), rule ih(6),
        rule order.trans [OF ih(7) e(3)])
  next
    case MAP_CMP_EQUAL
    then have k: "k = key" by (simp add: cmp_equal)
    with MAP_CMP_EQUAL Node.prems(7) have e: "remove_search cmp key (Node l c k v r) path = Some (path, Node l c key v r)" by simp
    show ?thesis
      by (intro exI conjI, rule e) (use Node.prems(2-5) k in simp_all)
  qed
qed simp

lemma rb_remove_ok:
  assumes t: "llrb t" "\<not> is_red t" "ascending cmp (inorder t)" "rb_height t < RB_MAX_DEPTH" "key \<in> fst ` set (inorder t)"
  shows "\<exists>t' xs v ys. rb_remove cmp key t = Some t' \<and> llrb t' \<and> \<not> is_red t' \<and> inorder t = xs @ (key, v) # ys \<and> inorder t' = xs @ ys"
proof -
  obtain path l c v r where s: "remove_search cmp key t [] = Some (path, Node l c key v r)"
    "plug path (Node l c key v r) = t" "llrb (Node l c key v r)" "path_ok path (bh (Node l c key v r))"
    "c = RB_RED \<longrightarrow> red_ok path" "length path + rb_height (Node l c key v r) \<le> rb_height t"
    using remove_search_ok [of t key "[]"] t by (auto simp: around_def)
  from inorder_plug [of path "Node l c key v r"] s(2)
  have ino: "inorder t = before path @ inorder l @ (key, v) # inorder r @ after path" by simp
  show ?thesis
  proof (cases "r = Leaf")
    case False
    have r: "llrb r" "path_ok ([] @ greater_entry c key v l # path) (bh r)" "is_red r \<longrightarrow> red_ok ([] @ greater_entry c key v l # path)"
      "length path + 1 + length [] + rb_height r < RB_MAX_DEPTH"
      using s(3-6) t(4) by auto
    from remove_succ_ok [OF r(1) False r(2,3) _ r(4)] obtain below sc sk sv where b: "remove_succ (length path + 1) r [] = Some (below, Node Leaf sc sk sv Leaf)"
      "path_ok (below @ greater_entry c key v l # path) (bh (Node Leaf sc sk sv Leaf))"
      "sc = RB_RED \<longrightarrow> red_ok (below @ greater_entry c key v l # path)" "before below = []" "inorder r = (sk, sv) # after below"
      by auto
    let ?p = "below @ greater_entry c sk sv l # path"
    have "path_ok ?p (bh (Node Leaf sc sk sv Leaf))" "sc = RB_RED \<longrightarrow> red_ok ?p"
      using b(2,3) path_ok_key [of below c key v l path _ sk sv] red_ok_key [of below c key v l path sk sv] by simp_all
    from remove_prune_ok [OF this(1) _ this(2)] obtain t' where "remove_prune ?p sc = Some t'" "llrb t'" "\<not> is_red t'"
      "inorder t' = before ?p @ after ?p" by auto
    then have "rb_remove cmp key t = Some t'" "inorder t' = (before path @ inorder l) @ inorder r @ after path"
      "inorder t = (before path @ inorder l) @ (key, v) # inorder r @ after path"
      using s(1) b ino False by (simp_all add: rb_remove_def)
    with \<open>llrb t'\<close> \<open>\<not> is_red t'\<close> show ?thesis by blast
  next
    case True
    with s(3) have "bh l = 0" by simp
    show ?thesis
    proof (cases l)
      case (Node ll lc lk lv lr)
      with \<open>bh l = 0\<close> s(3) have l: "c = RB_BLACK" "is_red l" by (cases lc; cases c; simp)+
      with llrb_plug [of path "set_col RB_BLACK l"] s(3,4) have "llrb (plug path (set_col RB_BLACK l))"
        "\<not> is_red (plug path (set_col RB_BLACK l))" by (auto simp: bh_set_black llrb_set_black)
      moreover have "rb_remove cmp key t = Some (plug path (set_col RB_BLACK l))"
        "inorder (plug path (set_col RB_BLACK l)) = (before path @ inorder l) @ after path"
        "inorder t = (before path @ inorder l) @ (key, v) # after path"
        using s(1) l True ino Node by (simp_all add: rb_remove_def)
      ultimately show ?thesis by blast
    next
      case Leaf
      show ?thesis
      proof (cases "path = []")
        case False
        with remove_prune_ok [OF s(4) _ s(5)] Leaf obtain t' where "remove_prune path c = Some t'" "llrb t'" "\<not> is_red t'"
          "inorder t' = before path @ after path" by auto
        with False Leaf True s(1) ino show ?thesis by (auto simp: rb_remove_def)
      qed (use Leaf True s(1) ino in \<open>simp add: rb_remove_def\<close>)
    qed
  qed
qed

lemma asym: "cmp x y = MAP_CMP_LESS \<Longrightarrow> cmp y x \<noteq> MAP_CMP_LESS"
  using cmp_flip [of x y] by auto

lemma rb_find_inorder:
  "rb_find cmp t key = Node l c k v r \<Longrightarrow> \<exists>xs ys. inorder t = xs @ inorder l @ (k, v) # inorder r @ ys"
proof (induction t)
  case (Node l1 c1 k1 v1 r1)
  show ?case
  proof (cases "cmp key k1")
    case MAP_CMP_LESS
    with Node obtain xs ys where "inorder l1 = xs @ inorder l @ (k, v) # inorder r @ ys" by auto
    then have "inorder (Node l1 c1 k1 v1 r1) = xs @ inorder l @ (k, v) # inorder r @ (ys @ (k1, v1) # inorder r1)" by simp
    then show ?thesis by blast
  next
    case MAP_CMP_GREATER
    with Node obtain xs ys where "inorder r1 = xs @ inorder l @ (k, v) # inorder r @ ys" by auto
    then have "inorder (Node l1 c1 k1 v1 r1) = (inorder l1 @ (k1, v1) # xs) @ inorder l @ (k, v) # inorder r @ ys" by simp
    then show ?thesis by blast
  next
    case MAP_CMP_EQUAL
    with Node.prems have "inorder (Node l1 c1 k1 v1 r1) = [] @ inorder l @ (k, v) # inorder r @ []" by simp
    then show ?thesis by blast
  qed
qed simp

text \<open>Searching from the root for a key below a node that was found continues from that node.\<close>

lemma keys_side:
  assumes "ascending cmp (inorder (Node l c k v r))"
  shows "key \<in> fst ` set (inorder l) \<Longrightarrow> cmp key k = MAP_CMP_LESS" "key \<in> fst ` set (inorder r) \<Longrightarrow> cmp key k = MAP_CMP_GREATER"
  using assms by (auto simp: ascending_append ascending_Cons cmp_flip)

lemma rb_find_keys: "rb_find cmp t key = s \<Longrightarrow> set (inorder s) \<subseteq> set (inorder t)"
  by (induction t) (auto split: map_cmp.splits)

lemma rb_find_below:
  "ascending cmp (inorder t) \<Longrightarrow> rb_find cmp t key = s \<Longrightarrow> key' \<in> fst ` set (inorder s) \<Longrightarrow> rb_find cmp t key' = rb_find cmp s key'"
proof (induction t)
  case (Node l c k v r)
  from ascending_Node [OF Node.prems(1)] have asc: "ascending cmp (inorder l)" "ascending cmp (inorder r)" by simp_all
  show ?case
  proof (cases "cmp key k")
    case MAP_CMP_LESS
    with Node.prems have f: "rb_find cmp l key = s" by simp
    with rb_find_keys [OF f] Node.prems(3) keys_side(1) [OF Node.prems(1)] have "cmp key' k = MAP_CMP_LESS" by blast
    with Node.IH(1) [OF asc(1) f Node.prems(3)] show ?thesis by simp
  next
    case MAP_CMP_GREATER
    with Node.prems have f: "rb_find cmp r key = s" by simp
    with rb_find_keys [OF f] Node.prems(3) keys_side(2) [OF Node.prems(1)] have "cmp key' k = MAP_CMP_GREATER" by blast
    with Node.IH(2) [OF asc(2) f Node.prems(3)] show ?thesis by simp
  qed (use Node.prems in simp)
qed simp

lemma cmp_refl [simp]: "cmp k k = MAP_CMP_EQUAL"
  by (simp add: cmp_equal)

lemma leftmost_find: "ascending cmp (inorder t) \<Longrightarrow> t \<noteq> Leaf \<Longrightarrow> leftmost t = rb_find cmp t (fst (hd (inorder t)))"
proof (induction t rule: leftmost.induct)
  case (1 ll lc lk lv lr c k v r)
  let ?l = "Node ll lc lk lv lr"
  have "hd (inorder ?l) \<in> set (inorder ?l)" by (intro hd_in_set) simp
  with keys_side(1) [OF 1(2)] have "cmp (fst (hd (inorder ?l))) k = MAP_CMP_LESS" by blast
  then have "rb_find cmp (Node ?l c k v r) (fst (hd (inorder ?l))) = rb_find cmp ?l (fst (hd (inorder ?l)))" by simp
  moreover have "leftmost ?l = rb_find cmp ?l (fst (hd (inorder ?l)))"
    by (rule 1(1)) (use ascending_Node [OF 1(2)] in simp_all)
  moreover have "hd (inorder (Node ?l c k v r)) = hd (inorder ?l)" by (cases "inorder ll") simp_all
  ultimately show ?case by (simp only: leftmost.simps)
qed simp_all

lemma rightmost_find: "ascending cmp (inorder t) \<Longrightarrow> t \<noteq> Leaf \<Longrightarrow> rightmost t = rb_find cmp t (fst (last (inorder t)))"
proof (induction t rule: rightmost.induct)
  case (1 l c k v rl rc rk rv rr)
  let ?r = "Node rl rc rk rv rr"
  have "last (inorder ?r) \<in> set (inorder ?r)" by (intro last_in_set) simp
  with keys_side(2) [OF 1(2)] have "cmp (fst (last (inorder ?r))) k = MAP_CMP_GREATER" by simp
  with 1 ascending_Node [OF 1(2)] show ?case by simp
qed simp_all

lemma next_entry_append: "next_entry cmp key (xs @ ys) = (case next_entry cmp key xs of None \<Rightarrow> next_entry cmp key ys | Some e \<Rightarrow> Some e)"
  by (induction xs) (simp_all add: next_entry_def)

lemma next_entry_in: "next_entry cmp key xs = Some e \<Longrightarrow> e \<in> set xs"
  by (simp add: next_entry_def find_Some_iff) (metis nth_mem)

lemma next_entry_None: "(\<And>e. e \<in> set xs \<Longrightarrow> cmp (fst e) key = MAP_CMP_LESS \<or> fst e = key) \<Longrightarrow> next_entry cmp key xs = None"
  unfolding next_entry_def find_None_iff by (metis asym cmp_irrefl)

lemma next_entry_Cons: "next_entry cmp key (e # xs) = (if cmp key (fst e) = MAP_CMP_LESS then Some e else next_entry cmp key xs)"
  by (simp add: next_entry_def)

lemma rb_find_side:
  assumes "ascending cmp (inorder (Node l c k v r))"
  shows "e \<in> set (inorder l) \<Longrightarrow> rb_find cmp (Node l c k v r) (fst e) = rb_find cmp l (fst e)"
    "e \<in> set (inorder r) \<Longrightarrow> rb_find cmp (Node l c k v r) (fst e) = rb_find cmp r (fst e)"
  using keys_side [OF assms, of "fst e"] by auto

lemma succ_search_next:
  "ascending cmp (inorder t) \<Longrightarrow> (\<And>l c k v r. rb_find cmp t key = Node l c k v r \<Longrightarrow> r = Leaf) \<Longrightarrow>
   succ_search cmp key t s = (case next_entry cmp key (inorder t) of None \<Rightarrow> s | Some e \<Rightarrow> rb_find cmp t (fst e))"
proof (induction t arbitrary: s)
  case (Node l c k v r)
  let ?t = "Node l c k v r"
  note asc = ascending_Node [OF Node.prems(1)] and side = rb_find_side [OF Node.prems(1)]
  show ?case
  proof (cases "cmp key k")
    case MAP_CMP_LESS
    have "succ_search cmp key l ?t = (case next_entry cmp key (inorder l) of None \<Rightarrow> ?t | Some e \<Rightarrow> rb_find cmp l (fst e))"
      using Node.prems(2) MAP_CMP_LESS asc by (intro Node.IH(1)) auto
    with MAP_CMP_LESS side(1) show ?thesis
      by (auto simp: next_entry_append next_entry_Cons simp del: rb_find.simps(2) dest: next_entry_in split: option.split)
        (simp add: cmp_equal)
  next
    case MAP_CMP_GREATER
    have IH: "succ_search cmp key r s = (case next_entry cmp key (inorder r) of None \<Rightarrow> s | Some e \<Rightarrow> rb_find cmp r (fst e))"
      using Node.prems(2) MAP_CMP_GREATER asc by (intro Node.IH(2)) auto
    have "next_entry cmp key (inorder l @ [(k, v)]) = None"
      using MAP_CMP_GREATER Node.prems(1)
      by (intro next_entry_None) (auto simp: cmp_flip ascending_append intro: cmp_trans)
    then have "next_entry cmp key (inorder ?t) = next_entry cmp key (inorder r)"
      using next_entry_append [of key "inorder l @ [(k, v)]" "inorder r"] by simp
    with MAP_CMP_GREATER IH side(2) show ?thesis
      by (auto simp del: rb_find.simps(2) inorder.simps(2) dest: next_entry_in split: option.split)
  next
    case MAP_CMP_EQUAL
    with Node.prems(2) have "r = Leaf" by simp
    moreover have "next_entry cmp key (inorder l @ [(k, v)]) = None"
      using MAP_CMP_EQUAL Node.prems(1) by (intro next_entry_None) (auto simp: cmp_equal ascending_append)
    ultimately show ?thesis using MAP_CMP_EQUAL by simp
  qed
qed (simp add: next_entry_def)

lemma next_entry_middle:
  assumes "ascending cmp (xs @ (key, v) # ys)"
  shows "next_entry cmp key (xs @ (key, v) # ys) = (case ys of [] \<Rightarrow> None | e # _ \<Rightarrow> Some e)"
proof -
  have "next_entry cmp key xs = None" using assms by (intro next_entry_None) (auto simp: ascending_append)
  moreover have "next_entry cmp key ys = (case ys of [] \<Rightarrow> None | e # _ \<Rightarrow> Some e)"
    using assms by (cases ys) (auto simp: ascending_append ascending_Cons next_entry_def)
  ultimately show ?thesis by (simp add: next_entry_append next_entry_Cons)
qed

lemma map_next_find:
  assumes "ascending cmp (inorder (map_root obj))" "inorder (map_root obj) = xs @ (key, v) # ys"
  shows "map_next cmp obj (rb_find cmp (map_root obj) key) = (case ys of [] \<Rightarrow> Leaf | e # _ \<Rightarrow> rb_find cmp (map_root obj) (fst e))"
proof -
  let ?t = "map_root obj"
  obtain l c k v' r where f: "rb_find cmp ?t key = Node l c k v' r"
    using rb_find_Leaf [OF assms(1), of key] assms(2) by (cases "rb_find cmp ?t key") auto
  with rb_find_Node [OF f] have k: "k = key" by simp
  note nxt = next_entry_middle [OF assms(1) [unfolded assms(2)]]
  obtain xs' ys' where t: "inorder ?t = (xs' @ inorder l) @ (key, v') # (inorder r @ ys')"
    using rb_find_inorder [OF f] k by auto
  show ?thesis
  proof (cases "r = Leaf")
    case True
    with f have "succ_search cmp key ?t Leaf = (case next_entry cmp key (inorder ?t) of None \<Rightarrow> Leaf | Some e \<Rightarrow> rb_find cmp ?t (fst e))"
      by (intro succ_search_next [OF assms(1)]) simp
    with f True k nxt show ?thesis unfolding assms(2) by (cases ys) simp_all
  next
    case False
    then have "inorder r \<noteq> []" by (cases r) simp_all
    then obtain e es where e: "inorder r = e # es" by (cases "inorder r") simp_all
    have "Some e = (case ys of [] \<Rightarrow> None | e # _ \<Rightarrow> Some e)"
      using next_entry_middle [OF assms(1) [unfolded t]] nxt unfolding assms(2) [symmetric] t e by simp
    moreover have "ascending cmp (inorder r)" using assms(1) unfolding t by (simp add: ascending_append ascending_Cons)
    moreover have "cmp (fst e) key = MAP_CMP_GREATER"
      using assms(1) unfolding t e by (simp add: ascending_append ascending_Cons cmp_flip)
    with rb_find_below [OF assms(1) f, of "fst e"] e k have "rb_find cmp ?t (fst e) = rb_find cmp r (fst e)" by simp
    ultimately show ?thesis using leftmost_find [of r] False f e by (cases ys) simp_all
  qed
qed

end

interpretation int_order: comparator map_cmp_int
  by unfold_locales (auto simp: map_cmp_int_def map_cmp_of_def dest: signed_word_eqI split: if_splits)

interpretation uint_order: comparator map_cmp_uint
  by unfold_locales (auto simp: map_cmp_uint_def map_cmp_of_def split: if_splits)

section \<open>The map\<close>

definition map_ok :: "('k \<Rightarrow> 'k \<Rightarrow> map_cmp) \<Rightarrow> ('k, 'v) map_internal \<Rightarrow> bool" where
  "map_ok cmp obj \<longleftrightarrow> llrb (map_root obj) \<and> \<not> is_red (map_root obj) \<and> ascending cmp (inorder (map_root obj)) \<and>
     fits_memory (map_root obj) \<and> unat (map_count obj) = length (inorder (map_root obj)) \<and>
     map_create_node (key_size obj) (data_size obj) \<noteq> None"

definition map_abs :: "('k, 'v) map_internal \<Rightarrow> 'k \<Rightarrow> 'v option" where
  "map_abs obj = map_of (inorder (map_root obj))"

lemma map_ok_height: "map_ok cmp obj \<Longrightarrow> rb_height (map_root obj) \<le> 118"
  using height_bound unfolding map_ok_def by blast

context comparator
begin

lemma insert_point:
  assumes "map_ok cmp obj"
  shows "map_abs obj key \<noteq> None \<and> (\<exists>t. rb_insert_unique cmp key (map_root obj) [] = Existing t) \<or>
    map_abs obj key = None \<and> (\<exists>path. rb_insert_unique cmp key (map_root obj) [] = Insert_at path \<and>
      before path @ after path = inorder (map_root obj) \<and> around cmp key path \<and> path_ok path 0)"
proof (cases "rb_insert_unique cmp key (map_root obj) []")
  case (Existing t)
  with rb_insert_unique_existing [OF Existing] show ?thesis by (auto simp: map_abs_def map_of_eq_None_iff)
next
  case Too_deep
  with rb_insert_unique_depth [of "map_root obj" "[]" key] map_ok_height [OF assms] show ?thesis by simp
next
  case (Insert_at path)
  with rb_insert_unique_at [OF Insert_at] assms have p: "plug path Leaf = map_root obj" "around cmp key path" "path_ok path 0"
    by (simp_all add: map_ok_def around_def)
  then have i: "before path @ after path = inorder (map_root obj)" using inorder_plug [of path Leaf] by simp
  moreover have "key \<notin> fst ` set (before path @ after path)" using p(2) by (auto simp: around_def)
  ultimately show ?thesis using p Insert_at by (simp add: map_abs_def map_of_eq_None_iff)
qed

lemma map_insert_ok:
  assumes "map_ok cmp obj" "length (inorder (map_root obj)) + 1 < 2 ^ 59"
  shows "(if malloc \<and> map_abs obj key = None
    then \<exists>obj'. map_insert cmp malloc obj key v = (True, obj') \<and> map_ok cmp obj' \<and>
      map_abs obj' = (map_abs obj)(key \<mapsto> v) \<and> map_size obj' = map_size obj + 1
    else map_insert cmp malloc obj key v = (False, obj))"
proof (cases "malloc \<and> map_abs obj key = None")
  case True
  with insert_point [OF assms(1), of key] obtain path where p: "rb_insert_unique cmp key (map_root obj) [] = Insert_at path"
    "before path @ after path = inorder (map_root obj)" "around cmp key path" "path_ok path 0" by auto
  let ?t = "set_col RB_BLACK (insert_fixup path (Node Leaf RB_RED key v Leaf))"
  have t: "inorder ?t = before path @ (key, v) # after path" by simp
  have n: "length (inorder ?t) = length (inorder (map_root obj)) + 1" unfolding t using arg_cong [OF p(2), of length] by simp
  have "llrb ?t" using insert_fixup_ok [of path "Node Leaf RB_RED key v Leaf"] p(4) by simp
  moreover have "ascending cmp (inorder ?t)"
    using ascending_insert [OF _ p(3)] assms(1) unfolding t p(2) by (simp add: map_ok_def)
  moreover have "unat (map_count obj + 1) = length (inorder ?t)"
    using assms unfolding n map_ok_def by (subst unat_add_lem [THEN iffD1]) simp_all
  ultimately have "map_ok cmp (obj\<lparr>map_root := ?t, map_count := map_count obj + 1\<rparr>)"
    using assms n by (simp add: map_ok_def fits_memory_def)
  moreover have "map_of (inorder ?t) = (map_of (inorder (map_root obj)))(key \<mapsto> v)"
    using map_of_insert [OF p(3), of v] unfolding t p(2) .
  ultimately show ?thesis
    using True p(1) assms(1) by (auto simp: map_insert_def map_abs_def map_size_def map_ok_def)
next
  case False
  with insert_point [OF assms(1), of key] show ?thesis by (auto simp: map_insert_def)
qed

lemma map_find_ok:
  assumes "map_ok cmp obj"
  shows "case map_find cmp obj key of Leaf \<Rightarrow> map_abs obj key = None | Node l c k v r \<Rightarrow> k = key \<and> map_abs obj key = Some v"
  using assms rb_find_Leaf [of "map_root obj" key] rb_find_Node [of "map_root obj" key]
  by (auto simp: map_of_ascending map_ok_def map_find_def map_abs_def map_of_eq_None_iff split: rb.split)

lemma map_erase_ok:
  assumes "map_ok cmp obj" "map_abs obj key \<noteq> None"
  shows "\<exists>obj'. map_erase cmp obj (map_find cmp obj key) = Some (obj', Leaf) \<and> map_ok cmp obj' \<and>
    map_abs obj' = (map_abs obj)(key := None) \<and> map_size obj' = map_size obj - 1"
proof -
  obtain l c v r where f: "map_find cmp obj key = Node l c key v r"
    using map_find_ok [OF assms(1), of key] assms(2) by (auto split: rb.splits)
  let ?t = "map_root obj"
  have ok: "llrb ?t" "\<not> is_red ?t" "ascending cmp (inorder ?t)" "rb_height ?t < RB_MAX_DEPTH" "key \<in> fst ` set (inorder ?t)"
    using assms map_ok_height [OF assms(1)] by (auto simp: map_ok_def map_abs_def map_of_eq_None_iff)
  then obtain t' xs v' ys where r: "rb_remove cmp key ?t = Some t'" "llrb t'" "\<not> is_red t'"
    "inorder ?t = xs @ (key, v') # ys" "inorder t' = xs @ ys" using rb_remove_ok by blast
  have n: "unat (map_count obj) = length (inorder t') + 1" using assms(1) r(4,5) by (simp add: map_ok_def)
  then have c: "map_count obj \<noteq> 0" by auto
  then have "0 < map_count obj" by (simp add: word_gt_0)
  have "unat (map_count obj - 1) = length (inorder t')"
    using n c by (simp add: unat_sub word_le_nat_alt)
  then have "map_ok cmp (obj\<lparr>map_root := t', map_count := map_count obj - 1\<rparr>)"
    using assms(1) r ok(3) by (auto simp: map_ok_def fits_memory_def ascending_append ascending_Cons)
  moreover have "map_of (inorder t') = (map_of (inorder ?t))(key := None)"
  proof -
    have "distinct (map fst (inorder ?t))" using ok(3) by (rule ascending_distinct)
    then have "map_of xs key = None" "map_of ys key = None" unfolding r(4) by (auto simp: map_of_eq_None_iff)
    then show ?thesis unfolding r(4,5) by (auto simp: fun_eq_iff map_add_def split: option.split)
  qed
  ultimately show ?thesis
    using f r(1) c \<open>0 < map_count obj\<close> by (auto simp: map_erase_def map_abs_def map_size_def)
qed

end

section \<open>Iteration\<close>

text \<open>Walking \<open>n\<close> steps from an iterator.\<close>

fun map_walk :: "('k \<Rightarrow> 'k \<Rightarrow> map_cmp) \<Rightarrow> ('k, 'v) map_internal \<Rightarrow> nat \<Rightarrow> ('k, 'v) rb \<Rightarrow> ('k \<times> 'v) list" where
  "map_walk cmp obj 0 it = []"
| "map_walk cmp obj (Suc n) Leaf = []"
| "map_walk cmp obj (Suc n) (Node l c k v r) = (k, v) # map_walk cmp obj n (map_next cmp obj (Node l c k v r))"

text \<open>\<^verbatim>\<open>map_prev\<close> mirrors \<^verbatim>\<open>map_next\<close>.\<close>

fun mirror :: "('k, 'v) rb \<Rightarrow> ('k, 'v) rb" where
  "mirror Leaf = Leaf"
| "mirror (Node l c k v r) = Node (mirror r) c k v (mirror l)"

lemma mirror_simps [simp]:
  "mirror (mirror t) = t" "inorder (mirror t) = rev (inorder t)" "mirror t = Leaf \<longleftrightarrow> t = Leaf"
  by (induction t) simp_all

lemma mirror_most: "mirror (leftmost (mirror t)) = rightmost t"
  by (induction t rule: rightmost.induct) (simp_all split: rb.split)

lemma ascending_rev: "ascending (\<lambda>a b. cmp b a) (rev xs) \<longleftrightarrow> ascending cmp xs"
  by (simp add: ascending_def sorted_wrt_rev)

context comparator
begin

lemma flipped: "comparator (\<lambda>a b. cmp b a)"
proof
  fix a b c
  show "cmp b a = MAP_CMP_EQUAL \<longleftrightarrow> a = b" by (auto simp: cmp_equal)
  show "cmp b a = MAP_CMP_GREATER \<longleftrightarrow> cmp a b = MAP_CMP_LESS" by (rule cmp_flip)
  show "cmp b a = MAP_CMP_LESS \<Longrightarrow> cmp c b = MAP_CMP_LESS \<Longrightarrow> cmp c a = MAP_CMP_LESS" using cmp_trans by blast
qed

lemma cmp_swap: "cmp k key = (case cmp key k of MAP_CMP_LESS \<Rightarrow> MAP_CMP_GREATER | MAP_CMP_EQUAL \<Rightarrow> MAP_CMP_EQUAL | MAP_CMP_GREATER \<Rightarrow> MAP_CMP_LESS)"
  using cmp_flip [of key k] cmp_flip [of k key] cmp_equal [of key k] by (cases "cmp key k") auto

lemma mirror_find: "rb_find (\<lambda>a b. cmp b a) (mirror t) key = mirror (rb_find cmp t key)"
proof (induction t)
  case (Node l c k v r)
  then show ?case by (cases "cmp key k") (simp_all add: cmp_swap [of k key])
qed simp

lemma mirror_search: "succ_search (\<lambda>a b. cmp b a) key (mirror t) (mirror s) = mirror (pred_search cmp key t s)"
proof (induction t arbitrary: s)
  case (Node l c k v r)
  from Node.IH(2) [of "Node l c k v r"] Node.IH(1) show ?case
    by (cases "cmp key k") (simp_all add: cmp_swap [of k key])
qed simp

lemma mirror_next: "map_next (\<lambda>a b. cmp b a) (obj\<lparr>map_root := mirror (map_root obj)\<rparr>) (mirror it) = mirror (map_prev cmp obj it)"
proof (cases it)
  case (Node l c k v r)
  then show ?thesis using mirror_search [of k "map_root obj" Leaf] mirror_most [of l] by (auto dest: arg_cong [of _ _ mirror])
qed simp

lemma map_prev_find:
  assumes "ascending cmp (inorder (map_root obj))" "inorder (map_root obj) = xs @ (key, v) # ys"
  shows "map_prev cmp obj (rb_find cmp (map_root obj) key) = (case rev xs of [] \<Rightarrow> Leaf | e # _ \<Rightarrow> rb_find cmp (map_root obj) (fst e))"
proof -
  let ?obj = "obj\<lparr>map_root := mirror (map_root obj)\<rparr>"
  have "ascending (\<lambda>a b. cmp b a) (inorder (map_root ?obj))" using assms(1) by (simp add: ascending_rev)
  moreover have "inorder (map_root ?obj) = rev ys @ (key, v) # rev xs" by (simp add: assms(2))
  ultimately have "map_next (\<lambda>a b. cmp b a) ?obj (rb_find (\<lambda>a b. cmp b a) (map_root ?obj) key) =
    (case rev xs of [] \<Rightarrow> Leaf | e # _ \<Rightarrow> rb_find (\<lambda>a b. cmp b a) (map_root ?obj) (fst e))"
    by (rule comparator.map_next_find [OF flipped])
  then have "mirror (map_prev cmp obj (rb_find cmp (map_root obj) key)) =
    mirror (case rev xs of [] \<Rightarrow> Leaf | e # _ \<Rightarrow> rb_find cmp (map_root obj) (fst e))"
    by (cases "rev xs") (simp_all add: mirror_find mirror_next)
  then show ?thesis by (metis mirror_simps(1))
qed

lemma map_walk_ok:
  assumes "ascending cmp (inorder (map_root obj))"
  shows "inorder (map_root obj) = xs @ ys \<Longrightarrow>
    map_walk cmp obj n (case ys of [] \<Rightarrow> Leaf | e # _ \<Rightarrow> rb_find cmp (map_root obj) (fst e)) = take n ys"
proof (induction n arbitrary: xs ys)
  case (Suc n)
  show ?case
  proof (cases ys)
    case (Cons e es)
    obtain k v where e: "e = (k, v)" by (cases e)
    have i: "inorder (map_root obj) = xs @ (k, v) # es" "inorder (map_root obj) = (xs @ [e]) @ es"
      using Suc.prems Cons e by simp_all
    obtain l c k' v' r where f: "rb_find cmp (map_root obj) k = Node l c k' v' r"
      using rb_find_Leaf [OF assms, of k] i by (cases "rb_find cmp (map_root obj) k") auto
    have "(k, v') \<in> set (inorder (map_root obj))" "k' = k" using rb_find_Node [OF f] by auto
    moreover have "(k, v) \<in> set (inorder (map_root obj))" using i by simp
    ultimately have "v' = v" using map_of_ascending [OF assms] by (metis option.inject)
    with map_next_find [OF assms i(1)] Suc.IH [OF i(2)] f Cons e \<open>k' = k\<close> show ?thesis by simp
  qed simp
qed simp

end

section \<open>Node layout\<close>

lemma and_not_7: "unat (x AND - 8 :: u64) = unat x div 8 * 8"
proof -
  have "x AND NOT (mask 3) = push_bit 3 (drop_bit 3 x)" by (rule bit_word_eqI) (auto simp: bit_simps)
  then have "x AND - 8 = x div 8 * 8" by (simp add: mask_eq_exp_minus_1 push_bit_eq_mult drop_bit_eq_div)
  moreover have "unat x div 8 * 8 < 2 ^ 64" using unsigned_less [of x, where 'a = nat] by simp
  ultimately show ?thesis by (simp add: unat_word_ariths unat_div_distrib)
qed

lemma layout:
  assumes "unat ks + unat ds < 2 ^ 62"
  shows "map_create_node ks ds = Some (32, (ks + 39) AND - 8, ((ks + 39) AND - 8) + ds)"
    "unat ((ks + 39) AND - 8 :: u64) = (unat ks + 39) div 8 * 8"
    "unat (((ks + 39) AND - 8) + ds) = (unat ks + 39) div 8 * 8 + unat ds"
proof -
  have k: "unat (ks + 39) = unat ks + 39" using assms by (subst unat_add_lem [THEN iffD1]) simp_all
  then show d: "unat ((ks + 39) AND - 8 :: u64) = (unat ks + 39) div 8 * 8" by (simp add: and_not_7)
  show t: "unat (((ks + 39) AND - 8) + ds) = (unat ks + 39) div 8 * 8 + unat ds"
    using assms d by (subst unat_add_lem [THEN iffD1]) simp_all
  have "\<not> ((ks + 39) AND - 8) + ds < ds" "\<not> ((ks + 39) AND - 8) + ds < ks"
    unfolding word_less_nat_alt t by simp_all
  then show "map_create_node ks ds = Some (32, (ks + 39) AND - 8, ((ks + 39) AND - 8) + ds)"
    by (simp add: map_create_node_def Let_def add.commute)
qed

lemma map_new_sizes:
  assumes "map_new malloc ks ds = Some obj"
  shows "unat ks + unat ds < 2 ^ 62" "key_size obj = ks" "data_size obj = ds" "map_root obj = Leaf" "map_count obj = 0"
proof -
  have m: "- 1 div 4 = (0x3FFFFFFFFFFFFFFF :: u64)" by simp
  from assms have "\<not> ks > 0x3FFFFFFFFFFFFFFF" "\<not> ds > 0x3FFFFFFFFFFFFFFF" "\<not> ks + ds > 0x3FFFFFFFFFFFFFFF - 32"
    unfolding map_new_def Let_def m by (auto split: if_splits)
  then have s: "unat ks \<le> 2 ^ 62 - 1" "unat ds \<le> 2 ^ 62 - 1" "unat (ks + ds) \<le> 2 ^ 62 - 33"
    by (simp_all add: word_less_nat_alt)
  moreover have "unat (ks + ds) = unat ks + unat ds" using s(1,2) by (subst unat_add_lem [THEN iffD1]) simp_all
  ultimately show "unat ks + unat ds < 2 ^ 62" by simp
  show "key_size obj = ks" "data_size obj = ds" "map_root obj = Leaf" "map_count obj = 0"
    using assms by (auto simp: map_new_def Let_def split: if_splits)
qed

lemma rb_destroy_once: "mset (rb_destroy_recurse t) = mset (inorder t)"
  by (induction t) simp_all

section \<open>Properties\<close>

text \<open>C29. Packing the colour of a node into its right pointer loses nothing: with two-byte aligned
  pointers the right child, the left child and the colour can be set and read independently, and the special
  setters for red and black agree with the general one.\<close>

theorem node_links_roundtrip:
  assumes "even r"
  shows "rb_node_get_right (rb_node_set_right r n) = r \<and> rb_node_get_color (rb_node_set_right r n) = rb_node_get_color n \<and>
    rb_node_get_color (rb_node_set_color c n) = c \<and> rb_node_get_right (rb_node_set_color c n) = rb_node_get_right n \<and>
    rb_node_get_left (rb_node_set_left r n) = r \<and> rb_node_get_left (rb_node_set_right r n) = rb_node_get_left n \<and>
    rb_node_set_red n = rb_node_set_color RB_RED n \<and> rb_node_set_black n = rb_node_set_color RB_BLACK n"
proof -
  have even: "\<not> bit r 0" using assms by (simp add: bit_0)
  have "(r OR (x AND 1)) AND NOT 1 = r" for x
    by (rule bit_word_eqI) (use even in \<open>auto simp: bit_simps intro: gr0I\<close>)
  moreover have "(r OR (x AND 1)) AND 1 = x AND 1" for x
    by (rule bit_word_eqI) (use even in \<open>auto simp: bit_simps\<close>)
  moreover have "((x AND NOT 1) OR color_bit c) AND 1 = color_bit c" "((x AND NOT 1) OR color_bit c) AND NOT 1 = x AND NOT 1" for x
    by (rule bit_word_eqI, cases c, auto simp: bit_simps color_bit_def)+
  moreover have "x OR 1 = (x AND NOT 1) OR 1" for x :: u64 by (rule bit_word_eqI) (auto simp: bit_simps)
  ultimately show ?thesis
    by (cases c) (simp_all add: rb_node_get_right_def rb_node_set_right_def rb_node_get_color_def rb_node_set_color_def
      rb_node_get_left_def rb_node_set_left_def rb_node_set_red_def rb_node_set_black_def color_bit_def)
qed

theorem node_links_roundtrip_witness:
  "rb_node_get_right (rb_node_set_right 0x1000 rb_node_init) = 0x1000 \<and>
   rb_node_get_color (rb_node_set_right 0x1000 rb_node_init) = RB_RED"
  using node_links_roundtrip [where r = "0x1000" and n = rb_node_init and c = RB_RED] by (simp add: rb_node_get_color_def rb_node_init_def color_bit_def)

text \<open>C23. Inserting implements the update of a finite map. For any comparison function that is a linear
  order, an insertion into a well-formed map succeeds exactly when the key is new and the allocation
  succeeds; then the map is the old one updated at the key, its size is one more, and the tree is a left-leaning red-black
  tree in key order again. Otherwise the map is unchanged.\<close>

theorem map_insert_refines:
  assumes "comparator cmp" "map_ok cmp obj" "length (inorder (map_root obj)) + 1 < 2 ^ 59"
  shows "if malloc \<and> map_abs obj key = None
    then \<exists>obj'. map_insert cmp malloc obj key v = (True, obj') \<and> map_ok cmp obj' \<and>
      map_abs obj' = (map_abs obj)(key \<mapsto> v) \<and> map_size obj' = map_size obj + 1
    else map_insert cmp malloc obj key v = (False, obj)"
  by (rule comparator.map_insert_ok [OF assms])

text \<open>C24. Erasing the node that a lookup returned never fails an assertion, never reads through
  \<^verbatim>\<open>NULL\<close> and never leaves the path array, and implements removal of the key from the finite map; the result
  is well-formed again and its size one less.\<close>

theorem map_erase_refines:
  assumes "comparator cmp" "map_ok cmp obj" "map_abs obj key \<noteq> None"
  shows "\<exists>obj'. map_erase cmp obj (map_find cmp obj key) = Some (obj', Leaf) \<and> map_ok cmp obj' \<and>
    map_abs obj' = (map_abs obj)(key := None) \<and> map_size obj' = map_size obj - 1"
  by (rule comparator.map_erase_ok [OF assms])

text \<open>C25. A lookup returns the node with the key and the value the map has for it, and the end iterator exactly when
  the key is absent.\<close>

theorem map_find_lookup:
  assumes "comparator cmp" "map_ok cmp obj"
  shows "case map_find cmp obj key of
      Leaf \<Rightarrow> map_abs obj key = None
    | Node l c k v r \<Rightarrow> k = key \<and> map_abs obj key = Some v"
  by (rule comparator.map_find_ok [OF assms])

text \<open>C26. Walking a map from \<^verbatim>\<open>map_first\<close> with \<^verbatim>\<open>map_next\<close> visits every entry once, in key order,
  and then reaches the end; \<^verbatim>\<open>map_prev\<close> leads from every entry to the one before it.\<close>

theorem map_iteration:
  assumes "comparator cmp" "map_ok cmp obj"
  shows "map_walk cmp obj n (map_first obj) = take n (inorder (map_root obj)) \<and>
    (\<forall>xs k v ys. inorder (map_root obj) = xs @ (k, v) # ys \<longrightarrow>
       map_prev cmp obj (map_find cmp obj k) = (if xs = [] then Leaf else map_find cmp obj (fst (last xs))))"
proof -
  have asc: "ascending cmp (inorder (map_root obj))" using assms(2) by (simp add: map_ok_def)
  have "map_first obj = (case inorder (map_root obj) of [] \<Rightarrow> Leaf | e # _ \<Rightarrow> rb_find cmp (map_root obj) (fst e))"
  proof (cases "map_root obj = Leaf")
    case False
    then have "inorder (map_root obj) \<noteq> []" by (cases "map_root obj") simp_all
    then show ?thesis
      using comparator.leftmost_find [OF assms(1) asc False]
      by (cases "inorder (map_root obj)") (simp_all add: map_first_def)
  qed (simp add: map_first_def)
  with comparator.map_walk_ok [OF assms(1) asc, of "[]" "inorder (map_root obj)" n]
  have "map_walk cmp obj n (map_first obj) = take n (inorder (map_root obj))" by simp
  moreover have "map_prev cmp obj (map_find cmp obj k) = (if xs = [] then Leaf else map_find cmp obj (fst (last xs)))"
    if "inorder (map_root obj) = xs @ (k, v) # ys" for xs k v ys
    using comparator.map_prev_find [OF assms(1) asc that]
    by (cases xs rule: rev_cases) (simp_all add: map_find_def)
  ultimately show ?thesis by blast
qed

text \<open>C27. The path arrays are large enough: the tree of a well-formed map has at most 118 levels for any
  number of nodes that fits in the address space, so an insertion never gives up because the tree is too deep, and the removal,
  which does not check, never writes past its array of 128 entries.\<close>

theorem map_depth_bounds:
  assumes "comparator cmp" "map_ok cmp obj"
  shows "rb_height (map_root obj) \<le> 118 \<and> rb_insert_unique cmp key (map_root obj) [] \<noteq> Too_deep \<and>
    (map_abs obj key \<noteq> None \<longrightarrow> rb_remove cmp key (map_root obj) \<noteq> None)"
proof -
  have h: "rb_height (map_root obj) \<le> 118" by (rule map_ok_height [OF assms(2)])
  then have "rb_insert_unique cmp key (map_root obj) [] \<noteq> Too_deep"
    using comparator.rb_insert_unique_depth [OF assms(1), of "map_root obj" "[]" key] by simp
  moreover have "rb_remove cmp key (map_root obj) \<noteq> None" if "map_abs obj key \<noteq> None"
  proof -
    have "key \<in> fst ` set (inorder (map_root obj))" using that by (simp add: map_abs_def map_of_eq_None_iff)
    moreover have "rb_height (map_root obj) < RB_MAX_DEPTH" using h by simp
    ultimately show ?thesis
      using comparator.rb_remove_ok [OF assms(1), of "map_root obj" key] assms(2) unfolding map_ok_def by force
  qed
  ultimately show ?thesis using h by blast
qed

text \<open>C28. The layout of a node does not overflow: for all key and data sizes that \<^verbatim>\<open>map_new\<close> accepts, the
  header, the key and the data lie in the allocation one after the other without overlap, the data are
  aligned, and none of the additions wraps around. The new map is well-formed.\<close>

theorem map_new_layout:
  assumes "map_new malloc ks ds = Some obj"
  shows "\<exists>d t. map_create_node (key_size obj) (data_size obj) = Some (32, d, t) \<and>
    32 + unat ks \<le> unat d \<and> 8 dvd unat d \<and> unat t = unat d + unat ds \<and> map_ok cmp obj \<and> map_abs obj = Map.empty"
proof -
  note s = map_new_sizes [OF assms]
  note l = layout [OF s(1)]
  have "32 + unat ks \<le> (unat ks + 39) div 8 * 8" by linarith
  with l s(2-) show ?thesis
    by (auto simp: map_ok_def map_abs_def fits_memory_def ascending_def)
qed

definition map_example :: "(u32, u64) map_internal" where
  "map_example = \<lparr>map_root = Node (Node Leaf RB_RED (- 1) 10 Leaf) RB_BLACK 3 20 Leaf, key_size = 4, data_size = 8, map_count = 2\<rparr>"

lemma map_example_ok:
  "comparator map_cmp_int" "map_ok map_cmp_int map_example" "length (inorder (map_root map_example)) + 1 < 2 ^ 59"
  using int_order.comparator_axioms
  by (simp_all add: map_example_def map_ok_def fits_memory_def ascending_def map_create_node_def map_cmp_int_def map_cmp_of_def)

theorem map_insert_refines_witness:
  "\<exists>obj'. map_insert map_cmp_int True map_example 5 30 = (True, obj') \<and> map_ok map_cmp_int obj' \<and> map_abs obj' 5 = Some 30 \<and>
     map_abs obj' 3 = Some 20 \<and> map_size obj' = 3"
  using map_insert_refines [OF map_example_ok, of True 5 30] by (auto simp: map_example_def map_abs_def map_size_def)

theorem map_erase_refines_witness:
  "\<exists>obj'. map_erase map_cmp_int map_example (map_find map_cmp_int map_example 3) = Some (obj', Leaf) \<and> map_ok map_cmp_int obj' \<and>
     map_abs obj' 3 = None \<and> map_abs obj' (- 1) = Some 10"
  using map_erase_refines [OF map_example_ok(1,2), of 3] by (auto simp: map_example_def map_abs_def)

theorem map_find_lookup_witness:
  "(case map_find map_cmp_int map_example 3 of Leaf \<Rightarrow> False | Node l c k v r \<Rightarrow> k = 3 \<and> v = 20) \<and>
   map_find map_cmp_int map_example 4 = Leaf"
  using map_find_lookup [OF map_example_ok(1,2), of 3] map_find_lookup [OF map_example_ok(1,2), of 4]
  by (auto simp: map_example_def map_abs_def split: rb.splits)

theorem map_iteration_witness:
  "map_walk map_cmp_int map_example 5 (map_first map_example) = [(- 1, 10), (3, 20)] \<and>
   map_prev map_cmp_int map_example (map_find map_cmp_int map_example 3) = map_find map_cmp_int map_example (- 1)"
proof -
  have i: "inorder (map_root map_example) = [(- 1, 10)] @ (3, 20) # []" by (simp add: map_example_def)
  note it = map_iteration [OF map_example_ok(1,2), of 5]
  from it [THEN conjunct1] it [THEN conjunct2, rule_format, OF i] show ?thesis by (simp add: i)
qed

theorem map_depth_bounds_witness:
  "rb_height (map_root map_example) \<le> 118 \<and> rb_insert_unique map_cmp_int 7 (map_root map_example) [] \<noteq> Too_deep \<and>
   rb_remove map_cmp_int 3 (map_root map_example) \<noteq> None"
  using map_depth_bounds [OF map_example_ok(1,2), of 7] map_depth_bounds [OF map_example_ok(1,2), of 3]
  by (simp add: map_example_def map_abs_def)

theorem map_new_layout_witness:
  "\<exists>d t. map_create_node 4 8 = Some (32, d, t) \<and> 36 \<le> unat d \<and> unat t = unat d + 8"
proof -
  have "map_new True 4 8 = Some \<lparr>map_root = (Leaf :: (u32, u64) rb), key_size = 4, data_size = 8, map_count = 0\<rparr>"
    by (simp add: map_new_def)
  from map_new_layout [OF this, of map_cmp_int] show ?thesis by auto
qed

end
