(* ===== verification/RV_Mmu.thy ===== *)
theory RV_Mmu
  imports RV_Mem
begin

text \<open>
  The memory management unit of the SYSTEM build (\<^verbatim>\<open>src/system.c\<close>): the Sv32 page table walk, the
  permission check, the translation lookaside buffers for data and instructions, and the accessors that guest loads, stores
  and fetches go through. What a trap does, the guest's handler included, and the devices behind
  the memory map are arguments (\<open>platform\<close>). A result \<open>None\<close> is undefined behaviour of the C
  code.
\<close>

unbundle bit_operations_syntax

section \<open>Page tables\<close>

abbreviation RV_PG_SHIFT :: nat where "RV_PG_SHIFT \<equiv> 12"
abbreviation RV_PG_SIZE :: nat where "RV_PG_SIZE \<equiv> 4096"

abbreviation PTE_V :: u32 where "PTE_V \<equiv> 1"
abbreviation PTE_R :: u32 where "PTE_R \<equiv> 2"
abbreviation PTE_W :: u32 where "PTE_W \<equiv> 4"
abbreviation PTE_X :: u32 where "PTE_X \<equiv> 8"
abbreviation PTE_U :: u32 where "PTE_U \<equiv> 0x10"
abbreviation PTE_A :: u32 where "PTE_A \<equiv> 0x40"
abbreviation PTE_D :: u32 where "PTE_D \<equiv> 0x80"

abbreviation SSTATUS_SUM :: u32 where "SSTATUS_SUM \<equiv> 0x40000"
abbreviation SSTATUS_MXR :: u32 where "SSTATUS_MXR \<equiv> 0x80000"

record tlb_entry =
  te_vpn :: u32
  te_ppn :: u32
  te_pte_addr :: u32
  te_perm :: u8
  te_valid :: bool
  te_dirty :: bool
  te_level :: nat

abbreviation TLB_MASK :: u32 where "TLB_MASK \<equiv> 63"

text \<open>What the component uses of the hart and of the flags of \<^verbatim>\<open>emulate.c\<close>.\<close>

record mmu =
  mm_satp :: u32
  mm_sstatus :: u32
  mm_sepc :: u32
  mm_last_sepc :: u32
  mm_priv :: u32
  mm_mem :: memory
  dtlb :: "u32 \<Rightarrow> tlb_entry"
  itlb :: "u32 \<Rightarrow> tlb_entry"
  need_retranslate :: bool
  need_handle_signal :: bool

text \<open>The trap with its cause and value, whether the build is the one that runs a kernel with memory mapped devices, and these
  devices.\<close>

record platform =
  pf_trap :: "u32 \<Rightarrow> u32 \<Rightarrow> mmu \<Rightarrow> mmu"
  pf_mmio :: bool
  pf_mmio_read :: "u32 \<Rightarrow> mmu \<Rightarrow> (u32 \<times> mmu) option"
  pf_mmio_write :: "u32 \<Rightarrow> u32 \<Rightarrow> mmu \<Rightarrow> mmu option"

definition tlb_clear :: tlb_entry where
  "tlb_clear = \<lparr>te_vpn = 0, te_ppn = 0, te_pte_addr = 0, te_perm = 0, te_valid = False, te_dirty = False, te_level = 0\<rparr>"

definition mmu_tlb_flush_all :: "mmu \<Rightarrow> mmu" where
  "mmu_tlb_flush_all s = s\<lparr>dtlb := (\<lambda>_. tlb_clear), itlb := (\<lambda>_. tlb_clear)\<rparr>"

definition tlb_flush_page :: "u32 \<Rightarrow> (u32 \<Rightarrow> tlb_entry) \<Rightarrow> u32 \<Rightarrow> tlb_entry" where
  "tlb_flush_page vpn tlb =
     (let idx = vpn AND TLB_MASK in
      if te_valid (tlb idx) \<and> te_vpn (tlb idx) = vpn then tlb(idx := (tlb idx)\<lparr>te_valid := False\<rparr>) else tlb)"

definition mmu_tlb_flush :: "u32 \<Rightarrow> mmu \<Rightarrow> mmu" where
  "mmu_tlb_flush vaddr s =
     (let vpn = drop_bit RV_PG_SHIFT vaddr in
      s\<lparr>dtlb := tlb_flush_page vpn (dtlb s), itlb := tlb_flush_page vpn (itlb s)\<rparr>)"

definition page_offset :: "nat \<Rightarrow> u32 \<Rightarrow> u32" where
  "page_offset level vaddr = (if level = 1 then take_bit (RV_PG_SHIFT + 10) vaddr else take_bit RV_PG_SHIFT vaddr)"

definition pte_base :: "u32 \<Rightarrow> u32" where
  "pte_base pte = push_bit RV_PG_SHIFT (drop_bit (RV_PG_SHIFT - 2) pte)"

text \<open>\<^verbatim>\<open>*pte |= bits\<close>\<close>

definition pte_set :: "u32 \<Rightarrow> u32 \<Rightarrow> mmu \<Rightarrow> mmu option" where
  "pte_set a bits s =
     (case ram_read_w (mm_mem s) a of
        None \<Rightarrow> None
      | Some w \<Rightarrow> map_option (\<lambda>m. s\<lparr>mm_mem := m\<rparr>) (ram_write_w (mm_mem s) a (w OR bits)))"

text \<open>The lookups return the physical address on a hit.\<close>

definition dtlb_lookup :: "u32 \<Rightarrow> bool \<Rightarrow> mmu \<Rightarrow> (u32 option \<times> mmu) option" where
  "dtlb_lookup vaddr is_write s =
     (let vpn = drop_bit RV_PG_SHIFT vaddr;
          idx = vpn AND TLB_MASK;
          entry = dtlb s idx
      in
      if te_valid entry \<and> te_vpn entry = vpn then
        (if te_perm entry AND ucast (if is_write then PTE_W else PTE_R) = 0 then Some (None, s)
         else
           map_option (\<lambda>s. (Some (te_ppn entry OR page_offset (te_level entry) vaddr), s))
             (if is_write \<and> \<not> te_dirty entry then
                map_option (\<lambda>s. s\<lparr>dtlb := (dtlb s)(idx := entry\<lparr>te_dirty := True\<rparr>)\<rparr>)
                  (pte_set (te_pte_addr entry) PTE_D s)
              else Some s))
      else Some (None, s))"

definition itlb_lookup :: "u32 \<Rightarrow> mmu \<Rightarrow> u32 option" where
  "itlb_lookup vaddr s =
     (let vpn = drop_bit RV_PG_SHIFT vaddr;
          idx = vpn AND TLB_MASK;
          entry = itlb s idx
      in
      if te_valid entry \<and> te_vpn entry = vpn then
        (if te_perm entry AND ucast PTE_X = 0 then None
         else Some (te_ppn entry OR page_offset (te_level entry) vaddr))
      else None)"

text \<open>The entry that is written after a walk to the page table entry \<open>pte\<close> at \<open>a\<close>.\<close>

definition tlb_entry_of :: "u32 \<Rightarrow> u32 \<Rightarrow> u32 \<Rightarrow> nat \<Rightarrow> tlb_entry" where
  "tlb_entry_of vaddr a pte level =
     \<lparr>te_vpn = drop_bit RV_PG_SHIFT vaddr, te_ppn = pte_base pte, te_pte_addr = a,
      te_perm = ucast (pte AND (PTE_R OR PTE_W OR PTE_X OR PTE_U)), te_valid = True,
      te_dirty = (pte AND PTE_D \<noteq> 0), te_level = level\<rparr>"

definition dtlb_populate :: "u32 \<Rightarrow> u32 \<Rightarrow> u32 \<Rightarrow> nat \<Rightarrow> mmu \<Rightarrow> mmu" where
  "dtlb_populate vaddr a pte level s =
     s\<lparr>dtlb := (dtlb s)(drop_bit RV_PG_SHIFT vaddr AND TLB_MASK := tlb_entry_of vaddr a pte level)\<rparr>"

definition itlb_populate :: "u32 \<Rightarrow> u32 \<Rightarrow> u32 \<Rightarrow> nat \<Rightarrow> mmu \<Rightarrow> mmu" where
  "itlb_populate vaddr a pte level s =
     s\<lparr>itlb := (itlb s)(drop_bit RV_PG_SHIFT vaddr AND TLB_MASK := tlb_entry_of vaddr a pte level)\<rparr>"

definition ppn_is_valid :: "memory \<Rightarrow> u32 \<Rightarrow> bool" where
  "ppn_is_valid m ppn \<longleftrightarrow> unat ppn < mem_size m div RV_PG_SIZE"

text \<open>One level of the walk: the address of the entry in the table of the page \<open>ppn\<close>, and what it is.\<close>

datatype pte_kind = Next_table u32 | Leaf_page | No_page

definition pte_decode :: "nat \<Rightarrow> u32 \<Rightarrow> pte_kind" where
  "pte_decode level pte =
     (let xwrv = pte AND 0xF; ppn = drop_bit (RV_PG_SHIFT - 2) pte in
      if xwrv = 0b0001 then Next_table ppn
      else if xwrv \<in> {0b0011, 0b0111, 0b1001, 0b1011, 0b1111} then
        (if level = 1 \<and> take_bit 10 ppn \<noteq> 0 then No_page else Leaf_page)
      else No_page)"

definition pte_address :: "nat \<Rightarrow> u32 \<Rightarrow> u32 \<Rightarrow> u32" where
  "pte_address level vaddr ppn =
     push_bit RV_PG_SHIFT ppn + 4 * take_bit 10 (drop_bit ((2 - level) * (RV_PG_SHIFT - 2)) (drop_bit RV_PG_SHIFT vaddr))"

text \<open>The loop of \<^verbatim>\<open>mmu_walk\<close>: the address of the leaf entry and its level; the inner
  \<open>None\<close> is \<^verbatim>\<open>NULL\<close>. After level two the loop ends.\<close>

fun walk_loop :: "memory \<Rightarrow> u32 \<Rightarrow> nat \<Rightarrow> nat \<Rightarrow> u32 \<Rightarrow> (u32 \<times> nat) option option" where
  "walk_loop m vaddr 0 level ppn = Some None"
| "walk_loop m vaddr (Suc n) level ppn =
     (if \<not> ppn_is_valid m ppn then Some None
      else
        (case ram_read_w m (pte_address level vaddr ppn) of
           None \<Rightarrow> None
         | Some pte \<Rightarrow>
             (case pte_decode level pte of
                No_page \<Rightarrow> Some None
              | Leaf_page \<Rightarrow> Some (Some (pte_address level vaddr ppn, level))
              | Next_table ppn' \<Rightarrow> walk_loop m vaddr n (level + 1) ppn')))"

definition mmu_walk :: "mmu \<Rightarrow> u32 \<Rightarrow> (u32 \<times> nat) option option" where
  "mmu_walk s vaddr = walk_loop (mm_mem s) vaddr 2 1 (take_bit 22 (mm_satp s))"

section \<open>The permission check\<close>

abbreviation PAGEFAULT_INSN :: u32 where "PAGEFAULT_INSN \<equiv> 12"
abbreviation PAGEFAULT_LOAD :: u32 where "PAGEFAULT_LOAD \<equiv> 13"
abbreviation PAGEFAULT_STORE :: u32 where "PAGEFAULT_STORE \<equiv> 15"

definition fault_cause :: "u32 \<Rightarrow> u32" where
  "fault_cause access_bits =
     (if access_bits = PTE_R then PAGEFAULT_LOAD else if access_bits = PTE_W then PAGEFAULT_STORE else PAGEFAULT_INSN)"

text \<open>The conditions of \<^verbatim>\<open>MMU_FAULT_CHECK_IMPL\<close> that trap, in their order; the entry is \<open>None\<close> if the walk found none.\<close>

definition pte_faults :: "u32 \<Rightarrow> u32 \<Rightarrow> u32 option \<Rightarrow> u32 \<Rightarrow> bool" where
  "pte_faults sstatus priv pte access_bits =
     (case pte of
        None \<Rightarrow> True
      | Some pte \<Rightarrow>
          if pte AND PTE_V = 0 then True
          else if pte AND access_bits = 0 then True
          else if SSTATUS_MXR AND sstatus = 0 \<and> pte AND PTE_R = 0 \<and> access_bits = PTE_R \<or>
             SSTATUS_MXR AND sstatus \<noteq> 0 \<and> (pte AND PTE_R) OR (pte AND PTE_X) = 0 \<and> access_bits = PTE_R then True
          else if priv = 1 \<and> SSTATUS_SUM AND sstatus = 0 \<and> pte AND PTE_U \<noteq> 0 then True
          else False)"

definition mmu_fault_check :: "platform \<Rightarrow> u32 option \<Rightarrow> u32 \<Rightarrow> u32 \<Rightarrow> mmu \<Rightarrow> bool \<times> mmu" where
  "mmu_fault_check pf pte vaddr access_bits s =
     (if pte_faults (mm_sstatus s) (mm_priv s) pte access_bits
      then (False, pf_trap pf (fault_cause access_bits) vaddr s)
      else (True, s))"

text \<open>A walk together with the check of what it found: the entry, its address and level if the access is
  permitted. The second walk of a fetch does not check, and so does not trap, when it finds no entry.\<close>

definition walk_check :: "platform \<Rightarrow> bool \<Rightarrow> u32 \<Rightarrow> u32 \<Rightarrow> mmu \<Rightarrow> ((u32 \<times> u32 \<times> nat) option \<times> mmu) option" where
  "walk_check pf check_null vaddr access_bits s =
     (case mmu_walk s vaddr of
        None \<Rightarrow> None
      | Some None \<Rightarrow> Some (None, if check_null then snd (mmu_fault_check pf None vaddr access_bits s) else s)
      | Some (Some (a, level)) \<Rightarrow>
          (case ram_read_w (mm_mem s) a of
             None \<Rightarrow> None
           | Some pte \<Rightarrow>
               (case mmu_fault_check pf (Some pte) vaddr access_bits s of
                  (True, s') \<Rightarrow> Some (Some (a, pte, level), s')
                | (False, s') \<Rightarrow> Some (None, s'))))"

definition pending_signal :: "mmu \<Rightarrow> bool" where
  "pending_signal s \<longleftrightarrow> mm_sepc s \<noteq> mm_last_sepc s"

text \<open>A second walk after the trap handler has run, unless a signal is pending; the first component of the result is
  \<open>None\<close> when the access is given up.\<close>

definition walk_retry :: "platform \<Rightarrow> u32 \<Rightarrow> u32 \<Rightarrow> mmu \<Rightarrow> ((u32 \<times> u32 \<times> nat) option \<times> mmu) option" where
  "walk_retry pf vaddr access_bits s =
     (case walk_check pf True vaddr access_bits s of
        None \<Rightarrow> None
      | Some (Some e, s) \<Rightarrow> Some (Some e, s)
      | Some (None, s) \<Rightarrow>
          (let s = (if pf_mmio pf then s\<lparr>need_handle_signal := pending_signal s\<rparr> else s) in
           if pf_mmio pf \<and> need_handle_signal s then Some (None, s)
           else
             (case walk_check pf (access_bits \<noteq> PTE_X) vaddr access_bits s of
                None \<Rightarrow> None
              | Some (Some e, s) \<Rightarrow> Some (Some e, s)
              | Some (None, s) \<Rightarrow>
                  Some (None, s\<lparr>need_retranslate := (need_retranslate s \<or> access_bits = PTE_X \<or> \<not> pf_mmio pf),
                               need_handle_signal := True\<rparr>))))"

section \<open>Translation and the accessors\<close>

definition mmu_translate :: "platform \<Rightarrow> u32 \<Rightarrow> bool \<Rightarrow> mmu \<Rightarrow> (u32 \<times> mmu) option" where
  "mmu_translate pf vaddr rw s =
     (if mm_satp s = 0 then Some (vaddr, s)
      else
        (case dtlb_lookup vaddr (\<not> rw) s of
           None \<Rightarrow> None
         | Some (Some paddr, s) \<Rightarrow> Some (paddr, s)
         | Some (None, s) \<Rightarrow>
             (case walk_retry pf vaddr (if rw then PTE_R else PTE_W) s of
                None \<Rightarrow> None
              | Some (None, s) \<Rightarrow> Some (0, s)
              | Some (Some (a, pte, level), s) \<Rightarrow>
                  (let bits = PTE_A OR (if rw then 0 else PTE_D) in
                   map_option (\<lambda>s. (pte_base (pte OR bits) OR page_offset level vaddr, dtlb_populate vaddr a (pte OR bits) level s))
                     (pte_set a bits s)))))"

definition mmu_ifetch :: "platform \<Rightarrow> u32 \<Rightarrow> mmu \<Rightarrow> (u32 \<times> mmu) option" where
  "mmu_ifetch pf vaddr s =
     (if mm_satp s = 0 then map_option (\<lambda>w. (w, s)) (memory_ifetch (mm_mem s) vaddr)
      else if need_retranslate s then Some (0, s)
      else
        (case itlb_lookup vaddr s of
           Some paddr \<Rightarrow> map_option (\<lambda>w. (w, s)) (memory_ifetch (mm_mem s) paddr)
         | None \<Rightarrow>
             (case walk_retry pf vaddr PTE_X s of
                None \<Rightarrow> None
              | Some (None, s) \<Rightarrow> Some (0, s)
              | Some (Some (a, pte, level), s) \<Rightarrow>
                  (case pte_set a PTE_A s of
                     None \<Rightarrow> None
                   | Some s \<Rightarrow>
                       map_option (\<lambda>w. (w, itlb_populate vaddr a (pte OR PTE_A) level s))
                         (memory_ifetch (mm_mem s) (pte_base (pte OR PTE_A) OR page_offset level vaddr))))))"

text \<open>The flag that makes an accessor give up after a failed translation.\<close>

definition access_stopped :: "platform \<Rightarrow> mmu \<Rightarrow> bool" where
  "access_stopped pf s \<longleftrightarrow> (if pf_mmio pf then need_handle_signal s else need_retranslate s)"

definition mmu_read :: "platform \<Rightarrow> (memory \<Rightarrow> u32 \<Rightarrow> u32 option) \<Rightarrow> nat \<Rightarrow> u32 \<Rightarrow> mmu \<Rightarrow> (u32 \<times> mmu) option" where
  "mmu_read pf rd width vaddr s =
     (case mmu_translate pf vaddr True s of
        None \<Rightarrow> None
      | Some (addr, s) \<Rightarrow>
          if access_stopped pf s then Some (0, s)
          else if guest_ram_contains (mm_mem s) addr width then map_option (\<lambda>v. (v, s)) (rd (mm_mem s) addr)
          else if pf_mmio pf then pf_mmio_read pf addr s
          else None)"

definition mmu_read_w :: "platform \<Rightarrow> u32 \<Rightarrow> mmu \<Rightarrow> (u32 \<times> mmu) option" where
  "mmu_read_w pf = mmu_read pf ram_read_w 4"

definition mmu_read_s :: "platform \<Rightarrow> u32 \<Rightarrow> mmu \<Rightarrow> (u32 \<times> mmu) option" where
  "mmu_read_s pf = mmu_read pf (\<lambda>m a. map_option ucast (memory_read_s m a)) 2"

definition mmu_read_b :: "platform \<Rightarrow> u32 \<Rightarrow> mmu \<Rightarrow> (u32 \<times> mmu) option" where
  "mmu_read_b pf = mmu_read pf (\<lambda>m a. map_option ucast (memory_read_b m a)) 1"

definition mmu_write :: "platform \<Rightarrow> (memory \<Rightarrow> u32 \<Rightarrow> u32 \<Rightarrow> memory option) \<Rightarrow> nat \<Rightarrow> u32 \<Rightarrow> u32 \<Rightarrow> mmu \<Rightarrow> mmu option" where
  "mmu_write pf wr width vaddr val s =
     (case mmu_translate pf vaddr False s of
        None \<Rightarrow> None
      | Some (addr, s) \<Rightarrow>
          if access_stopped pf s then Some s
          else if guest_ram_contains (mm_mem s) addr width
          then map_option (\<lambda>m. s\<lparr>mm_mem := m\<rparr>) (wr (mm_mem s) addr val)
          else if pf_mmio pf then pf_mmio_write pf addr val s
          else None)"

definition mmu_write_w :: "platform \<Rightarrow> u32 \<Rightarrow> u32 \<Rightarrow> mmu \<Rightarrow> mmu option" where
  "mmu_write_w pf = mmu_write pf ram_write_w 4"

definition mmu_write_s :: "platform \<Rightarrow> u32 \<Rightarrow> u32 \<Rightarrow> mmu \<Rightarrow> mmu option" where
  "mmu_write_s pf = mmu_write pf (\<lambda>m a v. memory_write_s m a (ucast v)) 2"

definition mmu_write_b :: "platform \<Rightarrow> u32 \<Rightarrow> u32 \<Rightarrow> mmu \<Rightarrow> mmu option" where
  "mmu_write_b pf = mmu_write pf (\<lambda>m a v. memory_write_b m a (ucast v)) 1"

section \<open>The walk stays inside the RAM\<close>

text \<open>The accessed and dirty bits do not matter to the walk.\<close>

definition ad_bits :: "u32 \<Rightarrow> bool" where
  "ad_bits b \<longleftrightarrow> b \<in> {0, PTE_A, PTE_D, PTE_A OR PTE_D}"

lemma or_ad:
  assumes "ad_bits b"
  shows "(w OR b) AND 0xF = w AND 0xF" "drop_bit 10 (w OR b) = drop_bit 10 w" "pte_base (w OR b) = pte_base w"
    "(w OR b) AND 0x1E = w AND 0x1E"
  using assms by (auto simp: ad_bits_def drop_bit_or pte_base_def bit.conj_disj_distrib2)

lemma pte_decode_ad: "ad_bits b \<Longrightarrow> pte_decode level (w OR b) = pte_decode level w"
  using or_ad(2) [of b w] by (simp add: pte_decode_def or_ad(1) del: drop_bit_or)

lemma unat_take_10: "unat (take_bit 10 (x :: u32)) < 1024"
  by (simp add: unsigned_take_bit_eq take_bit_nat_less_exp [of 10, simplified])

lemma page_unat:
  assumes "unat (ppn :: u32) * 4096 < 2 ^ 32"
  shows "unat (push_bit RV_PG_SHIFT ppn) = unat ppn * 4096"
proof -
  have "unat ppn * unat (4096 :: u32) < 2 ^ LENGTH(32)" using assms by simp
  then have "unat (ppn * 4096) = unat ppn * unat (4096 :: u32)" by (simp only: unat_mult_lem)
  then show ?thesis by (simp add: push_bit_eq_mult)
qed

lemma index_unat:
  assumes "unat (x :: u32) < 1024"
  shows "unat (4 * x) = 4 * unat x"
proof -
  have "unat (4 :: u32) * unat x < 2 ^ LENGTH(32)" using assms by simp
  then have "unat (4 * x) = unat (4 :: u32) * unat x" by (simp only: unat_mult_lem)
  then show ?thesis by simp
qed

lemma pte_address_unat:
  assumes "ppn_is_valid m ppn" "mem_size m \<le> 2 ^ 32"
  shows "4 dvd unat (pte_address level vaddr ppn)" "unat (pte_address level vaddr ppn) + 4 \<le> mem_size m"
proof -
  define x :: u32 where "x = take_bit 10 (drop_bit ((2 - level) * (RV_PG_SHIFT - 2)) (drop_bit RV_PG_SHIFT vaddr))"
  have x: "unat x < 1024" unfolding x_def by (rule unat_take_10)
  from assms(1) have "Suc (unat ppn) * 4096 \<le> mem_size m"
    unfolding ppn_is_valid_def by (simp only: less_eq_div_iff_mult_less_eq Suc_le_eq [symmetric])
  then have p: "unat ppn * 4096 + 4096 \<le> mem_size m" by simp
  then have "unat (push_bit RV_PG_SHIFT ppn + 4 * x) = unat ppn * 4096 + 4 * unat x"
    using x assms(2) by (simp add: unat_word_ariths page_unat index_unat)
  then have a: "unat (pte_address level vaddr ppn) = 4 * (unat ppn * 1024 + unat x)"
    unfolding pte_address_def x_def by simp
  then show "4 dvd unat (pte_address level vaddr ppn)" by (simp only: dvd_triv_left)
  show "unat (pte_address level vaddr ppn) + 4 \<le> mem_size m" using a p x by simp
qed

text \<open>The result of a walk is always defined; an entry that is found is aligned, lies in the RAM and is a leaf.\<close>

lemma walk_loop_result:
  assumes "mem_size m \<le> 2 ^ 32"
  shows "\<exists>r. walk_loop m vaddr n level ppn = Some r \<and> (\<forall>a l. r = Some (a, l) \<longrightarrow>
    4 dvd unat a \<and> unat a + 4 \<le> mem_size m \<and> (\<exists>pte. ram_read_w m a = Some pte \<and> pte_decode l pte = Leaf_page))"
proof (induction n arbitrary: level ppn)
  case (Suc n)
  show ?case
  proof (cases "ppn_is_valid m ppn")
    case True
    let ?a = "pte_address level vaddr ppn"
    obtain pte where "ram_read_w m ?a = Some pte"
      using word_ram.rd_defined [of m ?a] pte_address_unat(2) [OF True assms, of level vaddr] by (cases "ram_read_w m ?a") auto
    then show ?thesis
      using Suc.IH pte_address_unat [OF True assms] True by (auto split: pte_kind.split)
  qed simp
qed simp

lemma walk_loop_cong:
  assumes "mem_size m' = mem_size m" "mem_size m \<le> 2 ^ 32"
    and "\<And>a. 4 dvd unat a \<Longrightarrow> unat a + 4 \<le> mem_size m \<Longrightarrow>
      \<exists>w b. ram_read_w m a = Some w \<and> ram_read_w m' a = Some (w OR b) \<and> ad_bits b"
  shows "walk_loop m' vaddr n level ppn = walk_loop m vaddr n level ppn"
proof (induction n arbitrary: level ppn)
  case (Suc n)
  show ?case
  proof (cases "ppn_is_valid m ppn")
    case True
    let ?a = "pte_address level vaddr ppn"
    from assms(3) pte_address_unat [OF True assms(2)] obtain w b
      where "ram_read_w m ?a = Some w" "ram_read_w m' ?a = Some (w OR b)" "ad_bits b" by blast
    with True Suc.IH assms(1) show ?thesis by (simp add: pte_decode_ad ppn_is_valid_def split: pte_kind.split)
  qed (use assms(1) in \<open>simp add: ppn_is_valid_def\<close>)
qed simp

section \<open>The translation lookaside buffers agree with the page tables\<close>

text \<open>A valid entry caches what a walk of the current page tables finds for its page.\<close>

definition tlb_entry_ok :: "mmu \<Rightarrow> tlb_entry \<Rightarrow> bool" where
  "tlb_entry_ok s e \<longleftrightarrow> (\<forall>vaddr. drop_bit RV_PG_SHIFT vaddr = te_vpn e \<longrightarrow>
     mmu_walk s vaddr = Some (Some (te_pte_addr e, te_level e)) \<and>
     (\<exists>pte. ram_read_w (mm_mem s) (te_pte_addr e) = Some pte \<and> te_ppn e = pte_base pte \<and>
        te_perm e = ucast (pte AND 0x1E) \<and> (te_dirty e \<longrightarrow> pte AND PTE_D \<noteq> 0)))"

definition tlb_ok :: "mmu \<Rightarrow> bool" where
  "tlb_ok s \<longleftrightarrow> mem_size (mm_mem s) \<le> 2 ^ 32 \<and> (\<forall>i. te_valid (dtlb s i) \<longrightarrow> tlb_entry_ok s (dtlb s i)) \<and>
     (\<forall>i. te_valid (itlb s i) \<longrightarrow> tlb_entry_ok s (itlb s i))"

text \<open>The page tables of \<open>s'\<close> are those of \<open>s\<close> with more accessed and dirty bits.\<close>

definition ad_ext :: "mmu \<Rightarrow> mmu \<Rightarrow> bool" where
  "ad_ext s s' \<longleftrightarrow> mm_satp s' = mm_satp s \<and> mem_size (mm_mem s') = mem_size (mm_mem s) \<and>
     (\<forall>a. 4 dvd unat a \<longrightarrow> unat a + 4 \<le> mem_size (mm_mem s) \<longrightarrow>
        (\<exists>w b. ram_read_w (mm_mem s) a = Some w \<and> ram_read_w (mm_mem s') a = Some (w OR b) \<and> ad_bits b))"

lemma ad_ext_walk: "ad_ext s s' \<Longrightarrow> mem_size (mm_mem s) \<le> 2 ^ 32 \<Longrightarrow> mmu_walk s' vaddr = mmu_walk s vaddr"
  unfolding mmu_walk_def ad_ext_def by (simp add: walk_loop_cong [of "mm_mem s'" "mm_mem s"])

lemma walk_leaf:
  assumes "mem_size (mm_mem s) \<le> 2 ^ 32" "mmu_walk s vaddr = Some (Some (a, l))"
  shows "4 dvd unat a" "unat a + 4 \<le> mem_size (mm_mem s)" "\<exists>pte. ram_read_w (mm_mem s) a = Some pte"
  using walk_loop_result [OF assms(1), of vaddr 2 1 "take_bit 22 (mm_satp s)"] assms(2) unfolding mmu_walk_def by auto

lemma or_D: "ad_bits b \<Longrightarrow> w AND PTE_D \<noteq> 0 \<Longrightarrow> (w OR b) AND PTE_D \<noteq> 0"
  by (simp add: bit.conj_disj_distrib2 or_eq_0_iff)

lemma tlb_entry_ext:
  assumes "ad_ext s s'" "mem_size (mm_mem s) \<le> 2 ^ 32" "tlb_entry_ok s e"
  shows "tlb_entry_ok s' e"
  unfolding tlb_entry_ok_def
proof (intro allI impI)
  fix vaddr assume v: "drop_bit RV_PG_SHIFT vaddr = te_vpn e"
  with assms(3) obtain pte where e: "mmu_walk s vaddr = Some (Some (te_pte_addr e, te_level e))"
    "ram_read_w (mm_mem s) (te_pte_addr e) = Some pte" "te_ppn e = pte_base pte" "te_perm e = ucast (pte AND 0x1E)"
    "te_dirty e \<longrightarrow> pte AND PTE_D \<noteq> 0" unfolding tlb_entry_ok_def by blast
  from walk_leaf [OF assms(2) e(1)] assms(1) e(2) obtain b where
    b: "ram_read_w (mm_mem s') (te_pte_addr e) = Some (pte OR b)" "ad_bits b" unfolding ad_ext_def by force
  have "te_ppn e = pte_base (pte OR b)" "te_perm e = ucast ((pte OR b) AND 0x1E)"
    "te_dirty e \<longrightarrow> (pte OR b) AND PTE_D \<noteq> 0"
    using e(3-5) or_ad(3,4) [OF b(2)] or_D [OF b(2)] by (simp_all only:) blast
  with ad_ext_walk [OF assms(1,2)] e(1) b(1) show "mmu_walk s' vaddr = Some (Some (te_pte_addr e, te_level e)) \<and>
     (\<exists>pte. ram_read_w (mm_mem s') (te_pte_addr e) = Some pte \<and> te_ppn e = pte_base pte \<and>
        te_perm e = ucast (pte AND 0x1E) \<and> (te_dirty e \<longrightarrow> pte AND PTE_D \<noteq> 0))" by simp
qed

lemma tlb_ok_ext:
  assumes "tlb_ok s" "ad_ext s s'"
    and "\<And>i. te_valid (dtlb s' i) \<Longrightarrow> dtlb s' i = dtlb s i \<or> tlb_entry_ok s' (dtlb s' i)"
    and "\<And>i. te_valid (itlb s' i) \<Longrightarrow> itlb s' i = itlb s i \<or> tlb_entry_ok s' (itlb s' i)"
  shows "tlb_ok s'"
proof -
  have m: "mem_size (mm_mem s) \<le> 2 ^ 32" "mem_size (mm_mem s') = mem_size (mm_mem s)"
    using assms(1,2) by (simp_all add: tlb_ok_def ad_ext_def)
  have "tlb_entry_ok s' (dtlb s' i)" if "te_valid (dtlb s' i)" for i
    using assms(1) assms(3) [OF that] that tlb_entry_ext [OF assms(2) m(1)] unfolding tlb_ok_def by metis
  moreover have "tlb_entry_ok s' (itlb s' i)" if "te_valid (itlb s' i)" for i
    using assms(1) assms(4) [OF that] that tlb_entry_ext [OF assms(2) m(1)] unfolding tlb_ok_def by metis
  ultimately show ?thesis using m unfolding tlb_ok_def by simp
qed

lemma pte_set_ext:
  assumes "4 dvd unat a" "unat a + 4 \<le> mem_size (mm_mem s)" "ad_bits b" "ram_read_w (mm_mem s) a = Some w"
  shows "\<exists>s'. pte_set a b s = Some s' \<and> ad_ext s s' \<and> ram_read_w (mm_mem s') a = Some (w OR b) \<and>
    s' = s\<lparr>mm_mem := mm_mem s'\<rparr>"
proof -
  obtain m where m: "ram_write_w (mm_mem s) a (w OR b) = Some m"
    using word_ram.wr_defined [of "mm_mem s" a "w OR b"] assms(2) by (cases "ram_write_w (mm_mem s) a (w OR b)") auto
  have "\<exists>w b. ram_read_w (mm_mem s) c = Some w \<and> ram_read_w m c = Some (w OR b) \<and> ad_bits b"
    if c: "4 dvd unat c" "unat c + 4 \<le> mem_size (mm_mem s)" for c
  proof (cases "c = a")
    case True
    with word_ram.rd_wr_same [OF m] assms(3,4) show ?thesis by auto
  next
    case False
    then have "unat c \<noteq> unat a" by (simp add: word_unat_eq_iff)
    then have "unat a + 4 \<le> unat c \<or> unat c + 4 \<le> unat a" using c(1) assms(1) by (elim dvdE) presburger
    with word_ram.rd_wr_other [OF m] have "ram_read_w m c = ram_read_w (mm_mem s) c" by blast
    moreover obtain v where "ram_read_w (mm_mem s) c = Some v"
      using word_ram.rd_defined [of "mm_mem s" c] c(2) by (cases "ram_read_w (mm_mem s) c") auto
    ultimately show ?thesis by (auto simp: ad_bits_def intro: exI [of _ 0])
  qed
  then have "ad_ext s (s\<lparr>mm_mem := m\<rparr>)" using word_ram.wr_size [OF m] by (simp add: ad_ext_def)
  then show ?thesis using m assms(4) word_ram.rd_wr_same [OF m] by (simp add: pte_set_def)
qed

lemma ad_bits_simps [simp]: "ad_bits 0" "ad_bits PTE_A" "ad_bits PTE_D" "ad_bits (PTE_A OR PTE_D)"
  unfolding ad_bits_def by blast+

lemma ad_ext_refl: "ad_ext s s"
proof -
  have "\<exists>w. ram_read_w (mm_mem s) a = Some w" if "unat a + 4 \<le> mem_size (mm_mem s)" for a
    using word_ram.rd_defined [of "mm_mem s" a] that by (cases "ram_read_w (mm_mem s) a") auto
  then have "\<exists>w b. ram_read_w (mm_mem s) a = Some w \<and> ram_read_w (mm_mem s) a = Some (w OR b) \<and> ad_bits b"
    if "unat a + 4 \<le> mem_size (mm_mem s)" for a
    using that by (intro exI [of _ "the (ram_read_w (mm_mem s) a)"] exI [of _ 0]) fastforce
  then show ?thesis unfolding ad_ext_def by blast
qed

text \<open>What a translation of \<open>vaddr\<close> for an access has found, in the page tables of \<open>s\<close>.\<close>

definition maps_to :: "mmu \<Rightarrow> u32 \<Rightarrow> u32 \<Rightarrow> u32 \<Rightarrow> bool" where
  "maps_to s access_bits vaddr paddr \<longleftrightarrow> (\<exists>a level pte. mmu_walk s vaddr = Some (Some (a, level)) \<and>
     ram_read_w (mm_mem s) a = Some pte \<and> pte AND access_bits \<noteq> 0 \<and> paddr = pte_base pte OR page_offset level vaddr)"

lemma perm_bits:
  assumes "x \<in> {PTE_R, PTE_W, PTE_X}"
  shows "(ucast (pte AND 0x1E) :: u8) AND ucast x = 0 \<longleftrightarrow> pte AND x = (0 :: u32)"
proof -
  have "x = 2 ^ 1 \<or> x = 2 ^ 2 \<or> x = 2 ^ 3" using assms by simp
  then obtain i where "i \<in> {1, 2, 3 :: nat}" "x = 2 ^ i" by blast
  then have i: "x = 2 ^ i" "ucast x = (2 ^ i :: u8)" "bit (0x1E :: u32) i" "i < 8" by auto
  show ?thesis unfolding i(2) unfolding i(1) and_exp_eq_0_iff_not_bit using i(3,4) by (simp add: bit_simps)
qed

lemma dtlb_hit:
  assumes "tlb_ok s" "drop_bit RV_PG_SHIFT vaddr = te_vpn (dtlb s i)" "te_valid (dtlb s i)"
    and "te_perm (dtlb s i) AND ucast x \<noteq> 0" "x \<in> {PTE_R, PTE_W, PTE_X}"
  shows "maps_to s x vaddr (te_ppn (dtlb s i) OR page_offset (te_level (dtlb s i)) vaddr)"
proof -
  from assms(1-3) obtain pte where "mmu_walk s vaddr = Some (Some (te_pte_addr (dtlb s i), te_level (dtlb s i)))"
    "ram_read_w (mm_mem s) (te_pte_addr (dtlb s i)) = Some pte" "te_ppn (dtlb s i) = pte_base pte"
    "te_perm (dtlb s i) = ucast (pte AND 0x1E)" unfolding tlb_ok_def tlb_entry_ok_def by blast
  with assms(4) perm_bits [OF assms(5)] show ?thesis unfolding maps_to_def by auto
qed

lemma walk_vpn: "drop_bit RV_PG_SHIFT v = drop_bit RV_PG_SHIFT v' \<Longrightarrow> mmu_walk s v = mmu_walk s v'"
proof -
  assume v: "drop_bit RV_PG_SHIFT v = drop_bit RV_PG_SHIFT v'"
  then have "pte_address level v ppn = pte_address level v' ppn" for level ppn unfolding pte_address_def by simp
  then have "walk_loop m v n level ppn = walk_loop m v' n level ppn" for m n level ppn
    by (induction n arbitrary: level ppn) (simp_all split: option.split pte_kind.split)
  then show ?thesis unfolding mmu_walk_def by simp
qed

lemma tlb_fields [simp]:
  "tlb_entry_ok (s\<lparr>dtlb := d\<rparr>) e = tlb_entry_ok s e" "tlb_entry_ok (s\<lparr>itlb := d\<rparr>) e = tlb_entry_ok s e"
  "maps_to (s\<lparr>dtlb := d\<rparr>) x v p = maps_to s x v p" "maps_to (s\<lparr>itlb := d\<rparr>) x v p = maps_to s x v p"
  "ad_ext s' (s\<lparr>dtlb := d\<rparr>) = ad_ext s' s" "ad_ext s' (s\<lparr>itlb := d\<rparr>) = ad_ext s' s"
  by (simp_all add: tlb_entry_ok_def maps_to_def ad_ext_def mmu_walk_def)

text \<open>Setting accessed or dirty bits in the entry that a walk has found, and caching it.\<close>

lemma tlb_update:
  assumes ok: "tlb_ok s" and w: "mmu_walk s vaddr = Some (Some (a, l))" "ram_read_w (mm_mem s) a = Some pte" and b: "ad_bits b"
  shows "\<exists>s1. pte_set a b s = Some s1 \<and> dtlb s1 = dtlb s \<and> itlb s1 = itlb s \<and>
    (\<forall>e i. te_vpn e = drop_bit RV_PG_SHIFT vaddr \<and> te_pte_addr e = a \<and> te_level e = l \<and> te_ppn e = pte_base pte \<and>
       te_perm e = ucast (pte AND 0x1E) \<and> (te_dirty e \<longrightarrow> (pte OR b) AND PTE_D \<noteq> 0) \<longrightarrow>
       tlb_ok (s1\<lparr>dtlb := (dtlb s1)(i := e)\<rparr>) \<and> tlb_ok (s1\<lparr>itlb := (itlb s1)(i := e)\<rparr>)) \<and>
    (\<forall>x. pte AND x \<noteq> 0 \<longrightarrow> maps_to s1 x vaddr (pte_base pte OR page_offset l vaddr))"
proof -
  have size: "mem_size (mm_mem s) \<le> 2 ^ 32" using ok by (simp add: tlb_ok_def)
  from pte_set_ext [OF walk_leaf(1,2) [OF size w(1)] b w(2)] obtain s1 where s1: "pte_set a b s = Some s1"
    "ad_ext s s1" "ram_read_w (mm_mem s1) a = Some (pte OR b)" "s1 = s\<lparr>mm_mem := mm_mem s1\<rparr>" by blast
  have tlbs: "dtlb s1 = dtlb s" "itlb s1 = itlb s" using arg_cong [OF s1(4), of dtlb] arg_cong [OF s1(4), of itlb] by simp_all
  have w1: "mmu_walk s1 vaddr = Some (Some (a, l))" using ad_ext_walk [OF s1(2) size] w(1) by simp
  have new: "tlb_entry_ok s1 e" if "te_vpn e = drop_bit RV_PG_SHIFT vaddr" "te_pte_addr e = a" "te_level e = l"
    "te_ppn e = pte_base pte" "te_perm e = ucast (pte AND 0x1E)" "te_dirty e \<longrightarrow> (pte OR b) AND PTE_D \<noteq> 0" for e
    unfolding tlb_entry_ok_def
  proof (intro allI impI conjI exI)
    fix v assume "drop_bit RV_PG_SHIFT v = te_vpn e"
    with that(1) have "mmu_walk s1 v = mmu_walk s1 vaddr" by (intro walk_vpn) simp
    with w1 that(2,3) show "mmu_walk s1 v = Some (Some (te_pte_addr e, te_level e))" by simp
    show "ram_read_w (mm_mem s1) (te_pte_addr e) = Some (pte OR b)" using s1(3) that(2) by (simp only:)
    show "te_ppn e = pte_base (pte OR b)" using that(4) or_ad(3) [OF b, of pte] by (simp only:)
    show "te_perm e = ucast ((pte OR b) AND 0x1E)" using that(5) or_ad(4) [OF b, of pte] by (simp only:)
    show "te_dirty e \<Longrightarrow> (pte OR b) AND PTE_D \<noteq> 0" using that(6) by blast
  qed
  have "tlb_ok (s1\<lparr>dtlb := (dtlb s1)(i := e)\<rparr>) \<and> tlb_ok (s1\<lparr>itlb := (itlb s1)(i := e)\<rparr>)" if "tlb_entry_ok s1 e" for e i
    using that s1(2) tlbs by (intro conjI tlb_ok_ext [OF ok]) auto
  moreover have "maps_to s1 x vaddr (pte_base pte OR page_offset l vaddr)" if "pte AND x \<noteq> 0" for x
    using w1 s1(3) that or_ad(3) [OF b, of pte] unfolding maps_to_def
    by (intro exI [of _ a] exI [of _ l] exI [of _ "pte OR b"]) (simp add: bit.conj_disj_distrib2 or_eq_0_iff)
  ultimately show ?thesis using s1(1) tlbs new by blast
qed

lemma dtlb_lookup_ok:
  assumes ok: "tlb_ok s"
  shows "\<exists>r s'. dtlb_lookup vaddr is_write s = Some (r, s') \<and> tlb_ok s' \<and>
    (\<forall>paddr. r = Some paddr \<longrightarrow> maps_to s' (if is_write then PTE_W else PTE_R) vaddr paddr)"
proof -
  define i where "i = drop_bit RV_PG_SHIFT vaddr AND TLB_MASK"
  define e where "e = dtlb s i"
  let ?x = "if is_write then PTE_W else PTE_R"
  note lookup = dtlb_lookup_def [of vaddr is_write s, unfolded Let_def, folded i_def, folded e_def]
  show ?thesis
  proof (cases "te_valid e \<and> te_vpn e = drop_bit RV_PG_SHIFT vaddr \<and> te_perm e AND ucast ?x \<noteq> 0")
    case True
    show ?thesis
    proof (cases "is_write \<and> \<not> te_dirty e")
      case False
      have "maps_to s ?x vaddr (te_ppn e OR page_offset (te_level e) vaddr)"
        using True by (intro dtlb_hit [OF ok, of vaddr i ?x, folded e_def]) auto
      with True False ok show ?thesis unfolding lookup by auto
    next
      case dirty: True
      have "tlb_entry_ok s e" using ok True unfolding tlb_ok_def e_def by blast
      with True obtain pte where w: "mmu_walk s vaddr = Some (Some (te_pte_addr e, te_level e))"
        "ram_read_w (mm_mem s) (te_pte_addr e) = Some pte" "te_ppn e = pte_base pte" "te_perm e = ucast (pte AND 0x1E)"
        unfolding tlb_entry_ok_def by (metis (no_types))
      obtain s1 where s1: "pte_set (te_pte_addr e) PTE_D s = Some s1"
        "\<And>e' i. te_vpn e' = drop_bit RV_PG_SHIFT vaddr \<and> te_pte_addr e' = te_pte_addr e \<and> te_level e' = te_level e \<and>
          te_ppn e' = pte_base pte \<and> te_perm e' = ucast (pte AND 0x1E) \<and> (te_dirty e' \<longrightarrow> (pte OR PTE_D) AND PTE_D \<noteq> 0) \<Longrightarrow>
          tlb_ok (s1\<lparr>dtlb := (dtlb s1)(i := e')\<rparr>)"
        "\<And>x. pte AND x \<noteq> 0 \<Longrightarrow> maps_to s1 x vaddr (pte_base pte OR page_offset (te_level e) vaddr)"
        using tlb_update [OF ok w(1,2), of PTE_D] by (auto simp del: fun_upd_apply)
      let ?s' = "s1\<lparr>dtlb := (dtlb s1)(i := e\<lparr>te_dirty := True\<rparr>)\<rparr>"
      have "tlb_ok ?s'" by (rule s1(2)) (use True w(3,4) in \<open>simp add: bit.conj_disj_distrib2\<close>)
      moreover have "dtlb_lookup vaddr is_write s = Some (Some (te_ppn e OR page_offset (te_level e) vaddr), ?s')"
        using True dirty s1(1) unfolding lookup by simp
      moreover have "pte AND PTE_W \<noteq> 0" using True dirty w(4) perm_bits [of PTE_W pte] by simp
      ultimately show ?thesis using s1(3) [of PTE_W] dirty w(3) by auto
    qed
  next
    case False
    then have "dtlb_lookup vaddr is_write s = Some (None, s)" unfolding lookup by auto
    with ok show ?thesis by blast
  qed
qed

section \<open>Translation is what the page tables say\<close>

text \<open>A trap handler leaves the buffers in agreement with the page tables, as one does that flushes
  what it changes.\<close>

definition handler_ok :: "platform \<Rightarrow> bool" where
  "handler_ok pf \<longleftrightarrow> (\<forall>cause vaddr s. tlb_ok s \<longrightarrow> tlb_ok (pf_trap pf cause vaddr s))"

lemma tlb_ok_flags [simp]:
  "tlb_ok (s\<lparr>need_handle_signal := x\<rparr>) = tlb_ok s" "tlb_ok (s\<lparr>need_retranslate := y\<rparr>) = tlb_ok s"
  by (simp_all add: tlb_ok_def tlb_entry_ok_def mmu_walk_def)

lemma pte_permits: "\<not> pte_faults sstatus priv (Some pte) x \<Longrightarrow> pte AND x \<noteq> 0"
  by (simp add: pte_faults_def split: if_splits)

lemma walk_check_ok:
  assumes "handler_ok pf" "tlb_ok s"
  shows "\<exists>r s'. walk_check pf b vaddr x s = Some (r, s') \<and> tlb_ok s' \<and>
    (\<forall>a pte l. r = Some (a, pte, l) \<longrightarrow> s' = s \<and> mmu_walk s vaddr = Some (Some (a, l)) \<and> ram_read_w (mm_mem s) a = Some pte \<and>
       \<not> pte_faults (mm_sstatus s) (mm_priv s) (Some pte) x)"
proof -
  have size: "mem_size (mm_mem s) \<le> 2 ^ 32" using assms(2) by (simp add: tlb_ok_def)
  have trap: "tlb_ok (pf_trap pf c v s)" for c v using assms unfolding handler_ok_def by blast
  obtain r where r: "mmu_walk s vaddr = Some r"
    using walk_loop_result [OF size, of vaddr 2 1 "take_bit 22 (mm_satp s)"] unfolding mmu_walk_def by blast
  show ?thesis
  proof (cases r)
    case None
    with r trap assms(2) show ?thesis by (auto simp: walk_check_def mmu_fault_check_def)
  next
    case (Some al)
    obtain a l where al: "al = (a, l)" by (cases al)
    obtain pte where "ram_read_w (mm_mem s) a = Some pte" using walk_leaf(3) [OF size] r Some al by blast
    with r Some al trap assms(2) show ?thesis by (auto simp: walk_check_def mmu_fault_check_def)
  qed
qed

lemma walk_retry_ok:
  assumes "handler_ok pf" "tlb_ok s"
  shows "\<exists>r s'. walk_retry pf vaddr x s = Some (r, s') \<and> tlb_ok s' \<and> (r = None \<longrightarrow> need_handle_signal s') \<and>
    (\<forall>a pte l. r = Some (a, pte, l) \<longrightarrow> mmu_walk s' vaddr = Some (Some (a, l)) \<and> ram_read_w (mm_mem s') a = Some pte \<and>
       \<not> pte_faults (mm_sstatus s') (mm_priv s') (Some pte) x)"
proof -
  obtain r1 s1 where c1: "walk_check pf True vaddr x s = Some (r1, s1)" "tlb_ok s1"
    "\<And>a pte l. r1 = Some (a, pte, l) \<Longrightarrow> mmu_walk s1 vaddr = Some (Some (a, l)) \<and> ram_read_w (mm_mem s1) a = Some pte \<and>
      \<not> pte_faults (mm_sstatus s1) (mm_priv s1) (Some pte) x"
    using walk_check_ok [OF assms, of True vaddr x] by blast
  define s2 where "s2 = (if pf_mmio pf then s1\<lparr>need_handle_signal := pending_signal s1\<rparr> else s1)"
  have s2: "tlb_ok s2" using c1(2) by (simp add: s2_def)
  obtain r3 s3 where c3: "walk_check pf (x \<noteq> PTE_X) vaddr x s2 = Some (r3, s3)" "tlb_ok s3"
    "\<And>a pte l. r3 = Some (a, pte, l) \<Longrightarrow> mmu_walk s3 vaddr = Some (Some (a, l)) \<and> ram_read_w (mm_mem s3) a = Some pte \<and>
      \<not> pte_faults (mm_sstatus s3) (mm_priv s3) (Some pte) x"
    using walk_check_ok [OF assms(1) s2, of "x \<noteq> PTE_X" vaddr x] by blast
  show ?thesis
  proof (cases r1)
    case None
    show ?thesis
    proof (cases "pf_mmio pf \<and> need_handle_signal s2")
      case True
      with None s2 c1(1) show ?thesis by (auto simp: walk_retry_def s2_def Let_def split: if_splits)
    next
      case False
      with None c1(1) c3 show ?thesis by (cases r3) (auto simp: walk_retry_def s2_def Let_def)
    qed
  next
    case (Some e)
    with c1 show ?thesis by (cases e) (auto simp: walk_retry_def)
  qed
qed

lemma entry_of_fields:
  "te_vpn (tlb_entry_of v a pte l) = drop_bit RV_PG_SHIFT v" "te_pte_addr (tlb_entry_of v a pte l) = a"
  "te_level (tlb_entry_of v a pte l) = l" "te_ppn (tlb_entry_of v a pte l) = pte_base pte"
  "te_perm (tlb_entry_of v a pte l) = ucast (pte AND 0x1E)" "te_dirty (tlb_entry_of v a pte l) = (pte AND PTE_D \<noteq> 0)"
  by (simp_all add: tlb_entry_of_def)

lemma populate_ok:
  assumes "tlb_ok s" "mmu_walk s vaddr = Some (Some (a, l))" "ram_read_w (mm_mem s) a = Some pte" "ad_bits b" "pte AND x \<noteq> 0"
  shows "\<exists>s1. pte_set a b s = Some s1 \<and> tlb_ok (dtlb_populate vaddr a (pte OR b) l s1) \<and>
    tlb_ok (itlb_populate vaddr a (pte OR b) l s1) \<and> maps_to s1 x vaddr (pte_base (pte OR b) OR page_offset l vaddr)"
proof -
  obtain s1 where s1: "pte_set a b s = Some s1"
    "\<And>e i. te_vpn e = drop_bit RV_PG_SHIFT vaddr \<and> te_pte_addr e = a \<and> te_level e = l \<and> te_ppn e = pte_base pte \<and>
       te_perm e = ucast (pte AND 0x1E) \<and> (te_dirty e \<longrightarrow> (pte OR b) AND PTE_D \<noteq> 0) \<Longrightarrow>
       tlb_ok (s1\<lparr>dtlb := (dtlb s1)(i := e)\<rparr>) \<and> tlb_ok (s1\<lparr>itlb := (itlb s1)(i := e)\<rparr>)"
    "maps_to s1 x vaddr (pte_base pte OR page_offset l vaddr)"
    using tlb_update [OF assms(1-4)] assms(5) by (auto simp del: fun_upd_apply)
  have "tlb_ok (s1\<lparr>dtlb := (dtlb s1)(i := tlb_entry_of vaddr a (pte OR b) l)\<rparr>) \<and>
    tlb_ok (s1\<lparr>itlb := (itlb s1)(i := tlb_entry_of vaddr a (pte OR b) l)\<rparr>)" for i
    by (rule s1(2)) (simp add: entry_of_fields or_ad(3,4) [OF assms(4)])
  with s1(1,3) or_ad(3) [OF assms(4), of pte] show ?thesis unfolding dtlb_populate_def itlb_populate_def by simp
qed

lemma mmu_translate_ok:
  assumes "handler_ok pf" "tlb_ok s"
  shows "\<exists>paddr s'. mmu_translate pf vaddr rw s = Some (paddr, s') \<and> tlb_ok s' \<and>
    (if mm_satp s = 0 then paddr = vaddr \<and> s' = s
     else maps_to s' (if rw then PTE_R else PTE_W) vaddr paddr \<or> paddr = 0 \<and> need_handle_signal s')"
proof (cases "mm_satp s = 0")
  case True
  with assms(2) show ?thesis by (simp add: mmu_translate_def)
next
  case False
  let ?x = "if rw then PTE_R else PTE_W" and ?b = "PTE_A OR (if rw then 0 else PTE_D)"
  obtain r s1 where l: "dtlb_lookup vaddr (\<not> rw) s = Some (r, s1)" "tlb_ok s1"
    "\<And>paddr. r = Some paddr \<Longrightarrow> maps_to s1 ?x vaddr paddr"
    using dtlb_lookup_ok [OF assms(2), of vaddr "\<not> rw"] by (auto split: if_splits)
  show ?thesis
  proof (cases r)
    case (Some paddr)
    with l False show ?thesis by (simp add: mmu_translate_def)
  next
    case None
    obtain e s2 where w: "walk_retry pf vaddr ?x s1 = Some (e, s2)" "tlb_ok s2" "e = None \<longrightarrow> need_handle_signal s2"
      "\<And>a pte l. e = Some (a, pte, l) \<Longrightarrow> mmu_walk s2 vaddr = Some (Some (a, l)) \<and> ram_read_w (mm_mem s2) a = Some pte \<and>
        \<not> pte_faults (mm_sstatus s2) (mm_priv s2) (Some pte) ?x"
      using walk_retry_ok [OF assms(1) l(2), of vaddr ?x] by blast
    show ?thesis
    proof (cases e)
      case None
      with w False l(1) \<open>r = None\<close> show ?thesis by (simp add: mmu_translate_def)
    next
      case (Some apl)
      obtain a pte l where e: "apl = (a, pte, l)" by (cases apl)
      with w(4) Some have p: "mmu_walk s2 vaddr = Some (Some (a, l))" "ram_read_w (mm_mem s2) a = Some pte" "pte AND ?x \<noteq> 0"
        using pte_permits by blast+
      obtain s3 where "pte_set a ?b s2 = Some s3" "tlb_ok (dtlb_populate vaddr a (pte OR ?b) l s3)"
        "maps_to s3 ?x vaddr (pte_base (pte OR ?b) OR page_offset l vaddr)"
        using populate_ok [OF w(2) p(1,2) _ p(3), of ?b] by (cases rw) (auto simp: ad_bits_def)
      with w(1) Some e False l(1) None show ?thesis
        by (cases rw) (auto simp: mmu_translate_def Let_def dtlb_populate_def)
    qed
  qed
qed

lemma itlb_hit:
  assumes "tlb_ok s" "itlb_lookup vaddr s = Some paddr"
  shows "maps_to s PTE_X vaddr paddr"
proof -
  define e where "e = itlb s (drop_bit RV_PG_SHIFT vaddr AND TLB_MASK)"
  have e: "te_valid e" "te_vpn e = drop_bit RV_PG_SHIFT vaddr" "te_perm e AND ucast PTE_X \<noteq> 0"
    "paddr = te_ppn e OR page_offset (te_level e) vaddr"
    using assms(2) unfolding itlb_lookup_def Let_def e_def [symmetric] by (auto split: if_splits)
  then obtain pte where "mmu_walk s vaddr = Some (Some (te_pte_addr e, te_level e))"
    "ram_read_w (mm_mem s) (te_pte_addr e) = Some pte" "te_ppn e = pte_base pte" "te_perm e = ucast (pte AND 0x1E)"
    using assms(1) unfolding tlb_ok_def tlb_entry_ok_def e_def by metis
  with e(3,4) perm_bits [of PTE_X pte] show ?thesis unfolding maps_to_def by auto
qed

lemma mmu_ifetch_ok:
  assumes "handler_ok pf" "tlb_ok s" "mm_satp s \<noteq> 0" "\<not> need_retranslate s" "mmu_ifetch pf vaddr s = Some (insn, s')"
  shows "tlb_ok s' \<and> ((\<exists>paddr. maps_to s' PTE_X vaddr paddr \<and> memory_ifetch (mm_mem s') paddr = Some insn) \<or>
    insn = 0 \<and> need_handle_signal s')"
proof (cases "itlb_lookup vaddr s")
  case (Some paddr)
  with assms(3-5) have "memory_ifetch (mm_mem s) paddr = Some insn" "s' = s" by (auto simp: mmu_ifetch_def)
  with itlb_hit [OF assms(2) Some] assms(2) show ?thesis by blast
next
  case None
  obtain e s2 where w: "walk_retry pf vaddr PTE_X s = Some (e, s2)" "tlb_ok s2" "e = None \<longrightarrow> need_handle_signal s2"
    "\<And>a pte l. e = Some (a, pte, l) \<Longrightarrow> mmu_walk s2 vaddr = Some (Some (a, l)) \<and> ram_read_w (mm_mem s2) a = Some pte \<and>
      \<not> pte_faults (mm_sstatus s2) (mm_priv s2) (Some pte) PTE_X"
    using walk_retry_ok [OF assms(1,2), of vaddr PTE_X] by blast
  show ?thesis
  proof (cases e)
    case None
    with w \<open>itlb_lookup vaddr s = None\<close> assms(3-5) show ?thesis by (simp add: mmu_ifetch_def)
  next
    case (Some apl)
    obtain a pte l where e: "apl = (a, pte, l)" by (cases apl)
    with w(4) Some have p: "mmu_walk s2 vaddr = Some (Some (a, l))" "ram_read_w (mm_mem s2) a = Some pte" "pte AND PTE_X \<noteq> 0"
      using pte_permits by blast+
    obtain s3 where s3: "pte_set a PTE_A s2 = Some s3" "tlb_ok (itlb_populate vaddr a (pte OR PTE_A) l s3)"
      "maps_to s3 PTE_X vaddr (pte_base (pte OR PTE_A) OR page_offset l vaddr)"
      using populate_ok [OF w(2) p(1,2) _ p(3), of PTE_A] by auto
    with w(1) Some e assms(3-5) None have "s' = itlb_populate vaddr a (pte OR PTE_A) l s3"
      "memory_ifetch (mm_mem s3) (pte_base (pte OR PTE_A) OR page_offset l vaddr) = Some insn"
      by (auto simp: mmu_ifetch_def)
    with s3(2,3) show ?thesis by (auto simp: itlb_populate_def)
  qed
qed

section \<open>Properties\<close>





text \<open>C34. \<^verbatim>\<open>sfence.vma\<close> with an address leaves stale entries of a superpage: it drops the cached entry of one
  four KiB page only, so a load from another page of the same four MiB leaf entry still hits and is translated with the entry as it was
  before the fence.\<close>

theorem sfence_keeps_superpage:
  assumes "e = dtlb s (drop_bit RV_PG_SHIFT v AND TLB_MASK)" "te_valid e" "te_vpn e = drop_bit RV_PG_SHIFT v" "te_level e = 1"
    and "te_perm e AND ucast PTE_R \<noteq> 0" "drop_bit 22 vaddr = drop_bit 22 v" "drop_bit RV_PG_SHIFT vaddr \<noteq> drop_bit RV_PG_SHIFT v"
  shows "dtlb_lookup v False (mmu_tlb_flush vaddr s) =
    Some (Some (te_ppn e OR take_bit 22 v), mmu_tlb_flush vaddr s)"
proof -
  have "dtlb (mmu_tlb_flush vaddr s) (drop_bit RV_PG_SHIFT v AND TLB_MASK) = e"
    using assms(1,3,7) by (auto simp: mmu_tlb_flush_def tlb_flush_page_def Let_def)
  with assms(2-5) show ?thesis by (simp add: dtlb_lookup_def Let_def page_offset_def)
qed

section \<open>An example\<close>

text \<open>One page table at \<^verbatim>\<open>0x1000\<close> whose first entry maps the first four MiB to themselves, for user mode too.\<close>

definition pf_example :: platform where
  "pf_example = \<lparr>pf_trap = (\<lambda>_ _ s. s), pf_mmio = False, pf_mmio_read = (\<lambda>_ _. None), pf_mmio_write = (\<lambda>_ _ _. None)\<rparr>"

definition mmu_example :: mmu where
  "mmu_example = \<lparr>mm_satp = 0x80000001, mm_sstatus = SSTATUS_SUM, mm_sepc = 0, mm_last_sepc = 0, mm_priv = 1,
     mm_mem = \<lparr>mem_base = (\<lambda>i. if i = 0x1000 then 0x1F else 0), mem_size = 0x4000\<rparr>,
     dtlb = (\<lambda>_. tlb_clear), itlb = (\<lambda>_. tlb_clear), need_retranslate = False, need_handle_signal = False\<rparr>"

lemma example_ok: "handler_ok pf_example" "tlb_ok mmu_example"
  by (simp_all add: handler_ok_def pf_example_def tlb_ok_def mmu_example_def tlb_clear_def)

lemma example_read: "ram_read_w (mm_mem mmu_example) 0x1000 = Some 0x1F"
  by (simp add: mmu_example_def ram_read_w_def load_bytes_def upt_rec)

lemma example_walk:
  assumes "v \<in> {0x123, 0x2000}"
  shows "mmu_walk mmu_example v = Some (Some (0x1000, 1))"
proof -
  have v: "pte_address 1 v 1 = 0x1000" using assms by (elim insertE) (simp_all add: pte_address_def)
  have s: "take_bit 22 (mm_satp mmu_example) = 1" "ppn_is_valid (mm_mem mmu_example) 1"
    by (simp_all add: mmu_example_def ppn_is_valid_def)
  have "pte_decode 1 0x1F = Leaf_page" by (simp add: pte_decode_def)
  with v s example_read show ?thesis unfolding mmu_walk_def numeral_2_eq_2 by simp
qed

lemma example_retry:
  assumes "v \<in> {0x123, 0x2000}" "x \<in> {PTE_R, PTE_X}"
  shows "walk_retry pf_example v x mmu_example = Some (Some (0x1000, 0x1F, 1), mmu_example)"
proof -
  have "\<not> pte_faults (mm_sstatus mmu_example) (mm_priv mmu_example) (Some 0x1F) x"
    using assms(2) by (auto simp: pte_faults_def mmu_example_def)
  then show ?thesis using assms(1) by (simp add: walk_retry_def walk_check_def example_walk example_read mmu_fault_check_def)
qed




text \<open>The page is cached while \<^verbatim>\<open>SUM\<close> is set and accessed after it is cleared.\<close>

definition mmu_cached :: mmu where
  "mmu_cached = dtlb_populate 0x123 0x1000 0x5F 1 mmu_example"


theorem sfence_keeps_superpage_witness:
  "fst (the (dtlb_lookup 0x123 False (mmu_tlb_flush 0x1000 mmu_cached))) = Some 0x123"
  using sfence_keeps_superpage [of "tlb_entry_of 0x123 0x1000 0x5F 1" mmu_cached "0x123" "0x1000"]
  by (simp add: mmu_cached_def dtlb_populate_def tlb_entry_of_def pte_base_def)

end
