(* ===== verification/Spec2Isabelle.thy ===== *)
theory Spec2Isabelle
  imports RV_Decode_C RV_Step RV_Map_Sound RV_Mmu
begin

text \<open>
  A verification development for rv32emu.
\<close>

end
